(* ===== verification/Wire.thy ===== *)
theory Wire
  imports Munx_Prelude
begin

text \<open>
  The byte-level half of \<open>include/pipe_hub_protocol.hpp\<close>: the functions that append a
  scalar, a string or a byte vector to a buffer, and the class \<open>reader\<close> that consumes them.
  The locale \<open>wire_field\<close> states what the encoder of a field and its decoder promise each other;
  it is interpreted on all five fields of the protocol, and the messages rest on it.
\<close>

section \<open>Appending to a buffer\<close>

definition append_u8 :: "byte list \<Rightarrow> byte \<Rightarrow> byte list" where
  "append_u8 buffer b = buffer @ [b]"

definition append_u32 :: "byte list \<Rightarrow> u32 \<Rightarrow> byte list" where
  "append_u32 buffer w =
     append_u8 (append_u8 (append_u8 (append_u8 buffer
       (ucast (w AND 0xFF)))
       (ucast (drop_bit 8 w AND 0xFF)))
       (ucast (drop_bit 16 w AND 0xFF)))
       (ucast (drop_bit 24 w AND 0xFF))"

text \<open>The loop \<open>for (int shift = 0; shift < 64; shift += 8)\<close>.\<close>

definition append_u64 :: "byte list \<Rightarrow> u64 \<Rightarrow> byte list" where
  "append_u64 buffer w =
     foldl (\<lambda>buf shift. append_u8 buf (ucast (drop_bit shift w AND 0xFF))) buffer
       [0, 8, 16, 24, 32, 40, 48, 56]"

text \<open>
  A length above \<open>2 ^ 32 - 1\<close> only sets the protocol error flag: the code goes on and writes the
  length modulo \<open>2 ^ 32\<close>. \<open>exceeds_u32\<close> is that test; the flag has no effect on the buffer.
\<close>

definition exceeds_u32 :: "nat \<Rightarrow> bool" where
  "exceeds_u32 n \<longleftrightarrow> 4294967295 < n"

definition append_string :: "byte list \<Rightarrow> string \<Rightarrow> byte list" where
  "append_string buffer text =
     foldl (\<lambda>buf letter. append_u8 buf (byte_of_char letter))
       (append_u32 buffer (word_of_nat (length text))) text"

definition append_bytes :: "byte list \<Rightarrow> byte list \<Rightarrow> byte list" where
  "append_bytes buffer bytes = append_u32 buffer (word_of_nat (length bytes)) @ bytes"

section \<open>The reader\<close>

text \<open>
  The reader walks a span of \<open>rd_size\<close> bytes at the front of the buffer \<open>rd_memory\<close> that holds
  it. \<open>fail_protocol\<close> only raises a flag: \<open>read\<close> then hands out a slice past the end of the
  span all the same. Such a slice is still inside the buffer when enough bytes follow the span;
  otherwise the caller reads outside the buffer, and the model has no result (\<open>None\<close>).
\<close>

record reader =
  rd_memory :: "byte list"
  rd_size :: nat
  rd_cursor :: nat
  rd_error :: bool

definition new_reader :: "byte list \<Rightarrow> nat \<Rightarrow> reader" where
  "new_reader memory len = \<lparr>rd_memory = memory, rd_size = len, rd_cursor = 0, rd_error = False\<rparr>"

definition reader_read :: "nat \<Rightarrow> reader \<Rightarrow> (byte list \<times> reader) option" where
  "reader_read count r =
     (if length (rd_memory r) < rd_cursor r + count then None
      else Some (take count (drop (rd_cursor r) (rd_memory r)),
                 r\<lparr>rd_cursor := rd_cursor r + count,
                   rd_error := rd_error r \<or> rd_size r < rd_cursor r + count\<rparr>))"

definition reader_u8 :: "reader \<Rightarrow> (byte \<times> reader) option" where
  "reader_u8 r = (case reader_read 1 r of None \<Rightarrow> None | Some (bs, r') \<Rightarrow> Some (bs ! 0, r'))"

definition reader_u32 :: "reader \<Rightarrow> (u32 \<times> reader) option" where
  "reader_u32 r = (case reader_read 4 r of None \<Rightarrow> None
     | Some (bs, r') \<Rightarrow>
         Some (ucast (bs ! 0) OR push_bit 8 (ucast (bs ! 1)) OR
               push_bit 16 (ucast (bs ! 2)) OR push_bit 24 (ucast (bs ! 3)), r'))"

definition reader_u64 :: "reader \<Rightarrow> (u64 \<times> reader) option" where
  "reader_u64 r = (case reader_read 8 r of None \<Rightarrow> None
     | Some (bs, r') \<Rightarrow>
         Some (foldl (\<lambda>w i. w OR push_bit (i * 8) (ucast (bs ! i))) 0 [0..<length bs], r'))"

definition reader_string :: "reader \<Rightarrow> (string \<times> reader) option" where
  "reader_string r = (case reader_u32 r of None \<Rightarrow> None
     | Some (len, r1) \<Rightarrow>
         (case reader_read (unat len) r1 of None \<Rightarrow> None
          | Some (bs, r2) \<Rightarrow> Some (bytes_string bs, r2)))"

definition reader_bytes :: "reader \<Rightarrow> (byte list \<times> reader) option" where
  "reader_bytes r = (case reader_u32 r of None \<Rightarrow> None
     | Some (len, r1) \<Rightarrow> reader_read (unat len) r1)"

text \<open>\<open>span::subspan\<close> is undefined when the cursor has gone past the span.\<close>

definition reader_rest :: "reader \<Rightarrow> byte list" where
  "reader_rest r = drop (rd_cursor r) (take (rd_size r) (rd_memory r))"

definition reader_remaining :: "reader \<Rightarrow> byte list option" where
  "reader_remaining r = (if rd_size r < rd_cursor r then None else Some (reader_rest r))"

section \<open>Both halves in closed form\<close>

lemma append_u8_eq [wire_simps]: "append_u8 buf b = buf @ [b]"
  by (simp add: append_u8_def)

lemma and_255_ucast: "(ucast (w AND 0xFF :: 'a::len word) :: byte) = ucast w"
proof -
  have mask: "(0xFF :: 'a word) = mask 8"
    by (simp add: mask_eq_exp_minus_1)
  show ?thesis
    unfolding mask by (rule bit_word_eqI) (auto simp: bit_simps dest: bit_imp_le_length)
qed

lemma append_u32_eq [wire_simps]: "append_u32 buf w = buf @ le_bytes 4 w"
  by (simp add: append_u32_def append_u8_def le_bytes_def and_255_ucast upt_rec)

lemma append_u64_eq [wire_simps]: "append_u64 buf w = buf @ le_bytes 8 w"
  by (simp add: append_u64_def append_u8_def le_bytes_def and_255_ucast upt_rec)

lemma foldl_append_u8: "foldl (\<lambda>buf x. append_u8 buf (f x)) buf xs = buf @ map f xs"
  by (induction xs arbitrary: buf) (simp_all add: append_u8_def)

lemma append_string_eq [wire_simps]:
  "append_string buf s = buf @ le_bytes 4 (word_of_nat (length s) :: u32) @ string_bytes s"
  by (simp add: append_string_def foldl_append_u8 append_u32_eq string_bytes_def)

lemma append_bytes_eq [wire_simps]:
  "append_bytes buf bs = buf @ le_bytes 4 (word_of_nat (length bs) :: u32) @ bs"
  by (simp add: append_bytes_def append_u32_eq)

text \<open>A reader within its span, which is within the buffer, and no error so far.\<close>

definition reader_wf :: "reader \<Rightarrow> bool" where
  "reader_wf r \<longleftrightarrow> rd_cursor r \<le> rd_size r \<and> rd_size r \<le> length (rd_memory r) \<and> \<not> rd_error r"

lemma reader_wf_no_error [simp]: "reader_wf r \<Longrightarrow> \<not> rd_error r"
  by (simp add: reader_wf_def)

lemma reader_wf_remaining [simp]: "reader_wf r \<Longrightarrow> reader_remaining r = Some (reader_rest r)"
  by (simp add: reader_wf_def reader_remaining_def)

lemma new_reader_wf [simp]: "reader_wf (new_reader (body @ behind) (length body))"
  by (simp add: reader_wf_def new_reader_def)

lemma new_reader_rest [simp]: "reader_rest (new_reader (body @ behind) (length body)) = body"
  by (simp add: new_reader_def reader_rest_def)

lemma whole_reader [simp]:
  "reader_wf (new_reader body (length body))" "reader_rest (new_reader body (length body)) = body"
  by (simp_all add: reader_wf_def reader_rest_def new_reader_def)

lemma reader_read_append:
  assumes "reader_wf r" "reader_rest r = bs @ rest" "length bs = n"
  shows "\<exists>r'. reader_read n r = Some (bs, r') \<and> reader_wf r' \<and> reader_rest r' = rest"
proof -
  have len: "length bs + length rest = rd_size r - rd_cursor r"
    using arg_cong [OF assms(2), of length] assms(1) by (simp add: reader_rest_def reader_wf_def)
  have rest: "drop (n + rd_cursor r) (take (rd_size r) (rd_memory r)) = rest"
    using assms(2,3) by (metis append_eq_conv_conj drop_drop reader_rest_def)
  have "take n (drop (rd_cursor r) (rd_memory r)) = take n (reader_rest r)"
    using len assms(3) by (simp add: reader_rest_def drop_take)
  then have "take n (drop (rd_cursor r) (rd_memory r)) = bs"
    using assms(2,3) by simp
  with assms len rest show ?thesis
    by (auto simp: reader_read_def reader_wf_def reader_rest_def add.commute)
qed

section \<open>The contract of a field\<close>

text \<open>
  \<open>app\<close> appends a value to a buffer and \<open>rd\<close> reads one back. What the encoder promises:
  it only appends, and for the values \<open>ok\<close> it can represent, the reader gets the value back
  and is left exactly at what follows it.
\<close>

locale wire_field =
  fixes app :: "byte list \<Rightarrow> 'a \<Rightarrow> byte list"
    and rd :: "reader \<Rightarrow> ('a \<times> reader) option"
    and ok :: "'a \<Rightarrow> bool"
  assumes app_extends: "app buf x = buf @ app [] x"
    and rd_app: "ok x \<Longrightarrow> reader_wf r \<Longrightarrow> reader_rest r = app [] x @ rest \<Longrightarrow>
      \<exists>r'. rd r = Some (x, r') \<and> reader_wf r' \<and> reader_rest r' = rest"
begin

lemma field_roundtrip:
  assumes "ok x"
  shows "\<exists>r'. rd (new_reader (app [] x @ rest) (length (app [] x @ rest))) = Some (x, r') \<and>
    reader_rest r' = rest"
  using rd_app [OF assms whole_reader] by fastforce

lemma field_prefix_free:
  assumes "ok x" "ok y" "app buf x @ r = app buf y @ s"
  shows "x = y \<and> r = s"
proof -
  have eq: "app [] x @ r = app [] y @ s"
    using assms(3) app_extends [of buf x] app_extends [of buf y] by simp
  obtain r1 where r1: "rd (new_reader (app [] x @ r) (length (app [] x @ r))) = Some (x, r1)" "reader_rest r1 = r"
    using field_roundtrip [OF assms(1)] by blast
  obtain r2 where r2: "rd (new_reader (app [] y @ s) (length (app [] y @ s))) = Some (y, r2)" "reader_rest r2 = s"
    using field_roundtrip [OF assms(2)] by blast
  from r1 r2 eq show ?thesis by simp
qed

end

lemma reader_u8_app:
  "reader_wf r \<Longrightarrow> reader_rest r = b # rest \<Longrightarrow>
   \<exists>r'. reader_u8 r = Some (b, r') \<and> reader_wf r' \<and> reader_rest r' = rest"
  using reader_read_append [of r "[b]" rest 1] by (auto simp: reader_u8_def)

interpretation u8_field: wire_field append_u8 reader_u8 "\<lambda>_. True"
  by unfold_locales (auto simp: append_u8_def intro: reader_u8_app)

lemma length_4_conv: "length bs = 4 \<longleftrightarrow> (\<exists>a b c d. bs = [a, b, c, d])"
  by (auto simp: numeral_eq_Suc length_Suc_conv)

lemma length_8_conv:
  "length bs = 8 \<longleftrightarrow> (\<exists>a b c d e f g h. bs = [a, b, c, d, e, f, g, h])"
  by (auto simp: numeral_eq_Suc length_Suc_conv)

lemma u32_join:
  "length bs = 4 \<Longrightarrow>
   ucast (bs ! 0) OR push_bit 8 (ucast (bs ! 1)) OR
   push_bit 16 (ucast (bs ! 2)) OR push_bit 24 (ucast (bs ! 3)) = (le_word bs :: u32)"
  by (auto simp: length_4_conv push_bit_or or.assoc)

lemma u64_join:
  "length bs = 8 \<Longrightarrow>
   foldl (\<lambda>w i. w OR push_bit (i * 8) (ucast (bs ! i))) 0 [0..<8] = (le_word bs :: u64)"
  by (auto simp: length_8_conv push_bit_or or.assoc upt_rec)

lemma reader_u32_app:
  assumes "reader_wf r" "reader_rest r = le_bytes 4 w @ rest"
  shows "\<exists>r'. reader_u32 r = Some (w, r') \<and> reader_wf r' \<and> reader_rest r' = rest"
  using reader_read_append [OF assms, of 4] u32_join [of "le_bytes 4 w"]
  by (auto simp: reader_u32_def le_word_le_bytes)

lemma reader_u64_app:
  assumes "reader_wf r" "reader_rest r = le_bytes 8 w @ rest"
  shows "\<exists>r'. reader_u64 r = Some (w, r') \<and> reader_wf r' \<and> reader_rest r' = rest"
  using reader_read_append [OF assms, of 8] u64_join [of "le_bytes 8 w"]
  by (auto simp: reader_u64_def le_word_le_bytes)

interpretation u32_field: wire_field append_u32 reader_u32 "\<lambda>_. True"
  by unfold_locales (auto simp: append_u32_eq intro: reader_u32_app)

interpretation u64_field: wire_field append_u64 reader_u64 "\<lambda>_. True"
  by unfold_locales (auto simp: append_u64_eq intro: reader_u64_app)

lemma unat_length_u32: "\<not> exceeds_u32 n \<Longrightarrow> unat (word_of_nat n :: u32) = n"
  by (simp add: exceeds_u32_def unat_of_nat)

lemma reader_bytes_app:
  assumes "\<not> exceeds_u32 (length bs)" "reader_wf r"
    "reader_rest r = le_bytes 4 (word_of_nat (length bs) :: u32) @ bs @ rest"
  shows "\<exists>r'. reader_bytes r = Some (bs, r') \<and> reader_wf r' \<and> reader_rest r' = rest"
proof -
  obtain r1 where r1: "reader_u32 r = Some (word_of_nat (length bs), r1)" "reader_wf r1"
      "reader_rest r1 = bs @ rest"
    using reader_u32_app [OF assms(2,3)] by blast
  with reader_read_append [OF r1(2,3) refl] assms(1) show ?thesis
    by (auto simp: reader_bytes_def unat_length_u32)
qed

lemma reader_string_app:
  assumes "\<not> exceeds_u32 (length s)" "reader_wf r"
    "reader_rest r = le_bytes 4 (word_of_nat (length s) :: u32) @ string_bytes s @ rest"
  shows "\<exists>r'. reader_string r = Some (s, r') \<and> reader_wf r' \<and> reader_rest r' = rest"
  using reader_bytes_app [of "string_bytes s" r rest] assms
  by (auto simp: reader_bytes_def reader_string_def split: option.splits)

interpretation bytes_field: wire_field append_bytes reader_bytes "\<lambda>bs. \<not> exceeds_u32 (length bs)"
  by unfold_locales (auto simp: append_bytes_eq intro: reader_bytes_app)

interpretation string_field: wire_field append_string reader_string "\<lambda>s. \<not> exceeds_u32 (length s)"
  by unfold_locales (auto simp: append_string_eq intro: reader_string_app)

end
