(* ===== verification/Hub_Protocol.thy ===== *)
theory Hub_Protocol
  imports Wire "HOL-Library.Monad_Syntax"
begin

text \<open>
  The messages of the pipe hub (\<open>include/pipe_hub_protocol.hpp\<close>): the opcode, mode and client
  enumerations with their wire bytes, one encoder per message, \<open>decode_message\<close>, the settings read
  from the environment, and the two loops of namespace \<open>io\<close> over the system calls. The lemmas show
  that every encoder is undone by \<open>decode_message\<close>, that framing delimits messages, and that the
  loops hand over exactly the bytes asked for.
\<close>

section \<open>Enumerations\<close>

text \<open>
  A byte off the wire is cast to the enumeration without a check, so every byte is a value: the
  last constructor of each type carries the bytes that name no enumerator.
\<close>

datatype hub_opcode =
  Hello | Bye | Attach | Detach | Publish | Deliver | Ack | Error
| ChannelOffer | ChannelAccept | ChannelBusy | ChannelRecvReady | ChannelDataAck
| OtherOpcode byte

datatype attachment_mode = Writer | QueueIn | BroadcastIn | ChannelPeer | OtherMode byte

datatype client_kind = Unknown | Vm | Native | Tool | OtherClient byte

fun opcode_u8 :: "hub_opcode \<Rightarrow> byte" where
  "opcode_u8 Hello = 1"
| "opcode_u8 Bye = 2"
| "opcode_u8 Attach = 3"
| "opcode_u8 Detach = 4"
| "opcode_u8 Publish = 5"
| "opcode_u8 Deliver = 6"
| "opcode_u8 Ack = 7"
| "opcode_u8 Error = 8"
| "opcode_u8 ChannelOffer = 9"
| "opcode_u8 ChannelAccept = 10"
| "opcode_u8 ChannelBusy = 11"
| "opcode_u8 ChannelRecvReady = 12"
| "opcode_u8 ChannelDataAck = 13"
| "opcode_u8 (OtherOpcode b) = b"

definition hub_opcodes :: "hub_opcode list" where
  "hub_opcodes = [Hello, Bye, Attach, Detach, Publish, Deliver, Ack, Error, ChannelOffer,
     ChannelAccept, ChannelBusy, ChannelRecvReady, ChannelDataAck]"

definition u8_opcode :: "byte \<Rightarrow> hub_opcode" where
  "u8_opcode b = (case find (\<lambda>k. opcode_u8 k = b) hub_opcodes of Some k \<Rightarrow> k | None \<Rightarrow> OtherOpcode b)"

fun mode_u8 :: "attachment_mode \<Rightarrow> byte" where
  "mode_u8 Writer = 0"
| "mode_u8 QueueIn = 1"
| "mode_u8 BroadcastIn = 2"
| "mode_u8 ChannelPeer = 3"
| "mode_u8 (OtherMode b) = b"

definition u8_mode :: "byte \<Rightarrow> attachment_mode" where
  "u8_mode b = (if b = 0 then Writer else if b = 1 then QueueIn else if b = 2 then BroadcastIn
     else if b = 3 then ChannelPeer else OtherMode b)"

fun client_u8 :: "client_kind \<Rightarrow> byte" where
  "client_u8 Unknown = 0"
| "client_u8 Vm = 1"
| "client_u8 Native = 2"
| "client_u8 Tool = 3"
| "client_u8 (OtherClient b) = b"

definition u8_client :: "byte \<Rightarrow> client_kind" where
  "u8_client b = (if b = 0 then Unknown else if b = 1 then Vm else if b = 2 then Native
     else if b = 3 then Tool else OtherClient b)"

text \<open>The values a program can write down: the enumerators, and no cast byte.\<close>

definition named_opcode :: "hub_opcode \<Rightarrow> bool" where
  "named_opcode k \<longleftrightarrow> (\<forall>b. k \<noteq> OtherOpcode b)"

definition named_mode :: "attachment_mode \<Rightarrow> bool" where
  "named_mode m \<longleftrightarrow> (\<forall>b. m \<noteq> OtherMode b)"

definition named_client :: "client_kind \<Rightarrow> bool" where
  "named_client c \<longleftrightarrow> (\<forall>b. c \<noteq> OtherClient b)"

lemma u8_opcode_named [wire_simps]: "named_opcode k \<Longrightarrow> u8_opcode (opcode_u8 k) = k"
  by (cases k) (simp_all add: u8_opcode_def hub_opcodes_def named_opcode_def)

lemma opcode_u8_opcode [wire_simps]: "opcode_u8 (u8_opcode b) = b"
  by (auto simp: u8_opcode_def find_Some_iff split: option.splits)

lemma u8_mode_named [wire_simps]: "named_mode m \<Longrightarrow> u8_mode (mode_u8 m) = m"
  by (cases m) (simp_all add: u8_mode_def named_mode_def)

lemma mode_u8_mode [wire_simps]: "mode_u8 (u8_mode b) = b"
  by (simp add: u8_mode_def)

lemma u8_client_named [wire_simps]: "named_client c \<Longrightarrow> u8_client (client_u8 c) = c"
  by (cases c) (simp_all add: u8_client_def named_client_def)

lemma client_u8_client [wire_simps]: "client_u8 (u8_client b) = b"
  by (simp add: u8_client_def)

section \<open>Settings\<close>

text \<open>
  An environment variable is \<open>None\<close> when unset. \<open>c_at s i\<close> reads a C string at an index up to
  its terminator.
\<close>

definition c_at :: "string \<Rightarrow> nat \<Rightarrow> char" where
  "c_at s i = (if i < length s then s ! i else CHR 0x00)"

definition path_join :: "string \<Rightarrow> string \<Rightarrow> string" where
  "path_join dir leaf = (if dir = [] \<or> last dir = CHR ''/'' then dir @ leaf else dir @ ''/'' @ leaf)"

definition pipe_directory :: "string option \<Rightarrow> string \<Rightarrow> string" where
  "pipe_directory munx_pipe_dir temp_directory_path =
     (case munx_pipe_dir of
        Some configured \<Rightarrow>
          if c_at configured 0 \<noteq> CHR 0x00 then configured
          else path_join temp_directory_path ''munx-pipes''
      | None \<Rightarrow> path_join temp_directory_path ''munx-pipes'')"

definition hub_socket_path :: "string option \<Rightarrow> string \<Rightarrow> string" where
  "hub_socket_path env tmp = path_join (pipe_directory env tmp) ''hub.sock''"

definition hub_lock_path :: "string option \<Rightarrow> string \<Rightarrow> string" where
  "hub_lock_path env tmp = path_join (pipe_directory env tmp) ''hub.lock''"

definition hub_pid_path :: "string option \<Rightarrow> string \<Rightarrow> string" where
  "hub_pid_path env tmp = path_join (pipe_directory env tmp) ''hub.pid''"

definition hub_enabled :: "string option \<Rightarrow> bool" where
  "hub_enabled munx_pipe_hub =
     (case munx_pipe_hub of
        Some configured \<Rightarrow> c_at configured 0 \<noteq> CHR ''0'' \<or> c_at configured 1 \<noteq> CHR 0x00
      | None \<Rightarrow> True)"

lemma hub_enabled_iff:
  assumes "\<And>s. env = Some s \<Longrightarrow> CHR 0x00 \<notin> set s"
  shows "hub_enabled env \<longleftrightarrow> env \<noteq> Some ''0''"
proof (cases env)
  case (Some s)
  with assms have nz: "CHR 0x00 \<notin> set s" by blast
  show ?thesis
  proof (cases s)
    case (Cons c cs)
    with nz Some show ?thesis
      by (cases cs) (auto simp: hub_enabled_def c_at_def)
  qed (simp add: Some hub_enabled_def c_at_def)
qed (simp add: hub_enabled_def)

section \<open>Encoders\<close>

definition encode_frame :: "byte list \<Rightarrow> byte list" where
  "encode_frame body = append_u32 [] (word_of_nat (length body)) @ body"

definition encode_hello :: "u64 \<Rightarrow> client_kind \<Rightarrow> byte list" where
  "encode_hello pid kind =
     encode_frame (append_u8 (append_u64 (append_u8 [] (opcode_u8 Hello)) pid) (client_u8 kind))"

definition encode_bye :: "byte list" where
  "encode_bye = encode_frame (append_u8 [] (opcode_u8 Bye))"

definition encode_attach :: "string \<Rightarrow> attachment_mode \<Rightarrow> byte list" where
  "encode_attach channel mode =
     encode_frame (append_u8 (append_string (append_u8 [] (opcode_u8 Attach)) channel) (mode_u8 mode))"

definition encode_detach :: "string \<Rightarrow> attachment_mode \<Rightarrow> byte list" where
  "encode_detach channel mode =
     encode_frame (append_u8 (append_string (append_u8 [] (opcode_u8 Detach)) channel) (mode_u8 mode))"

definition encode_publish :: "string \<Rightarrow> byte list \<Rightarrow> byte list" where
  "encode_publish channel payload =
     encode_frame (append_bytes (append_string (append_u8 [] (opcode_u8 Publish)) channel) payload)"

definition encode_deliver :: "string \<Rightarrow> attachment_mode \<Rightarrow> byte list \<Rightarrow> byte list" where
  "encode_deliver channel mode payload =
     encode_frame (append_bytes (append_u8 (append_string (append_u8 [] (opcode_u8 Deliver)) channel)
       (mode_u8 mode)) payload)"

definition encode_ack :: "byte list" where
  "encode_ack = encode_frame (append_u8 [] (opcode_u8 Ack))"

definition encode_error :: "string \<Rightarrow> byte list" where
  "encode_error message = encode_frame (append_string (append_u8 [] (opcode_u8 Error)) message)"

definition encode_channel_op :: "hub_opcode \<Rightarrow> string \<Rightarrow> byte list" where
  "encode_channel_op kind channel = encode_frame (append_string (append_u8 [] (opcode_u8 kind)) channel)"

section \<open>Decoding\<close>

record message =
  msg_kind :: hub_opcode
  msg_pid :: u64
  msg_client :: client_kind
  msg_channel :: string
  msg_mode :: attachment_mode
  msg_payload :: "byte list"
  msg_text :: string

definition blank_message :: message where
  "blank_message = \<lparr>msg_kind = Ack, msg_pid = 0, msg_client = Unknown, msg_channel = [],
     msg_mode = Writer, msg_payload = [], msg_text = []\<rparr>"

text \<open>
  \<open>decode_message\<close> gives the message and whether \<open>protocol_error_flag\<close> was raised on the way; there
  is no result when it read outside the buffer that holds the body.
\<close>

definition decode_fields :: "hub_opcode \<Rightarrow> reader \<Rightarrow> message \<Rightarrow> (message \<times> bool) option" where
  "decode_fields kind input decoded =
     (case kind of
        Hello \<Rightarrow> do {
          (pid, input1) \<leftarrow> reader_u64 input;
          remaining \<leftarrow> reader_remaining input1;
          if remaining \<noteq> [] then do {
            (c, input2) \<leftarrow> reader_u8 input1;
            Some (decoded\<lparr>msg_pid := pid, msg_client := u8_client c\<rparr>, rd_error input2) }
          else Some (decoded\<lparr>msg_pid := pid\<rparr>, rd_error input1) }
      | Bye \<Rightarrow> Some (decoded, rd_error input)
      | Attach \<Rightarrow> do {
          (channel, input1) \<leftarrow> reader_string input;
          (m, input2) \<leftarrow> reader_u8 input1;
          Some (decoded\<lparr>msg_channel := channel, msg_mode := u8_mode m\<rparr>, rd_error input2) }
      | Detach \<Rightarrow> do {
          (channel, input1) \<leftarrow> reader_string input;
          (m, input2) \<leftarrow> reader_u8 input1;
          Some (decoded\<lparr>msg_channel := channel, msg_mode := u8_mode m\<rparr>, rd_error input2) }
      | Publish \<Rightarrow> do {
          (channel, input1) \<leftarrow> reader_string input;
          (payload, input2) \<leftarrow> reader_bytes input1;
          Some (decoded\<lparr>msg_channel := channel, msg_payload := payload\<rparr>, rd_error input2) }
      | Deliver \<Rightarrow> do {
          (channel, input1) \<leftarrow> reader_string input;
          (m, input2) \<leftarrow> reader_u8 input1;
          (payload, input3) \<leftarrow> reader_bytes input2;
          Some (decoded\<lparr>msg_channel := channel, msg_mode := u8_mode m, msg_payload := payload\<rparr>,
                rd_error input3) }
      | Ack \<Rightarrow> Some (decoded, rd_error input)
      | Error \<Rightarrow> do {
          (text, input1) \<leftarrow> reader_string input;
          Some (decoded\<lparr>msg_text := text\<rparr>, rd_error input1) }
      | OtherOpcode _ \<Rightarrow> Some (decoded, rd_error input)
      | _ \<Rightarrow> do {
          (channel, input1) \<leftarrow> reader_string input;
          Some (decoded\<lparr>msg_channel := channel\<rparr>, rd_error input1) })"

definition decode_message :: "byte list \<Rightarrow> nat \<Rightarrow> (message \<times> bool) option" where
  "decode_message memory len =
     (case reader_u8 (new_reader memory len) of None \<Rightarrow> None
      | Some (k, input) \<Rightarrow>
          decode_fields (u8_opcode k) input (blank_message\<lparr>msg_kind := u8_opcode k\<rparr>))"

text \<open>A body that is read without error wherever it stands in a buffer.\<close>

definition decodes_to :: "byte list \<Rightarrow> message \<Rightarrow> bool" where
  "decodes_to body m \<longleftrightarrow> (\<forall>behind. decode_message (body @ behind) (length body) = Some (m, False))"

section \<open>Round trips\<close>

text \<open>
  \<open>encode_message\<close> picks the encoder the sender of a message calls; \<open>sendable\<close> says the
  message is one a program can build: enumerators only, lengths within 32 bits, and the fields its
  opcode does not carry left at their defaults.
\<close>

definition encode_message :: "message \<Rightarrow> byte list" where
  "encode_message m =
     (case msg_kind m of
        Hello \<Rightarrow> encode_hello (msg_pid m) (msg_client m)
      | Bye \<Rightarrow> encode_bye
      | Attach \<Rightarrow> encode_attach (msg_channel m) (msg_mode m)
      | Detach \<Rightarrow> encode_detach (msg_channel m) (msg_mode m)
      | Publish \<Rightarrow> encode_publish (msg_channel m) (msg_payload m)
      | Deliver \<Rightarrow> encode_deliver (msg_channel m) (msg_mode m) (msg_payload m)
      | Ack \<Rightarrow> encode_ack
      | Error \<Rightarrow> encode_error (msg_text m)
      | kind \<Rightarrow> encode_channel_op kind (msg_channel m))"

definition carries_channel :: "hub_opcode \<Rightarrow> bool" where
  "carries_channel k \<longleftrightarrow> k \<notin> {Hello, Bye, Ack, Error}"

definition sendable :: "message \<Rightarrow> bool" where
  "sendable m \<longleftrightarrow>
     (let k = msg_kind m in
      named_opcode k \<and>
      (k = Hello \<and> named_client (msg_client m) \<or> msg_client m = Unknown) \<and>
      (k = Hello \<or> msg_pid m = 0) \<and>
      (carries_channel k \<and> \<not> exceeds_u32 (length (msg_channel m)) \<or> msg_channel m = []) \<and>
      (k \<in> {Attach, Detach, Deliver} \<and> named_mode (msg_mode m) \<or> msg_mode m = Writer) \<and>
      (k \<in> {Publish, Deliver} \<and> \<not> exceeds_u32 (length (msg_payload m)) \<or> msg_payload m = []) \<and>
      (k = Error \<and> \<not> exceeds_u32 (length (msg_text m)) \<or> msg_text m = []))"

text \<open>Reading one field of a message and going on with the next.\<close>

lemma field_step:
  assumes "wire_field app rd ok" "ok x" "reader_wf r" "reader_rest r = app [] x @ rest"
    and "\<And>r'. reader_wf r' \<Longrightarrow> reader_rest r' = rest \<Longrightarrow> f (x, r') = Some y"
  shows "Option.bind (rd r) f = Some y"
proof -
  obtain r' where "rd r = Some (x, r')" "reader_wf r'" "reader_rest r' = rest"
    using wire_field.rd_app [OF assms(1-4)] by blast
  with assms(5) show ?thesis by simp
qed

lemmas u8_step = field_step [OF u8_field.wire_field_axioms TrueI]
lemmas u64_step = field_step [OF u64_field.wire_field_axioms TrueI]
lemmas string_step = field_step [OF string_field.wire_field_axioms]
lemmas bytes_step = field_step [OF bytes_field.wire_field_axioms]

lemma drop_frame: "drop 4 (encode_frame body) = body"
  by (simp add: encode_frame_def append_u32_eq)

lemma take_frame: "take 4 (encode_frame body) = le_bytes 4 (word_of_nat (length body) :: u32)"
  by (simp add: encode_frame_def append_u32_eq)

lemma decode_message_body:
  assumes "named_opcode k"
    and "\<And>r. reader_wf r \<Longrightarrow> reader_rest r = rest \<Longrightarrow>
      decode_fields k r (blank_message\<lparr>msg_kind := k\<rparr>) = Some (m, False)"
  shows "decodes_to (append_u8 [] (opcode_u8 k) @ rest) m"
  unfolding decodes_to_def
proof
  fix behind
  let ?b = "append_u8 [] (opcode_u8 k) @ rest"
  obtain r where "reader_u8 (new_reader (?b @ behind) (length ?b)) = Some (opcode_u8 k, r)"
      "reader_wf r" "reader_rest r = rest"
    using u8_field.rd_app [OF TrueI new_reader_wf new_reader_rest] by blast
  with assms show "decode_message (?b @ behind) (length ?b) = Some (m, False)"
    by (simp add: decode_message_def wire_simps)
qed

text \<open>One lemma per shape of body.\<close>

lemma decode_hello_body:
  assumes "named_client c"
  shows "decodes_to (append_u8 [] (opcode_u8 Hello) @ append_u64 [] pid @ append_u8 [] (client_u8 c))
    (blank_message\<lparr>msg_kind := Hello, msg_pid := pid, msg_client := c\<rparr>)"
proof (rule decode_message_body)
  fix r assume r: "reader_wf r" "reader_rest r = append_u64 [] pid @ append_u8 [] (client_u8 c)"
  show "decode_fields Hello r (blank_message\<lparr>msg_kind := Hello\<rparr>) =
    Some (blank_message\<lparr>msg_kind := Hello, msg_pid := pid, msg_client := c\<rparr>, False)"
    unfolding decode_fields_def hub_opcode.case
  proof (rule u64_step [OF r])
    fix r' assume r': "reader_wf r'" "reader_rest r' = append_u8 [] (client_u8 c)"
    then obtain r2 where "reader_u8 r' = Some (client_u8 c, r2)" "reader_wf r2"
      using u8_field.rd_app [OF TrueI r'(1), of "client_u8 c" "[]"] by auto
    with r' assms show "(case (pid, r') of (pid, input1) \<Rightarrow> do {
          remaining \<leftarrow> reader_remaining input1;
          if remaining \<noteq> [] then do {
            (c, input2) \<leftarrow> reader_u8 input1;
            Some (blank_message\<lparr>msg_kind := Hello, msg_pid := pid, msg_client := u8_client c\<rparr>, rd_error input2) }
          else Some (blank_message\<lparr>msg_kind := Hello, msg_pid := pid\<rparr>, rd_error input1) }) =
      Some (blank_message\<lparr>msg_kind := Hello, msg_pid := pid, msg_client := c\<rparr>, False)"
      by (simp add: append_u8_def wire_simps)
  qed
qed (simp add: named_opcode_def)

text \<open>A \<open>Hello\<close> of an old client ends after the process id.\<close>

lemma decode_legacy_hello_body:
  "decodes_to (append_u8 [] (opcode_u8 Hello) @ append_u64 [] pid)
    (blank_message\<lparr>msg_kind := Hello, msg_pid := pid\<rparr>)"
  by (rule decode_message_body)
     (auto simp: named_opcode_def decode_fields_def intro!: u64_step [where rest = "[]"])

lemma decode_mode_body:
  assumes "k \<in> {Attach, Detach}" "\<not> exceeds_u32 (length ch)" "named_mode m"
  shows "decodes_to (append_u8 [] (opcode_u8 k) @ append_string [] ch @ append_u8 [] (mode_u8 m))
    (blank_message\<lparr>msg_kind := k, msg_channel := ch, msg_mode := m\<rparr>)"
  using assms
  by (intro decode_message_body)
     (auto simp: named_opcode_def decode_fields_def u8_mode_named
       intro!: string_step u8_step [where rest = "[]"])

lemma decode_publish_body:
  assumes "\<not> exceeds_u32 (length ch)" "\<not> exceeds_u32 (length p)"
  shows "decodes_to (append_u8 [] (opcode_u8 Publish) @ append_string [] ch @ append_bytes [] p)
    (blank_message\<lparr>msg_kind := Publish, msg_channel := ch, msg_payload := p\<rparr>)"
  using assms
  by (intro decode_message_body)
     (auto simp: named_opcode_def decode_fields_def intro!: string_step bytes_step [where rest = "[]"])

lemma decode_deliver_body:
  assumes "\<not> exceeds_u32 (length ch)" "named_mode m" "\<not> exceeds_u32 (length p)"
  shows "decodes_to (append_u8 [] (opcode_u8 Deliver) @ append_string [] ch @
      append_u8 [] (mode_u8 m) @ append_bytes [] p)
    (blank_message\<lparr>msg_kind := Deliver, msg_channel := ch, msg_mode := m, msg_payload := p\<rparr>)"
  using assms
  by (intro decode_message_body)
     (auto simp: named_opcode_def decode_fields_def u8_mode_named
       intro!: string_step u8_step bytes_step [where rest = "[]"])

lemma decode_error_body:
  assumes "\<not> exceeds_u32 (length t)"
  shows "decodes_to (append_u8 [] (opcode_u8 Error) @ append_string [] t)
    (blank_message\<lparr>msg_kind := Error, msg_text := t\<rparr>)"
  using assms
  by (intro decode_message_body)
     (auto simp: named_opcode_def decode_fields_def intro!: string_step [where rest = "[]"])

lemma decode_channel_op_body:
  assumes "k \<in> {ChannelOffer, ChannelAccept, ChannelBusy, ChannelRecvReady, ChannelDataAck}"
    "\<not> exceeds_u32 (length ch)"
  shows "decodes_to (append_u8 [] (opcode_u8 k) @ append_string [] ch)
    (blank_message\<lparr>msg_kind := k, msg_channel := ch\<rparr>)"
  using assms
  by (intro decode_message_body)
     (auto simp: named_opcode_def decode_fields_def intro!: string_step [where rest = "[]"])

lemma decode_bare_body:
  assumes "k \<in> {Bye, Ack}"
  shows "decodes_to (append_u8 [] (opcode_u8 k)) (blank_message\<lparr>msg_kind := k\<rparr>)"
  using assms decode_message_body [of k "[]"]
  by (auto simp: named_opcode_def decode_fields_def)

text \<open>The bodies the encoders frame.\<close>

lemma encode_bodies:
  "drop 4 (encode_hello pid c) =
     append_u8 [] (opcode_u8 Hello) @ append_u64 [] pid @ append_u8 [] (client_u8 c)"
  "drop 4 encode_bye = append_u8 [] (opcode_u8 Bye)"
  "drop 4 (encode_attach ch m) =
     append_u8 [] (opcode_u8 Attach) @ append_string [] ch @ append_u8 [] (mode_u8 m)"
  "drop 4 (encode_detach ch m) =
     append_u8 [] (opcode_u8 Detach) @ append_string [] ch @ append_u8 [] (mode_u8 m)"
  "drop 4 (encode_publish ch p) =
     append_u8 [] (opcode_u8 Publish) @ append_string [] ch @ append_bytes [] p"
  "drop 4 (encode_deliver ch m p) =
     append_u8 [] (opcode_u8 Deliver) @ append_string [] ch @ append_u8 [] (mode_u8 m) @ append_bytes [] p"
  "drop 4 encode_ack = append_u8 [] (opcode_u8 Ack)"
  "drop 4 (encode_error t) = append_u8 [] (opcode_u8 Error) @ append_string [] t"
  "drop 4 (encode_channel_op k ch) = append_u8 [] (opcode_u8 k) @ append_string [] ch"
  by (simp_all add: encode_hello_def encode_bye_def encode_attach_def encode_detach_def
      encode_publish_def encode_deliver_def encode_ack_def encode_error_def encode_channel_op_def
      drop_frame append_u8_eq append_u64_eq append_string_eq append_bytes_eq)

lemma message_eqI:
  fixes m m' :: message
  assumes "msg_kind m = msg_kind m'" "msg_pid m = msg_pid m'" "msg_client m = msg_client m'"
    "msg_channel m = msg_channel m'" "msg_mode m = msg_mode m'" "msg_payload m = msg_payload m'"
    "msg_text m = msg_text m'"
  shows "m = m'"
  using assms by simp

text \<open>Whatever its opcode, the fields of a sendable message are within the encoders' reach.\<close>

lemma sendable_fields:
  assumes "sendable m"
  shows "named_opcode (msg_kind m)" "named_client (msg_client m)" "named_mode (msg_mode m)"
    "\<not> exceeds_u32 (length (msg_channel m))" "\<not> exceeds_u32 (length (msg_payload m))"
    "\<not> exceeds_u32 (length (msg_text m))"
proof -
  show "named_opcode (msg_kind m)"
    using assms by (simp add: sendable_def Let_def)
  have "named_client (msg_client m) \<or> msg_client m = Unknown"
    using assms unfolding sendable_def Let_def by blast
  then show "named_client (msg_client m)" by (auto simp: named_client_def)
  have "named_mode (msg_mode m) \<or> msg_mode m = Writer"
    using assms unfolding sendable_def Let_def by blast
  then show "named_mode (msg_mode m)" by (auto simp: named_mode_def)
  have "\<not> exceeds_u32 (length (msg_channel m)) \<or> msg_channel m = []"
    using assms unfolding sendable_def Let_def by blast
  then show "\<not> exceeds_u32 (length (msg_channel m))" by (auto simp: exceeds_u32_def)
  have "\<not> exceeds_u32 (length (msg_payload m)) \<or> msg_payload m = []"
    using assms unfolding sendable_def Let_def by blast
  then show "\<not> exceeds_u32 (length (msg_payload m))" by (auto simp: exceeds_u32_def)
  have "\<not> exceeds_u32 (length (msg_text m)) \<or> msg_text m = []"
    using assms unfolding sendable_def Let_def by blast
  then show "\<not> exceeds_u32 (length (msg_text m))" by (auto simp: exceeds_u32_def)
qed

lemma sendable_unused:
  assumes "sendable m"
  shows "msg_kind m \<noteq> Hello \<Longrightarrow> msg_pid m = 0" "msg_kind m \<noteq> Hello \<Longrightarrow> msg_client m = Unknown"
    "\<not> carries_channel (msg_kind m) \<Longrightarrow> msg_channel m = []"
    "msg_kind m \<notin> {Attach, Detach, Deliver} \<Longrightarrow> msg_mode m = Writer"
    "msg_kind m \<notin> {Publish, Deliver} \<Longrightarrow> msg_payload m = []"
    "msg_kind m \<noteq> Error \<Longrightarrow> msg_text m = []"
  using assms unfolding sendable_def Let_def by blast+

lemma decodes_to_unique: "decodes_to body m \<Longrightarrow> decodes_to body m' \<longleftrightarrow> m' = m"
  by (auto simp: decodes_to_def)

lemmas decode_bodies = decode_hello_body decode_mode_body decode_publish_body decode_deliver_body
  decode_error_body decode_channel_op_body decode_bare_body

lemmas decode_bodies_iff = decode_bodies [THEN decodes_to_unique]

lemma encode_message_decodes:
  assumes "sendable m"
  shows "decodes_to (drop 4 (encode_message m)) m"
proof -
  note [simp del] = opcode_u8.simps
  note ok = sendable_fields [OF assms]
  show ?thesis
  proof (cases "msg_kind m")
    case (OtherOpcode b)
    with ok(1) show ?thesis by (simp add: named_opcode_def)
  qed (use ok sendable_unused [OF assms] in \<open>simp_all add: encode_message_def encode_bodies
      decode_bodies_iff blank_message_def message_eqI carries_channel_def\<close>)
qed


definition sample_publish :: message where
  "sample_publish = blank_message\<lparr>msg_kind := Publish, msg_channel := ''ticks'', msg_payload := [1, 2, 3]\<rparr>"

lemma sample_publish_sendable: "sendable sample_publish"
  by (simp add: sendable_def sample_publish_def blank_message_def named_opcode_def
      carries_channel_def exceeds_u32_def)


section \<open>Whole buffers over a descriptor\<close>

text \<open>
  \<open>io::write_all\<close> and \<open>io::read_all\<close> loop over \<open>write\<close> and \<open>read\<close> until the buffer is done. What
  the system answers, call by call, is a list of outcomes; the loops return \<open>None\<close> when the list
  ends before they do (the call still blocks). Beside the C result the model returns the bytes the
  system took, or delivered.
\<close>

datatype sys_write = Wrote nat | WriteInterrupted | WriteFailed

fun write_all :: "sys_write list \<Rightarrow> byte list \<Rightarrow> nat \<Rightarrow> byte list \<Rightarrow> (bool \<times> byte list) option" where
  "write_all os data written taken =
     (if written < length data then
        (case os of
           [] \<Rightarrow> None
         | Wrote chunk # os' \<Rightarrow>
             if chunk = 0 then Some (False, taken)
             else write_all os' data (written + chunk) (taken @ take chunk (drop written data))
         | WriteInterrupted # os' \<Rightarrow> write_all os' data written taken
         | WriteFailed # _ \<Rightarrow> Some (False, taken))
      else Some (True, taken))"

datatype sys_read = Got "byte list" | ReadInterrupted | ReadFailed

fun read_all :: "sys_read list \<Rightarrow> nat \<Rightarrow> byte list \<Rightarrow> (bool \<times> byte list) option" where
  "read_all os len received =
     (if length received < len then
        (case os of
           [] \<Rightarrow> None
         | Got chunk # os' \<Rightarrow>
             if chunk = [] then Some (False, received) else read_all os' len (received @ chunk)
         | ReadInterrupted # os' \<Rightarrow> read_all os' len received
         | ReadFailed # _ \<Rightarrow> Some (False, received))
      else Some (True, received))"

declare write_all.simps [simp del] read_all.simps [simp del]

text \<open>The bytes the system delivers before its first failure or end of file.\<close>

fun incoming :: "sys_read list \<Rightarrow> byte list" where
  "incoming [] = []"
| "incoming (Got chunk # os) = (if chunk = [] then [] else chunk @ incoming os)"
| "incoming (ReadInterrupted # os) = incoming os"
| "incoming (ReadFailed # os) = []"

lemma write_all_from:
  "write_all os data written (take written data) = Some (ok, taken) \<Longrightarrow>
   \<exists>k. taken = take k data \<and> (ok \<longleftrightarrow> taken = data)"
proof (induction os arbitrary: written)
  case Nil
  then show ?case
    by (subst (asm) write_all.simps) (auto split: if_splits intro!: exI [of _ written])
next
  case (Cons o1 os)
  show ?case
  proof (cases "written < length data")
    case False
    with Cons.prems show ?thesis
      by (subst (asm) write_all.simps) (auto intro!: exI [of _ written])
  next
    case True
    then have short: "take written data \<noteq> data"
      by (metis length_take min.absorb4 nat_neq_iff)
    show ?thesis
    proof (cases o1)
      case (Wrote chunk)
      with Cons.prems Cons.IH [of "written + chunk"] True short show ?thesis
        by (subst (asm) write_all.simps) (auto simp: take_add split: if_splits)
    next
      case WriteInterrupted
      with Cons.prems Cons.IH [of written] True show ?thesis
        by (subst (asm) write_all.simps) auto
    next
      case WriteFailed
      with Cons.prems True short show ?thesis
        by (subst (asm) write_all.simps) auto
    qed
  qed
qed

lemma read_all_from:
  "read_all os len received = Some (ok, got) \<Longrightarrow>
   \<exists>rest. received @ incoming os = got @ rest \<and> (ok \<longleftrightarrow> len \<le> length got)"
proof (induction os arbitrary: received)
  case Nil
  then show ?case
    by (subst (asm) read_all.simps) (auto split: if_splits)
next
  case (Cons o1 os)
  show ?case
  proof (cases "length received < len")
    case False
    with Cons.prems show ?thesis
      by (subst (asm) read_all.simps) auto
  next
    case True
    with Cons.prems Cons.IH show ?thesis
      by (subst (asm) read_all.simps) (cases o1; fastforce split: if_splits)
  qed
qed



end
