(* ===== verification/Hub_Daemon.thy ===== *)
theory Hub_Daemon
  imports Hub_Protocol
begin

text \<open>
  The broker of the pipe hub, \<open>daemon_state\<close> of \<open>include/pipe_hub_daemon.hpp\<close>: the clients with
  their input buffers, the channels with readers, writers, peers and backlog, and one definition per
  member function, composed as the code composes them.

  Whether a write to a connection succeeds is the operating system's choice: \<open>net k\<close> is the outcome
  of the \<open>k\<close>-th write of the daemon's life. The frames that went out, each with its addressee, are
  the ghost field \<open>sent_frames\<close>.

  The code holds references into its containers across calls that may change them. Where it goes on
  to use a reference or an iterator that the call has invalidated, or asks \<open>clients.at\<close> for a
  client that is gone (an abort without exceptions), C++ defines nothing: the model's result is
  \<open>None\<close>.
\<close>

type_synonym client_id = u64
type_synonym network = "nat \<Rightarrow> bool"

section \<open>State\<close>

record client_state =
  client_pid :: u64
  client_type :: client_kind
  client_input :: "byte list"
  frame_size :: nat
  have_header :: bool
  attachments :: "(string \<times> attachment_mode) list"

definition new_client :: client_state where
  "new_client = \<lparr>client_pid = 0, client_type = Unknown, client_input = [], frame_size = 0,
     have_header = False, attachments = []\<rparr>"

record channel_state =
  queue_readers :: "client_id list"
  broadcast_readers :: "client_id list"
  writers :: "client_id list"
  channel_peers :: "client_id list"
  pending :: "byte list list"
  queue_cursor :: u64
  offer_from :: client_id
  have_offer :: bool
  recv_ready :: client_id
  have_recv_ready :: bool
  awaiting_data_ack :: client_id
  have_awaiting_data_ack :: bool

definition max_pending :: nat where
  "max_pending = 4096"

definition new_channel :: channel_state where
  "new_channel = \<lparr>queue_readers = [], broadcast_readers = [], writers = [], channel_peers = [],
     pending = [], queue_cursor = 0, offer_from = 0, have_offer = False, recv_ready = 0,
     have_recv_ready = False, awaiting_data_ack = 0, have_awaiting_data_ack = False\<rparr>"

record daemon_state =
  clients :: "client_id \<rightharpoonup> client_state"
  channels :: "string \<rightharpoonup> channel_state"
  next_client_id :: client_id
  served_clients :: bool
  running :: bool
  write_count :: nat
  sent_frames :: "(client_id \<times> byte list) list"

definition new_daemon :: daemon_state where
  "new_daemon = \<lparr>clients = Map.empty, channels = Map.empty, next_client_id = 1,
     served_clients = False, running = True, write_count = 0, sent_frames = []\<rparr>"

section \<open>Channels and connections\<close>

definition remove_client_from_channel :: "client_id \<Rightarrow> channel_state \<Rightarrow> channel_state" where
  "remove_client_from_channel cid channel =
     (let c1 = channel\<lparr>queue_readers := removeAll cid (queue_readers channel),
                 broadcast_readers := removeAll cid (broadcast_readers channel),
                 writers := removeAll cid (writers channel),
                 channel_peers := removeAll cid (channel_peers channel)\<rparr>;
          c2 = (if have_offer c1 \<and> offer_from c1 = cid
                then c1\<lparr>have_offer := False, offer_from := 0\<rparr> else c1);
          c3 = (if have_recv_ready c2 \<and> recv_ready c2 = cid
                then c2\<lparr>have_recv_ready := False, recv_ready := 0\<rparr> else c2)
      in if have_awaiting_data_ack c3 \<and> awaiting_data_ack c3 = cid
         then c3\<lparr>have_awaiting_data_ack := False, awaiting_data_ack := 0\<rparr> else c3)"

definition channel_has_reader :: "channel_state \<Rightarrow> bool" where
  "channel_has_reader channel \<longleftrightarrow> queue_readers channel \<noteq> [] \<or> broadcast_readers channel \<noteq> []"

text \<open>\<open>channels[channel]\<close> inserts a default channel when there is none.\<close>

definition channel_ref :: "string \<Rightarrow> daemon_state \<Rightarrow> channel_state \<times> daemon_state" where
  "channel_ref channel s =
     (case channels s channel of
        Some st \<Rightarrow> (st, s)
      | None \<Rightarrow> (new_channel, s\<lparr>channels := (channels s)(channel \<mapsto> new_channel)\<rparr>))"

definition update_channel ::
    "string \<Rightarrow> (channel_state \<Rightarrow> channel_state) \<Rightarrow> daemon_state \<Rightarrow> daemon_state" where
  "update_channel channel f s =
     s\<lparr>channels := (channels s)(channel := map_option f (channels s channel))\<rparr>"

definition update_client ::
    "client_id \<Rightarrow> (client_state \<Rightarrow> client_state) \<Rightarrow> daemon_state \<Rightarrow> daemon_state" where
  "update_client cid f s = s\<lparr>clients := (clients s)(cid := map_option f (clients s cid))\<rparr>"

definition deliver_to_client ::
    "network \<Rightarrow> client_id \<Rightarrow> byte list \<Rightarrow> daemon_state \<Rightarrow> bool \<times> daemon_state" where
  "deliver_to_client net cid frame s =
     (if net (write_count s)
      then (True, s\<lparr>write_count := Suc (write_count s), sent_frames := sent_frames s @ [(cid, frame)]\<rparr>)
      else (False, s\<lparr>write_count := Suc (write_count s)\<rparr>))"

definition deliver_payload :: "network \<Rightarrow> client_id \<Rightarrow> string \<Rightarrow> attachment_mode \<Rightarrow> byte list \<Rightarrow>
    daemon_state \<Rightarrow> bool \<times> daemon_state" where
  "deliver_payload net cid channel mode payload s =
     deliver_to_client net cid (encode_deliver channel mode payload) s"

definition assign_id_posix :: "32 word \<Rightarrow> client_id" where
  "assign_id_posix native_fd = scast native_fd"

definition assign_id_windows :: "daemon_state \<Rightarrow> client_id \<times> daemon_state" where
  "assign_id_windows s = (next_client_id s, s\<lparr>next_client_id := next_client_id s + 1\<rparr>)"

definition maybe_erase_channel :: "string \<Rightarrow> daemon_state \<Rightarrow> daemon_state" where
  "maybe_erase_channel channel s =
     (case channels s channel of
        None \<Rightarrow> s
      | Some state \<Rightarrow>
          if \<not> channel_has_reader state \<and> pending state = [] \<and> writers state = [] \<and>
             channel_peers state = []
          then s\<lparr>channels := (channels s)(channel := None)\<rparr> else s)"

definition leave_channel :: "client_id \<Rightarrow> string \<Rightarrow> daemon_state \<Rightarrow> daemon_state" where
  "leave_channel cid channel s =
     (case channels s channel of
        None \<Rightarrow> s
      | Some state \<Rightarrow>
          maybe_erase_channel channel (update_channel channel (remove_client_from_channel cid) s))"

definition close_client :: "client_id \<Rightarrow> daemon_state \<Rightarrow> daemon_state" where
  "close_client cid s =
     (case clients s cid of
        None \<Rightarrow> s
      | Some found \<Rightarrow>
          (let s1 = foldl (\<lambda>s (channel, mode). leave_channel cid channel s) s (attachments found)
           in s1\<lparr>clients := (clients s1)(cid := None)\<rparr>))"

definition send_frame :: "network \<Rightarrow> client_id \<Rightarrow> byte list \<Rightarrow> daemon_state \<Rightarrow> bool \<times> daemon_state" where
  "send_frame net cid frame s =
     (case clients s cid of
        None \<Rightarrow> (False, s)
      | Some _ \<Rightarrow>
          (case deliver_to_client net cid frame s of
             (True, s1) \<Rightarrow> (True, s1)
           | (False, s1) \<Rightarrow> (False, close_client cid s1)))"

definition send_ack :: "network \<Rightarrow> client_id \<Rightarrow> daemon_state \<Rightarrow> bool \<times> daemon_state" where
  "send_ack net cid s = send_frame net cid encode_ack s"

definition send_error :: "network \<Rightarrow> client_id \<Rightarrow> string \<Rightarrow> daemon_state \<Rightarrow> bool \<times> daemon_state" where
  "send_error net cid message s = send_frame net cid (encode_error message) s"

section \<open>Delivering to readers\<close>

text \<open>
  The range \<open>for\<close> over \<open>state.broadcast_readers\<close> closes a reader whose write fails, and closing
  erases the reader from the very vector the loop runs over: unless the vector is unchanged, the
  loop's iterators are invalid and the run has no defined continuation.
\<close>

fun deliver_broadcast :: "network \<Rightarrow> string \<Rightarrow> byte list \<Rightarrow> client_id list \<Rightarrow> client_id list \<Rightarrow>
    daemon_state \<Rightarrow> daemon_state option" where
  "deliver_broadcast net channel payload every [] s = Some s"
| "deliver_broadcast net channel payload every (reader_id # rest) s =
     (case clients s reader_id of
        None \<Rightarrow> deliver_broadcast net channel payload every rest s
      | Some _ \<Rightarrow>
          (case deliver_payload net reader_id channel BroadcastIn payload s of
             (True, s1) \<Rightarrow> deliver_broadcast net channel payload every rest s1
           | (False, s1) \<Rightarrow>
               (let s2 = close_client reader_id s1 in
                if map_option broadcast_readers (channels s2 channel) = Some every
                then deliver_broadcast net channel payload every rest s2 else None)))"

definition deliver_queue :: "network \<Rightarrow> string \<Rightarrow> byte list \<Rightarrow> channel_state \<Rightarrow> daemon_state \<Rightarrow> daemon_state" where
  "deliver_queue net channel payload state s =
     (if queue_readers state \<noteq> [] then
        (let index = unat (queue_cursor state) mod length (queue_readers state);
             s1 = update_channel channel (\<lambda>st. st\<lparr>queue_cursor := queue_cursor st + 1\<rparr>) s;
             reader_id = queue_readers state ! index
         in case clients s1 reader_id of
              None \<Rightarrow> s1
            | Some _ \<Rightarrow>
                (case deliver_payload net reader_id channel QueueIn payload s1 of
                   (True, s2) \<Rightarrow> s2
                 | (False, s2) \<Rightarrow> close_client reader_id s2))
      else s)"

definition deliver_to_readers ::
    "network \<Rightarrow> string \<Rightarrow> byte list \<Rightarrow> daemon_state \<Rightarrow> daemon_state option" where
  "deliver_to_readers net channel payload s =
     (case channel_ref channel s of (st, s0) \<Rightarrow>
        (case deliver_broadcast net channel payload (broadcast_readers st) (broadcast_readers st) s0 of
           None \<Rightarrow> None
         | Some s1 \<Rightarrow>
             (case channels s1 channel of
                None \<Rightarrow> None
              | Some state \<Rightarrow> Some (deliver_queue net channel payload state s1))))"

text \<open>The backlog of a channel, empty when there is no such channel.\<close>

definition backlog :: "string \<Rightarrow> daemon_state \<Rightarrow> byte list list" where
  "backlog channel s = (case channels s channel of None \<Rightarrow> [] | Some st \<Rightarrow> pending st)"

lemma remove_client_pending [simp]: "pending (remove_client_from_channel cid st) = pending st"
  by (simp add: remove_client_from_channel_def Let_def)

lemma backlog_leave [simp]: "backlog ch (leave_channel cid ch' s) = backlog ch s"
  by (auto simp: leave_channel_def maybe_erase_channel_def update_channel_def backlog_def
      split: option.splits)

lemma backlog_leave_all [simp]:
  "backlog ch (foldl (\<lambda>s (channel, mode). leave_channel cid channel s) s as) = backlog ch s"
  by (induction as arbitrary: s) auto

lemma backlog_clients [simp]: "backlog ch (s\<lparr>clients := c\<rparr>) = backlog ch s"
  by (simp add: backlog_def)

lemma backlog_close [simp]: "backlog ch (close_client cid s) = backlog ch s"
  by (simp add: close_client_def Let_def split: option.split)

lemma backlog_deliver [simp]: "backlog ch (snd (deliver_to_client net cid f s)) = backlog ch s"
  by (simp add: deliver_to_client_def backlog_def)

lemma backlog_deliver' [simp]:
  "deliver_to_client net cid f s = (ok, s') \<Longrightarrow> backlog ch s' = backlog ch s"
  "deliver_payload net cid channel m p s = (ok, s') \<Longrightarrow> backlog ch s' = backlog ch s"
  using backlog_deliver [of ch net cid] by (metis snd_conv) (metis backlog_deliver deliver_payload_def snd_conv)

lemma backlog_broadcast:
  "deliver_broadcast net channel p every rs s = Some s' \<Longrightarrow> backlog ch s' = backlog ch s"
  by (induction net channel p every rs s rule: deliver_broadcast.induct)
     (auto split: option.splits prod.splits bool.splits if_splits simp: Let_def)

lemma backlog_queue: "backlog ch (deliver_queue net channel p st s) = backlog ch s"
proof -
  have "backlog ch (update_channel channel (\<lambda>st. st\<lparr>queue_cursor := queue_cursor st + 1\<rparr>) s) = backlog ch s"
    by (simp add: backlog_def update_channel_def split: option.split)
  then show ?thesis
    by (auto simp: deliver_queue_def Let_def split: option.splits prod.splits bool.splits)
qed

lemma backlog_deliver_to_readers:
  "deliver_to_readers net channel p s = Some s' \<Longrightarrow> backlog ch s' = backlog ch s"
  by (auto simp: deliver_to_readers_def channel_ref_def backlog_queue new_channel_def
      dest!: backlog_broadcast [where ch = ch] split: option.splits)
     (auto simp: backlog_def split: if_splits)

text \<open>
  Each round of \<open>flush_pending\<close> takes one payload off the backlog, and delivering adds none. Where
  the delivery erased the channel, the loop's test reads a reference to it.
\<close>

function flush_loop :: "network \<Rightarrow> string \<Rightarrow> daemon_state \<Rightarrow> daemon_state option" where
  "flush_loop net channel s =
     (case channels s channel of
        None \<Rightarrow> None
      | Some state \<Rightarrow>
          if pending state \<noteq> [] \<and> channel_has_reader state then
            (case deliver_to_readers net channel (hd (pending state))
                (update_channel channel (\<lambda>st. st\<lparr>pending := tl (pending st)\<rparr>) s) of
               None \<Rightarrow> None
             | Some s' \<Rightarrow> flush_loop net channel s')
          else Some s)"
  by pat_completeness auto
termination
proof (relation "measure (\<lambda>(net, channel, s). length (backlog channel s))", goal_cases)
  case (2 net channel s state s')
  then show ?case
    by (auto dest!: backlog_deliver_to_readers [where ch = channel]
        simp: backlog_def update_channel_def neq_Nil_conv split: option.splits)
qed simp

declare flush_loop.simps [simp del]

definition flush_pending :: "network \<Rightarrow> string \<Rightarrow> daemon_state \<Rightarrow> daemon_state option" where
  "flush_pending net channel s = flush_loop net channel (snd (channel_ref channel s))"

section \<open>Requests\<close>

text \<open>
  \<open>register_attachment\<close> hands the backlog to a joining channel peer, payload by payload.
\<close>

fun drain_to_peer :: "network \<Rightarrow> client_id \<Rightarrow> string \<Rightarrow> byte list list \<Rightarrow> daemon_state \<Rightarrow> bool \<times> daemon_state" where
  "drain_to_peer net cid channel [] s = (True, s)"
| "drain_to_peer net cid channel (payload # rest) s =
     (case deliver_payload net cid channel ChannelPeer payload
         (update_channel channel (\<lambda>st. st\<lparr>pending := rest\<rparr>) s) of
        (True, s1) \<Rightarrow> drain_to_peer net cid channel rest s1
      | (False, s1) \<Rightarrow> (False, close_client cid s1))"

fun join_channel :: "client_id \<Rightarrow> attachment_mode \<Rightarrow> channel_state \<Rightarrow> channel_state" where
  "join_channel cid Writer st = st\<lparr>writers := writers st @ [cid]\<rparr>"
| "join_channel cid BroadcastIn st = st\<lparr>broadcast_readers := broadcast_readers st @ [cid]\<rparr>"
| "join_channel cid QueueIn st = st\<lparr>queue_readers := queue_readers st @ [cid]\<rparr>"
| "join_channel cid ChannelPeer st = st\<lparr>channel_peers := channel_peers st @ [cid]\<rparr>"
| "join_channel cid (OtherMode _) st = st"

definition register_attachment :: "network \<Rightarrow> client_id \<Rightarrow> string \<Rightarrow> attachment_mode \<Rightarrow> daemon_state \<Rightarrow>
    (bool \<times> daemon_state) option" where
  "register_attachment net cid channel mode s =
     (case channel_ref channel s of (state, s0) \<Rightarrow>
        if (mode = QueueIn \<or> mode = BroadcastIn) \<and> writers state = [] then
          (let (_, s1) = send_error net cid
                 (''pipe `'' @ channel @ ''` has no publisher; open pipe(name, out) first'') s0
           in Some (False, maybe_erase_channel channel s1))
        else if mode = ChannelPeer \<and> 2 \<le> length (channel_peers state) then
          (let (_, s1) = send_error net cid (''channel `'' @ channel @ ''` already has two peers'') s0
           in Some (False, maybe_erase_channel channel s1))
        else if clients s0 cid = None then None
        else
          (let s1 = update_client cid (\<lambda>c. c\<lparr>attachments := attachments c @ [(channel, mode)]\<rparr>) s0;
               s2 = update_channel channel (join_channel cid mode) s1
           in case send_ack net cid s2 of
                (False, s3) \<Rightarrow> Some (False, s3)
              | (True, s3) \<Rightarrow>
                  if mode = BroadcastIn \<or> mode = QueueIn then
                    (case flush_pending net channel s3 of None \<Rightarrow> None | Some s4 \<Rightarrow> Some (True, s4))
                  else if mode = ChannelPeer then
                    Some (drain_to_peer net cid channel (backlog channel s3) s3)
                  else Some (True, s3)))"

definition unregister_attachment ::
    "client_id \<Rightarrow> string \<Rightarrow> attachment_mode \<Rightarrow> daemon_state \<Rightarrow> daemon_state option" where
  "unregister_attachment cid channel mode s =
     (case clients s cid of
        None \<Rightarrow> None
      | Some _ \<Rightarrow>
          Some (leave_channel cid channel
            (update_client cid
               (\<lambda>c. c\<lparr>attachments := removeAll (channel, mode) (attachments c)\<rparr>) s)))"

text \<open>The channel data path of \<open>publish_message\<close>: one copy to every other live peer.\<close>

fun deliver_to_peers :: "network \<Rightarrow> client_id \<Rightarrow> string \<Rightarrow> byte list \<Rightarrow> client_id list \<Rightarrow> bool \<Rightarrow>
    daemon_state \<Rightarrow> bool \<times> daemon_state" where
  "deliver_to_peers net writer_id channel payload [] delivered s = (delivered, s)"
| "deliver_to_peers net writer_id channel payload (peer # rest) delivered s =
     (if peer = writer_id \<or> clients s peer = None
      then deliver_to_peers net writer_id channel payload rest delivered s
      else (case deliver_payload net peer channel ChannelPeer payload s of
              (ok, s1) \<Rightarrow> deliver_to_peers net writer_id channel payload rest (delivered \<or> ok) s1))"

text \<open>
  The loop that pushes the backlog to a peer already waiting; it stops at the first failing write,
  with that payload already taken off.
\<close>

fun push_backlog :: "network \<Rightarrow> client_id \<Rightarrow> string \<Rightarrow> byte list list \<Rightarrow> daemon_state \<Rightarrow> daemon_state" where
  "push_backlog net cid channel [] s = s"
| "push_backlog net cid channel (item # rest) s =
     (case deliver_payload net cid channel ChannelPeer item
         (update_channel channel (\<lambda>st. st\<lparr>pending := rest\<rparr>) s) of
        (True, s1) \<Rightarrow> push_backlog net cid channel rest s1
      | (False, s1) \<Rightarrow> s1)"

definition publish_to_peers ::
    "network \<Rightarrow> client_id \<Rightarrow> string \<Rightarrow> byte list \<Rightarrow> channel_state \<Rightarrow> daemon_state \<Rightarrow> bool \<times> daemon_state" where
  "publish_to_peers net writer_id channel payload state s =
     (case deliver_to_peers net writer_id channel payload (channel_peers state) False s of
        (True, s1) \<Rightarrow> send_ack net writer_id s1
      | (False, s1) \<Rightarrow>
          if max_pending \<le> length (pending state) then
            send_error net writer_id (''channel `'' @ channel @ ''` pending queue is full'') s1
          else
            (let s2 = update_channel channel (\<lambda>st. st\<lparr>pending := pending st @ [payload]\<rparr>) s1;
                 s3 = (if have_recv_ready state \<and> recv_ready state \<noteq> writer_id \<and>
                          clients s2 (recv_ready state) \<noteq> None
                       then push_backlog net (recv_ready state) channel (backlog channel s2) s2
                       else s2)
             in send_ack net writer_id s3))"

definition publish_message :: "network \<Rightarrow> client_id \<Rightarrow> string \<Rightarrow> byte list \<Rightarrow> daemon_state \<Rightarrow>
    (bool \<times> daemon_state) option" where
  "publish_message net writer_id channel payload s =
     (case channel_ref channel s of (state, s0) \<Rightarrow>
        if writer_id \<in> set (channel_peers state) then
          Some (publish_to_peers net writer_id channel payload state s0)
        else if \<not> channel_has_reader state then
          (if max_pending \<le> length (pending state) then
             Some (send_error net writer_id (''pipe `'' @ channel @ ''` pending queue is full'') s0)
           else
             Some (send_ack net writer_id
               (update_channel channel (\<lambda>st. st\<lparr>pending := pending st @ [payload]\<rparr>) s0)))
        else
          (case deliver_to_readers net channel payload s0 of
             None \<Rightarrow> None
           | Some s1 \<Rightarrow> Some (send_ack net writer_id s1)))"

definition other_channel_peer :: "channel_state \<Rightarrow> client_id \<Rightarrow> client_id" where
  "other_channel_peer state cid =
     (case find (\<lambda>candidate. candidate \<noteq> cid) (channel_peers state) of
        Some candidate \<Rightarrow> candidate | None \<Rightarrow> 0)"

definition not_attached :: "string \<Rightarrow> string" where
  "not_attached channel = ''not attached to channel `'' @ channel @ ''`''"

definition handle_channel_offer :: "network \<Rightarrow> client_id \<Rightarrow> string \<Rightarrow> daemon_state \<Rightarrow>
    (bool \<times> daemon_state) option" where
  "handle_channel_offer net cid channel s =
     (case channel_ref channel s of (state, s0) \<Rightarrow>
        if cid \<notin> set (channel_peers state) then Some (send_error net cid (not_attached channel) s0)
        else if have_offer state \<and> offer_from state \<noteq> cid then
          (let other = offer_from state;
               s1 = update_channel channel (\<lambda>st. st\<lparr>have_offer := False, offer_from := 0\<rparr>) s0
           in if clients s1 cid = None then None
              else
                (let (_, s2) = deliver_to_client net cid (encode_channel_op ChannelBusy channel) s1;
                     s3 = (if clients s2 other \<noteq> None
                           then snd (deliver_to_client net other (encode_channel_op ChannelBusy channel) s2)
                           else s2)
                 in Some (True, s3)))
        else if other_channel_peer state cid \<noteq> 0 \<or> have_recv_ready state \<and> recv_ready state \<noteq> cid then
          (let s1 = update_channel channel
                 (\<lambda>st. st\<lparr>have_recv_ready := False, recv_ready := 0, have_offer := False, offer_from := 0\<rparr>) s0
           in if clients s1 cid = None then None
              else Some (deliver_to_client net cid (encode_channel_op ChannelAccept channel) s1))
        else
          Some (True, update_channel channel (\<lambda>st. st\<lparr>have_offer := True, offer_from := cid\<rparr>) s0))"

definition handle_channel_recv_ready :: "network \<Rightarrow> client_id \<Rightarrow> string \<Rightarrow> daemon_state \<Rightarrow>
    (bool \<times> daemon_state) option" where
  "handle_channel_recv_ready net cid channel s =
     (case channel_ref channel s of (state, s0) \<Rightarrow>
        if cid \<notin> set (channel_peers state) then Some (send_error net cid (not_attached channel) s0)
        else
          (let offered = have_offer state \<and> offer_from state \<noteq> cid;
               s1 = (if offered
                     then update_channel channel (\<lambda>st. st\<lparr>have_offer := False, offer_from := 0\<rparr>) s0
                     else s0)
           in if offered \<and> clients s1 (offer_from state) = None then None
              else
                (let s2 = (if offered
                           then snd (deliver_to_client net (offer_from state)
                                  (encode_channel_op ChannelAccept channel) s1)
                           else s1)
                 in case (if clients s2 cid \<noteq> None
                          then drain_to_peer net cid channel (backlog channel s2) s2
                          else (True, s2)) of
                      (False, s3) \<Rightarrow> Some (False, s3)
                    | (True, s3) \<Rightarrow>
                        Some (True, update_channel channel
                          (\<lambda>st. st\<lparr>have_recv_ready := True, recv_ready := cid\<rparr>) s3))))"

definition handle_channel_data_ack :: "client_id \<Rightarrow> string \<Rightarrow> daemon_state \<Rightarrow> bool \<times> daemon_state" where
  "handle_channel_data_ack cid channel s =
     (case channel_ref channel s of (_, s0) \<Rightarrow>
        (True, update_channel channel
           (\<lambda>st. st\<lparr>have_awaiting_data_ack := False, awaiting_data_ack := 0\<rparr>) s0))"

definition handle_message :: "network \<Rightarrow> client_id \<Rightarrow> message \<Rightarrow> daemon_state \<Rightarrow>
    (bool \<times> daemon_state) option" where
  "handle_message net cid decoded s =
     (case msg_kind decoded of
        Hello \<Rightarrow>
          if clients s cid = None then None
          else Some (True, update_client cid
                 (\<lambda>c. c\<lparr>client_pid := msg_pid decoded, client_type := msg_client decoded\<rparr>) s)
      | Bye \<Rightarrow> Some (False, close_client cid s)
      | Attach \<Rightarrow>
          (case register_attachment net cid (msg_channel decoded) (msg_mode decoded) s of
             None \<Rightarrow> None | Some (_, s1) \<Rightarrow> Some (True, s1))
      | Detach \<Rightarrow>
          (case unregister_attachment cid (msg_channel decoded) (msg_mode decoded) s of
             None \<Rightarrow> None | Some s1 \<Rightarrow> Some (True, s1))
      | Publish \<Rightarrow> publish_message net cid (msg_channel decoded) (msg_payload decoded) s
      | ChannelOffer \<Rightarrow> handle_channel_offer net cid (msg_channel decoded) s
      | ChannelRecvReady \<Rightarrow> handle_channel_recv_ready net cid (msg_channel decoded) s
      | ChannelDataAck \<Rightarrow> Some (handle_channel_data_ack cid (msg_channel decoded) s)
      | _ \<Rightarrow> Some (True, s))"

end
