(* ===== verification/Hub_Steps.thy ===== *)
theory Hub_Steps
  imports Hub_Daemon
begin

text \<open>
  The contract the members of \<open>daemon_state\<close> share, as a locale: a relation between the state
  before and after that is reflexive, transitive and kept by the few primitive changes the handlers
  are made of is kept by every handler. The first interpretation says that no handler touches the
  input buffer of a client, which is what makes the loop of \<open>process_client_input\<close> terminate; the
  loop, \<open>ingest_bytes\<close> and the connection events are defined here.
\<close>

section \<open>Changes that leave the membership of a channel alone\<close>

definition handshake_change :: "channel_state \<Rightarrow> channel_state \<Rightarrow> bool" where
  "handshake_change st st' \<longleftrightarrow>
     queue_readers st' = queue_readers st \<and> broadcast_readers st' = broadcast_readers st \<and>
     writers st' = writers st \<and> channel_peers st' = channel_peers st \<and> pending st' = pending st \<and>
     (have_offer st' \<longrightarrow> have_offer st \<and> offer_from st' = offer_from st \<or>
        offer_from st' \<in> set (channel_peers st)) \<and>
     (have_recv_ready st' \<longrightarrow> have_recv_ready st \<and> recv_ready st' = recv_ready st \<or>
        recv_ready st' \<in> set (channel_peers st)) \<and>
     (have_awaiting_data_ack st' \<longrightarrow> have_awaiting_data_ack st)"

text \<open>What \<open>register_attachment\<close> has checked by the time it records an attachment.\<close>

definition may_join :: "attachment_mode \<Rightarrow> channel_state \<Rightarrow> bool" where
  "may_join mode st \<longleftrightarrow>
     ((mode = QueueIn \<or> mode = BroadcastIn) \<longrightarrow> writers st \<noteq> []) \<and>
     (mode = ChannelPeer \<longrightarrow> length (channel_peers st) < 2)"

definition attach_client :: "client_id \<Rightarrow> string \<Rightarrow> attachment_mode \<Rightarrow> daemon_state \<Rightarrow> daemon_state" where
  "attach_client cid channel mode s =
     update_channel channel (join_channel cid mode)
       (update_client cid (\<lambda>c. c\<lparr>attachments := attachments c @ [(channel, mode)]\<rparr>) s)"

definition detach_client :: "client_id \<Rightarrow> string \<Rightarrow> attachment_mode \<Rightarrow> daemon_state \<Rightarrow> daemon_state" where
  "detach_client cid channel mode s =
     leave_channel cid channel
       (update_client cid (\<lambda>c. c\<lparr>attachments := removeAll (channel, mode) (attachments c)\<rparr>) s)"

abbreviation set_pending :: "string \<Rightarrow> byte list list \<Rightarrow> daemon_state \<Rightarrow> daemon_state" where
  "set_pending channel ps s \<equiv> update_channel channel (\<lambda>st. st\<lparr>pending := ps\<rparr>) s"

lemma update_channel_Some [simp]:
  "channels s channel = Some st \<Longrightarrow>
   update_channel channel f s = s\<lparr>channels := (channels s)(channel \<mapsto> f st)\<rparr>"
  by (simp add: update_channel_def)

lemma channel_ref_channels:
  "channel_ref channel s = (st, s0) \<Longrightarrow> channels s0 channel = Some st \<and> clients s0 = clients s"
  by (auto simp: channel_ref_def split: option.splits)

lemma write_frame [simp]:
  "channels (snd (deliver_to_client net cid f s)) = channels s"
  "clients (snd (deliver_to_client net cid f s)) = clients s"
  by (simp_all add: deliver_to_client_def)

lemma channels_write [simp]:
  "deliver_to_client net cid f s = (ok, s') \<Longrightarrow> channels s' = channels s"
  "deliver_payload net cid channel m p s = (ok, s') \<Longrightarrow> channels s' = channels s"
  by (auto simp: deliver_to_client_def deliver_payload_def split: if_splits)

lemma clients_write [simp]:
  "deliver_to_client net cid f s = (ok, s') \<Longrightarrow> clients s' = clients s"
  "deliver_payload net cid channel m p s = (ok, s') \<Longrightarrow> clients s' = clients s"
  by (auto simp: deliver_to_client_def deliver_payload_def split: if_splits)

lemma channels_update_client [simp]: "channels (update_client cid f s) = channels s"
  by (simp add: update_client_def)

lemma clients_update_channel [simp]: "clients (update_channel channel f s) = clients s"
  by (simp add: update_channel_def)

lemma drain_to_peer_ok:
  "drain_to_peer net cid channel ps s = (True, s') \<Longrightarrow> channels s channel = Some st \<Longrightarrow> pending st = ps \<Longrightarrow>
   channels s' = (channels s)(channel \<mapsto> st\<lparr>pending := []\<rparr>) \<and> clients s' = clients s"
proof (induction net cid channel ps s arbitrary: st rule: drain_to_peer.induct)
  case (1 net cid channel s)
  then show ?case by (auto simp: fun_upd_idem)
next
  case (2 net cid channel payload rest s)
  then show ?case by (auto split: prod.splits bool.splits)
qed

lemma deliver_to_peers_channels:
  "deliver_to_peers net wid channel p ps d s = (ok, s') \<Longrightarrow> channels s' = channels s \<and> clients s' = clients s"
  by (induction net wid channel p ps d s rule: deliver_to_peers.induct)
     (auto split: if_splits prod.splits)

section \<open>The contract\<close>

locale daemon_steps =
  fixes R :: "daemon_state \<Rightarrow> daemon_state \<Rightarrow> bool"
  assumes R_refl: "R s s"
    and R_trans: "R s s' \<Longrightarrow> R s' s'' \<Longrightarrow> R s s''"
    and R_write: "R s (snd (deliver_to_client net cid frame s))"
    and R_close: "R s (close_client cid s)"
    and R_ref: "R s (snd (channel_ref channel s))"
    and R_erase: "R s (maybe_erase_channel channel s)"
    and R_attach: "clients s cid \<noteq> None \<Longrightarrow> channels s channel = Some st \<Longrightarrow> may_join mode st \<Longrightarrow>
      R s (attach_client cid channel mode s)"
    and R_detach: "clients s cid \<noteq> None \<Longrightarrow> R s (detach_client cid channel mode s)"
    and R_pop: "channels s channel = Some st \<Longrightarrow> pending st = p # ps \<Longrightarrow> R s (set_pending channel ps s)"
    and R_push: "channels s channel = Some st \<Longrightarrow> length (pending st) < max_pending \<Longrightarrow>
      R s (set_pending channel (pending st @ [p]) s)"
    and R_shake: "channels s channel = Some st \<Longrightarrow> handshake_change st st' \<Longrightarrow>
      R s (s\<lparr>channels := (channels s)(channel \<mapsto> st')\<rparr>)"
    and R_hello: "clients s cid \<noteq> None \<Longrightarrow>
      R s (update_client cid (\<lambda>c. c\<lparr>client_pid := pid, client_type := kind\<rparr>) s)"
begin

lemma R_writeD [intro]:
  "deliver_to_client net cid frame s = (ok, s') \<Longrightarrow> R s s'"
  "deliver_payload net cid channel m p s = (ok, s') \<Longrightarrow> R s s'"
  using R_write unfolding deliver_payload_def by (metis snd_conv)+

lemma R_refD [intro]: "channel_ref channel s = (st, s') \<Longrightarrow> R s s'"
  using R_ref by (metis snd_conv)

lemma R_send_frame: "send_frame net cid frame s = (ok, s') \<Longrightarrow> R s s'"
  by (auto simp: send_frame_def R_refl split: option.splits prod.splits bool.splits
      intro: R_trans [OF _ R_close])

lemma R_send_ack: "send_ack net cid s = (ok, s') \<Longrightarrow> R s s'"
  unfolding send_ack_def by (rule R_send_frame)

lemma R_send_error: "send_error net cid e s = (ok, s') \<Longrightarrow> R s s'"
  unfolding send_error_def by (rule R_send_frame)

lemma R_broadcast:
  "deliver_broadcast net channel p every rs s = Some s' \<Longrightarrow> R s s'"
proof (induction net channel p every rs s rule: deliver_broadcast.induct)
  case (1 net channel payload every s)
  then show ?case by (simp add: R_refl)
next
  case (2 net channel payload every reader_id rest s)
  show ?case
  proof (cases "clients s reader_id")
    case None
    with 2 show ?thesis by simp
  next
    case (Some c)
    obtain ok s1 where w: "deliver_payload net reader_id channel BroadcastIn payload s = (ok, s1)"
      by fastforce
    then have R1: "R s s1" by blast
    show ?thesis
    proof (cases ok)
      case True
      with 2 Some w R1 show ?thesis by (auto intro: R_trans)
    next
      case False
      with 2 Some w have "R (close_client reader_id s1) s'"
        by (simp add: Let_def split: if_splits)
      with R1 R_close show ?thesis by (blast intro: R_trans)
    qed
  qed
qed

lemma R_cursor: "channels s channel = Some st \<Longrightarrow>
    R s (update_channel channel (\<lambda>st. st\<lparr>queue_cursor := queue_cursor st + 1\<rparr>) s)"
  by (simp add: R_shake handshake_change_def)

lemma R_queue:
  assumes "channels s channel = Some st"
  shows "R s (deliver_queue net channel p st' s)"
  using R_cursor [OF assms]
  by (auto simp: deliver_queue_def Let_def R_refl split: option.splits prod.splits bool.splits
      intro: R_trans [OF R_trans [OF _ R_writeD(2)] R_close] R_trans [OF _ R_writeD(2)])

lemma R_readers:
  assumes "deliver_to_readers net channel p s = Some s'"
  shows "R s s'"
proof -
  obtain st s0 where ref: "channel_ref channel s = (st, s0)" by fastforce
  with assms obtain s1 st1 where
    "deliver_broadcast net channel p (broadcast_readers st) (broadcast_readers st) s0 = Some s1"
    and st1: "channels s1 channel = Some st1" and s': "s' = deliver_queue net channel p st1 s1"
    by (auto simp: deliver_to_readers_def split: option.splits)
  then have "R s0 s1" by (blast dest: R_broadcast)
  with ref R_queue [OF st1] s' show ?thesis by (blast intro: R_trans)
qed

lemma R_flush_loop: "flush_loop net channel s = Some s' \<Longrightarrow> R s s'"
proof (induction net channel s rule: flush_loop.induct)
  case (1 net channel s)
  from "1.prems" obtain st where st: "channels s channel = Some st"
    by (auto simp: flush_loop.simps [of net channel s] split: option.splits)
  show ?case
  proof (cases "pending st \<noteq> [] \<and> channel_has_reader st")
    case False
    with "1.prems" st show ?thesis
      by (auto simp: flush_loop.simps [of net channel s] R_refl)
  next
    case True
    let ?s1 = "update_channel channel (\<lambda>st. st\<lparr>pending := tl (pending st)\<rparr>) s"
    from True "1.prems" st obtain s2 where
      s2: "deliver_to_readers net channel (hd (pending st)) ?s1 = Some s2"
      and rec: "flush_loop net channel s2 = Some s'"
      by (auto simp: flush_loop.simps [of net channel s] simp del: update_channel_Some
          split: option.splits)
    have "R s ?s1"
      using R_pop [OF st, of "hd (pending st)" "tl (pending st)"] True st by simp
    moreover have "R ?s1 s2" using s2 by (rule R_readers)
    moreover have "R s2 s'" by (rule "1.IH" [OF st True s2 rec])
    ultimately show ?thesis by (blast intro: R_trans)
  qed
qed

lemma R_flush: "flush_pending net channel s = Some s' \<Longrightarrow> R s s'"
  unfolding flush_pending_def by (blast intro: R_trans [OF R_ref] dest: R_flush_loop)

lemma R_drain:
  "drain_to_peer net cid channel ps s = (ok, s') \<Longrightarrow> channels s channel = Some st \<Longrightarrow> pending st = ps \<Longrightarrow> R s s'"
proof (induction net cid channel ps s arbitrary: st rule: drain_to_peer.induct)
  case (1 net cid channel s)
  then show ?case by (simp add: R_refl)
next
  case (2 net cid channel payload rest s)
  let ?s1 = "set_pending channel rest s"
  obtain ok2 s2 where w: "deliver_payload net cid channel ChannelPeer payload ?s1 = (ok2, s2)"
    by fastforce
  have R1: "R s s2"
    using R_pop [OF "2.prems"(2), of payload rest] "2.prems"(3) w by (blast intro: R_trans)
  show ?case
  proof (cases ok2)
    case True
    have "R s2 s'"
      by (rule "2.IH" [OF w [symmetric], of "st\<lparr>pending := rest\<rparr>"]) (use "2.prems" w True in auto)
    with R1 show ?thesis by (rule R_trans)
  next
    case False
    with "2.prems"(1) w R1 R_close show ?thesis by (auto intro: R_trans)
  qed
qed

lemma R_drain_backlog: "drain_to_peer net cid channel (backlog channel s) s = (ok, s') \<Longrightarrow> R s s'"
  by (cases "channels s channel") (auto simp: backlog_def R_refl intro: R_drain)

lemma R_push_backlog:
  "channels s channel = Some st \<Longrightarrow> pending st = ps \<Longrightarrow> R s (push_backlog net cid channel ps s)"
proof (induction net cid channel ps s arbitrary: st rule: push_backlog.induct)
  case (1 net cid channel s)
  then show ?case by (simp add: R_refl)
next
  case (2 net cid channel item rest s)
  let ?s1 = "set_pending channel rest s"
  obtain ok2 s2 where w: "deliver_payload net cid channel ChannelPeer item ?s1 = (ok2, s2)"
    by fastforce
  have R1: "R s s2"
    using R_pop [OF "2.prems"(1), of item rest] "2.prems"(2) w by (blast intro: R_trans)
  show ?case
  proof (cases ok2)
    case True
    have "R s2 (push_backlog net cid channel rest s2)"
      by (rule "2.IH" [OF w [symmetric], of "st\<lparr>pending := rest\<rparr>"]) (use "2.prems" w True in auto)
    with R1 w True show ?thesis by (auto intro: R_trans)
  next
    case False
    with w R1 show ?thesis by simp
  qed
qed

lemma R_peers: "deliver_to_peers net wid channel p ps d s = (ok, s') \<Longrightarrow> R s s'"
proof (induction net wid channel p ps d s rule: deliver_to_peers.induct)
  case (2 net writer_id channel payload peer rest delivered s)
  then show ?case
    by (auto split: if_splits prod.splits intro: R_trans [OF R_writeD(2)])
qed (simp add: R_refl)

lemma R_register:
  assumes "register_attachment net cid channel mode s = Some (ok, s')"
  shows "R s s'"
proof -
  obtain st s0 where ref: "channel_ref channel s = (st, s0)" by fastforce
  then have st: "channels s0 channel = Some st" and R0: "R s s0"
    by (auto dest: channel_ref_channels)
  have err: "R s0 (maybe_erase_channel channel s1)" if "send_error net cid e s0 = (ok', s1)" for e ok' s1
    using that by (blast intro: R_trans [OF R_send_error R_erase])
  show ?thesis
  proof (cases "may_join mode st")
    case False
    with assms ref err R0 show ?thesis
      by (auto simp: register_attachment_def may_join_def not_less split: if_splits prod.splits
          intro: R_trans)
  next
    case True
    then have cid: "clients s0 cid \<noteq> None"
      using assms ref
      by (auto simp: register_attachment_def may_join_def split: if_splits prod.splits)
    let ?s2 = "attach_client cid channel mode s0"
    obtain ok3 s3 where ack: "send_ack net cid ?s2 = (ok3, s3)" by fastforce
    have R3: "R s s3"
      using R_attach [OF cid st True] R0 ack by (blast intro: R_trans R_send_ack)
    from assms ref True cid ack have
      "s' = s3 \<or> flush_pending net channel s3 = Some s' \<or>
       drain_to_peer net cid channel (backlog channel s3) s3 = (ok, s')"
      by (auto simp: register_attachment_def may_join_def attach_client_def Let_def not_less
          split: if_splits bool.splits option.splits)
    with R3 show ?thesis
      by (blast intro: R_trans R_flush R_drain_backlog)
  qed
qed

lemma R_publish_to_peers:
  assumes "publish_to_peers net wid channel p st s = (ok, s')" "channels s channel = Some st"
  shows "R s s'"
proof -
  obtain d s1 where d: "deliver_to_peers net wid channel p (channel_peers st) False s = (d, s1)"
    by fastforce
  have R1: "R s s1" using d by (rule R_peers)
  have st1: "channels s1 channel = Some st"
    using deliver_to_peers_channels [OF d] assms(2) by simp
  show ?thesis
  proof (cases "d \<or> max_pending \<le> length (pending st)")
    case True
    with assms d R1 show ?thesis
      by (auto simp: publish_to_peers_def split: bool.splits
          intro: R_trans R_send_ack R_send_error)
  next
    case False
    let ?s2 = "update_channel channel (\<lambda>st. st\<lparr>pending := pending st @ [p]\<rparr>) s1"
    have R2: "R s1 ?s2"
      using R_push [OF st1, of p] False st1 by simp
    have "R ?s2 (push_backlog net (recv_ready st) channel (backlog channel ?s2) ?s2)"
      using st1 by (auto simp: backlog_def intro!: R_push_backlog)
    with R1 R2 have R3: "R s ?s2"
      "R s (push_backlog net (recv_ready st) channel (backlog channel ?s2) ?s2)"
      by (blast intro: R_trans)+
    from assms(1) d False have
      "send_ack net wid ?s2 = (ok, s') \<or>
       send_ack net wid (push_backlog net (recv_ready st) channel (backlog channel ?s2) ?s2) = (ok, s')"
      by (auto simp: publish_to_peers_def Let_def simp del: update_channel_Some split: if_splits)
    with R3 show ?thesis by (blast intro: R_trans R_send_ack)
  qed
qed

lemma R_publish:
  assumes "publish_message net wid channel p s = Some (ok, s')"
  shows "R s s'"
proof -
  obtain st s0 where ref: "channel_ref channel s = (st, s0)" by fastforce
  then have st: "channels s0 channel = Some st" and R0: "R s s0"
    by (auto dest: channel_ref_channels)
  have push: "R s0 (set_pending channel (pending st @ [p]) s0)" if "length (pending st) < max_pending"
    using R_push [OF st that] .
  from assms ref st have
    "publish_to_peers net wid channel p st s0 = (ok, s') \<or>
     (\<exists>e. send_error net wid e s0 = (ok, s')) \<or>
     length (pending st) < max_pending \<and>
       send_ack net wid (set_pending channel (pending st @ [p]) s0) = (ok, s') \<or>
     (\<exists>s1. deliver_to_readers net channel p s0 = Some s1 \<and> send_ack net wid s1 = (ok, s'))"
    by (auto simp: publish_message_def not_le split: if_splits option.splits)
  with R0 st push show ?thesis
    by (blast intro: R_trans R_publish_to_peers R_send_ack R_send_error R_readers)
qed

lemma R_offer:
  assumes "handle_channel_offer net cid channel s = Some (ok, s')"
  shows "R s s'"
proof -
  obtain st s0 where ref: "channel_ref channel s = (st, s0)" by fastforce
  then have st: "channels s0 channel = Some st" and R0: "R s s0"
    by (auto dest: channel_ref_channels)
  have shake: "R s (s0\<lparr>channels := (channels s0)(channel \<mapsto> st')\<rparr>)" if "handshake_change st st'" for st'
    using R0 R_shake [OF st that] by (rule R_trans)
  have writes: "R s (snd (deliver_to_client net c f s2))" if "R s s2" for c f s2
    using that R_write by (rule R_trans)
  have drop: "R s (s0\<lparr>channels := (channels s0)(channel \<mapsto> st\<lparr>have_offer := False, offer_from := 0\<rparr>)\<rparr>)"
    by (rule shake) (simp add: handshake_change_def)
  have grant: "R s (s0\<lparr>channels := (channels s0)(channel \<mapsto> st\<lparr>have_recv_ready := False,
      recv_ready := 0, have_offer := False, offer_from := 0\<rparr>)\<rparr>)"
    by (rule shake) (simp add: handshake_change_def)
  have park: "R s (s0\<lparr>channels := (channels s0)(channel \<mapsto> st\<lparr>have_offer := True, offer_from := cid\<rparr>)\<rparr>)"
    if "cid \<in> set (channel_peers st)"
    using that by (intro shake) (simp add: handshake_change_def)
  consider (err) "cid \<notin> set (channel_peers st)"
    | (busy) "cid \<in> set (channel_peers st)" "have_offer st \<and> offer_from st \<noteq> cid"
    | (accept) "cid \<in> set (channel_peers st)" "\<not> (have_offer st \<and> offer_from st \<noteq> cid)"
        "other_channel_peer st cid \<noteq> 0 \<or> have_recv_ready st \<and> recv_ready st \<noteq> cid"
    | (wait) "cid \<in> set (channel_peers st)" "\<not> (have_offer st \<and> offer_from st \<noteq> cid)"
        "\<not> (other_channel_peer st cid \<noteq> 0 \<or> have_recv_ready st \<and> recv_ready st \<noteq> cid)"
    by blast
  then show ?thesis
  proof cases
    case err
    with assms ref R_trans [OF R0 R_send_error] show ?thesis
      by (simp add: handle_channel_offer_def)
  next
    case busy
    with assms ref st writes [OF drop] writes [OF writes [OF drop]] show ?thesis
      by (auto simp: handle_channel_offer_def Let_def case_prod_beta split: if_splits)
  next
    case accept
    with assms ref st R_trans [OF grant R_writeD(1)] show ?thesis
      by (simp add: handle_channel_offer_def Let_def split: if_splits)
  next
    case wait
    with assms ref st park show ?thesis
      by (auto simp: handle_channel_offer_def split: if_splits)
  qed
qed

lemma R_recv_ready:
  assumes "handle_channel_recv_ready net cid channel s = Some (ok, s')"
  shows "R s s'"
proof -
  obtain st s0 where ref: "channel_ref channel s = (st, s0)" by fastforce
  then have st: "channels s0 channel = Some st" and R0: "R s s0"
    by (auto dest: channel_ref_channels)
  show ?thesis
  proof (cases "cid \<in> set (channel_peers st)")
    case False
    with assms ref R0 show ?thesis
      by (auto simp: handle_channel_recv_ready_def intro: R_trans R_send_error)
  next
    case True
    define offered where "offered \<longleftrightarrow> have_offer st \<and> offer_from st \<noteq> cid"
    define st1 where "st1 = (if offered then st\<lparr>have_offer := False, offer_from := 0\<rparr> else st)"
    define s1 where "s1 = (if offered
        then update_channel channel (\<lambda>st. st\<lparr>have_offer := False, offer_from := 0\<rparr>) s0 else s0)"
    define s2 where "s2 = (if offered then snd (deliver_to_client net (offer_from st)
        (encode_channel_op ChannelAccept channel) s1) else s1)"
    have st2: "channels s2 channel = Some st1" "cid \<in> set (channel_peers st1)"
      using st True by (simp_all add: s2_def s1_def st1_def)
    have "R s0 s1"
      using R_shake [OF st, of st1] R_refl st
      by (cases offered) (simp_all add: s1_def st1_def handshake_change_def)
    with R0 have R1: "R s s1" by (rule R_trans)
    have R2: "R s s2"
      using R1 R_trans [OF R1 R_write] by (simp add: s2_def)
    obtain ok3 s3 where d:
      "(if clients s2 cid \<noteq> None then drain_to_peer net cid channel (backlog channel s2) s2
        else (True, s2)) = (ok3, s3)" by fastforce
    have R3: "R s s3"
    proof (cases "clients s2 cid = None")
      case True
      with d R2 show ?thesis by simp
    next
      case False
      with d have "drain_to_peer net cid channel (backlog channel s2) s2 = (ok3, s3)" by simp
      with R2 R_drain_backlog show ?thesis by (blast intro: R_trans)
    qed
    have s': "s' = (if ok3 then update_channel channel
        (\<lambda>st. st\<lparr>have_recv_ready := True, recv_ready := cid\<rparr>) s3 else s3)"
      using assms ref st True d
      by (auto simp: handle_channel_recv_ready_def Let_def s2_def s1_def st1_def offered_def
          simp del: update_channel_Some
          split: if_splits bool.splits)
    show ?thesis
    proof (cases ok3)
      case False
      with s' R3 show ?thesis by simp
    next
      case True
      then obtain st3 where st3: "channels s3 channel = Some st3" "channel_peers st3 = channel_peers st1"
        using d st2 by (auto simp: backlog_def split: if_splits dest!: drain_to_peer_ok)
      have "R s3 s'"
        using R_shake [OF st3(1), of "st3\<lparr>have_recv_ready := True, recv_ready := cid\<rparr>"] st2 st3 s' True
        by (simp add: handshake_change_def)
      with R3 show ?thesis by (rule R_trans)
    qed
  qed
qed

lemma R_data_ack: "handle_channel_data_ack cid channel s = (ok, s') \<Longrightarrow> R s s'"
proof -
  assume h: "handle_channel_data_ack cid channel s = (ok, s')"
  obtain st s0 where ref: "channel_ref channel s = (st, s0)" by fastforce
  then have st: "channels s0 channel = Some st" and R0: "R s s0"
    by (auto dest: channel_ref_channels)
  have "R s0 s'"
    using h ref st R_shake [OF st, of "st\<lparr>have_awaiting_data_ack := False, awaiting_data_ack := 0\<rparr>"]
    by (auto simp: handle_channel_data_ack_def handshake_change_def)
  with R0 show ?thesis by (rule R_trans)
qed

text \<open>Every handler keeps \<open>R\<close>.\<close>

theorem R_handle_message:
  assumes "handle_message net cid m s = Some (ok, s')"
  shows "R s s'"
proof (cases "msg_kind m")
  case Hello
  with assms R_hello show ?thesis by (auto simp: handle_message_def split: if_splits)
next
  case Detach
  with assms R_detach show ?thesis
    by (auto simp: handle_message_def unregister_attachment_def detach_client_def split: option.splits)
qed (use assms in \<open>auto simp: handle_message_def R_refl R_close split: option.splits
      intro: R_register R_publish R_offer R_recv_ready R_data_ack\<close>)

end

section \<open>Handlers leave the input buffers alone\<close>

definition same_input :: "client_state \<Rightarrow> client_state \<Rightarrow> bool" where
  "same_input c c' \<longleftrightarrow> client_input c' = client_input c \<and> frame_size c' = frame_size c \<and>
     have_header c' = have_header c"

definition inputs_kept :: "daemon_state \<Rightarrow> daemon_state \<Rightarrow> bool" where
  "inputs_kept s s' \<longleftrightarrow>
     (\<forall>i c'. clients s' i = Some c' \<longrightarrow> (\<exists>c. clients s i = Some c \<and> same_input c c'))"

lemma clients_leave [simp]: "clients (leave_channel cid ch s) = clients s"
  by (simp add: leave_channel_def maybe_erase_channel_def update_channel_def split: option.split)

lemma clients_leave_all [simp]:
  "clients (foldl (\<lambda>s (channel, mode). leave_channel cid channel s) s as) = clients s"
  by (induction as arbitrary: s) auto

lemma clients_close [simp]: "clients (close_client cid s) = (clients s)(cid := None)"
  by (auto simp: close_client_def Let_def split: option.split)

lemma clients_ref [simp]: "clients (snd (channel_ref ch s)) = clients s"
  by (simp add: channel_ref_def split: option.split)

lemma clients_erase [simp]: "clients (maybe_erase_channel ch s) = clients s"
  by (simp add: maybe_erase_channel_def split: option.split)

lemma same_input_refl [simp]: "same_input c c"
  by (simp add: same_input_def)

lemma inputs_kept_same: "clients s' = clients s \<Longrightarrow> inputs_kept s s'"
  by (simp add: inputs_kept_def)

lemma inputs_kept_refl: "inputs_kept s s"
  by (simp add: inputs_kept_same)

lemma inputs_kept_update:
  assumes "clients s' = (clients s)(cid := map_option f (clients s cid))" "\<And>c. same_input c (f c)"
  shows "inputs_kept s s'"
  using assms by (auto simp: inputs_kept_def)

lemma inputs_kept_close: "inputs_kept s (close_client cid s)"
  by (simp add: inputs_kept_def)

interpretation kept: daemon_steps inputs_kept
proof unfold_locales
  show "inputs_kept s s' \<Longrightarrow> inputs_kept s' s'' \<Longrightarrow> inputs_kept s s''" for s s' s''
    unfolding inputs_kept_def same_input_def by metis
next
  show "inputs_kept s (attach_client cid channel mode s)" for s cid channel mode
    by (rule inputs_kept_update [where cid = cid and
          f = "\<lambda>c. c\<lparr>attachments := attachments c @ [(channel, mode)]\<rparr>"])
       (simp_all add: attach_client_def update_client_def same_input_def)
next
  show "inputs_kept s (detach_client cid channel mode s)" for s cid channel mode
    by (rule inputs_kept_update [where cid = cid and
          f = "\<lambda>c. c\<lparr>attachments := removeAll (channel, mode) (attachments c)\<rparr>"])
       (simp_all add: detach_client_def update_client_def same_input_def)
next
  show "inputs_kept s (update_client cid (\<lambda>c. c\<lparr>client_pid := pid, client_type := kind\<rparr>) s)"
    for s cid pid kind
    by (rule inputs_kept_update [where cid = cid and
          f = "\<lambda>c. c\<lparr>client_pid := pid, client_type := kind\<rparr>"])
       (simp_all add: update_client_def same_input_def)
qed (simp_all add: inputs_kept_refl inputs_kept_close inputs_kept_same)

section \<open>The input loop\<close>

text \<open>
  A frame is a four-byte length (copied from memory, least significant byte first on the hosts the
  hub runs on) and that many bytes. \<open>take_header\<close> is the first half of an iteration; \<open>None\<close> means
  the loop returns to wait for more.
\<close>

definition take_header :: "client_state \<Rightarrow> client_state option" where
  "take_header c =
     (if have_header c then Some c
      else if length (client_input c) < 4 then None
      else Some (c\<lparr>frame_size := unat (le_word (take 4 (client_input c)) :: u32),
                   client_input := drop 4 (client_input c), have_header := True\<rparr>))"

definition drop_frame_body :: "client_state \<Rightarrow> client_state" where
  "drop_frame_body c =
     c\<lparr>client_input := drop (frame_size c) (client_input c), have_header := False, frame_size := 0\<rparr>"

text \<open>
  A frame whose fields reach past its end is read on into whatever follows it in the buffer; past
  the buffer's end there is no result. After a handler that returned true the loop goes on through its reference to the client; where the
  handler closed that client, the reference dangles.
\<close>

function process_client_input :: "network \<Rightarrow> client_id \<Rightarrow> daemon_state \<Rightarrow> daemon_state option" where
  "process_client_input net cid s =
     (case clients s cid of
        None \<Rightarrow> None
      | Some client \<Rightarrow>
          (case take_header client of
             None \<Rightarrow> Some s
           | Some c1 \<Rightarrow>
               if length (client_input c1) < frame_size c1
               then Some (s\<lparr>clients := (clients s)(cid \<mapsto> c1)\<rparr>)
               else
                 (case decode_message (client_input c1) (frame_size c1) of
                    None \<Rightarrow> None
                  | Some (decoded, protocol_error) \<Rightarrow>
                      if protocol_error
                      then Some (close_client cid (s\<lparr>clients := (clients s)(cid \<mapsto> c1)\<rparr>))
                      else (case handle_message net cid decoded
                          (s\<lparr>clients := (clients s)(cid \<mapsto> drop_frame_body c1)\<rparr>) of
                         None \<Rightarrow> None
                       | Some (ok, s') \<Rightarrow> if ok then process_client_input net cid s' else Some s'))))"
  by pat_completeness auto

text \<open>
  An iteration that goes on has consumed a frame; the handlers do not refill the buffer. A frame may
  be empty, so the header flag breaks the tie.
\<close>

definition input_measure :: "client_id \<Rightarrow> daemon_state \<Rightarrow> nat" where
  "input_measure cid s =
     (case clients s cid of None \<Rightarrow> 0
      | Some c \<Rightarrow> Suc (2 * length (client_input c) + (if have_header c then 1 else 0)))"

lemma take_header_measure:
  "take_header c = Some c1 \<Longrightarrow> have_header c1 \<and>
   2 * length (client_input c1) + 1 \<le> 2 * length (client_input c) + (if have_header c then 1 else 0)"
  by (auto simp: take_header_def split: if_splits)

lemma kept_input_measure:
  assumes "handle_message net cid m (s\<lparr>clients := (clients s)(cid \<mapsto> c)\<rparr>) = Some (ok, s')"
  shows "input_measure cid s' \<le> Suc (2 * length (client_input c) + (if have_header c then 1 else 0))"
  using kept.R_handle_message [OF assms]
  by (force simp: input_measure_def inputs_kept_def same_input_def split: option.splits)

termination process_client_input
proof (relation "measure (\<lambda>(net, cid, s). input_measure cid s)", goal_cases)
  case (2 net cid s client c1 decoded_error decoded protocol_error ok_s' ok s')
  then have "input_measure cid s' \<le> Suc (2 * length (client_input (drop_frame_body c1)))"
    using kept_input_measure [of net cid decoded s "drop_frame_body c1" ok s']
    by (simp add: drop_frame_body_def)
  also have "\<dots> \<le> Suc (2 * length (client_input c1))"
    by (simp add: drop_frame_body_def)
  also have "\<dots> < input_measure cid s"
    using take_header_measure [OF "2"(2)] "2"(1) by (simp add: input_measure_def)
  finally show ?case by simp
qed simp

declare process_client_input.simps [simp del]

definition ingest_bytes :: "network \<Rightarrow> client_id \<Rightarrow> byte list \<Rightarrow> daemon_state \<Rightarrow> daemon_state option" where
  "ingest_bytes net cid data s =
     (if clients s cid = None then None
      else process_client_input net cid
        (update_client cid (\<lambda>c. c\<lparr>client_input := client_input c @ data\<rparr>) s))"

text \<open>
  The body of the accept branch of \<open>run_daemon_posix\<close>: a new client under the descriptor's number;
  \<open>emplace\<close> keeps an entry that is already there.
\<close>

definition accept_connection :: "client_id \<Rightarrow> daemon_state \<Rightarrow> daemon_state" where
  "accept_connection cid s =
     s\<lparr>served_clients := True,
       clients := (if clients s cid = None then (clients s)(cid \<mapsto> new_client) else clients s)\<rparr>"

text \<open>What one poll of a client reports, and the branch of \<open>run_daemon_posix\<close> that handles it.\<close>

datatype poll_event = Quiet | Hangup | ReadError | WouldBlock | Readable "byte list"

definition poll_client :: "network \<Rightarrow> client_id \<Rightarrow> poll_event \<Rightarrow> daemon_state \<Rightarrow> daemon_state option" where
  "poll_client net cid event s =
     (case event of
        Quiet \<Rightarrow> Some s
      | Hangup \<Rightarrow> Some (close_client cid s)
      | ReadError \<Rightarrow> Some (close_client cid s)
      | WouldBlock \<Rightarrow> Some s
      | Readable chunk \<Rightarrow> if clients s cid = None then Some s else ingest_bytes net cid chunk s)"

fun poll_clients :: "network \<Rightarrow> (client_id \<times> poll_event) list \<Rightarrow> daemon_state \<Rightarrow> daemon_state option" where
  "poll_clients net [] s = Some s"
| "poll_clients net ((cid, event) # rest) s =
     (case poll_client net cid event s of None \<Rightarrow> None | Some s' \<Rightarrow> poll_clients net rest s')"

text \<open>
  One round of the daemon's loop: the listener's descriptor, then the polled clients in order, then
  the test that ends the daemon.
\<close>

definition daemon_round ::
    "network \<Rightarrow> client_id option \<Rightarrow> (client_id \<times> poll_event) list \<Rightarrow> daemon_state \<Rightarrow> (bool \<times> daemon_state) option" where
  "daemon_round net accepted events s =
     (let s1 = (case accepted of None \<Rightarrow> s | Some cid \<Rightarrow> accept_connection cid s) in
      case poll_clients net events s1 of
        None \<Rightarrow> None
      | Some s2 \<Rightarrow> Some (\<not> (served_clients s2 \<and> clients s2 = Map.empty), s2))"

section \<open>The contract of the whole loop\<close>

text \<open>
  A relation that is also kept when a client's buffer changes and when a client connects is kept by
  the input loop and by a whole round of the daemon.
\<close>

locale daemon_loop = daemon_steps +
  assumes R_input: "clients s cid = Some c \<Longrightarrow> attachments c' = attachments c \<Longrightarrow>
      R s (s\<lparr>clients := (clients s)(cid \<mapsto> c')\<rparr>)"
    and R_accept: "R s (accept_connection cid s)"
begin

lemma R_process: "process_client_input net cid s = Some s' \<Longrightarrow> R s s'"
proof (induction net cid s rule: process_client_input.induct)
  case (1 net cid s)
  from "1.prems" obtain c where c: "clients s cid = Some c"
    by (auto simp: process_client_input.simps [of net cid s] split: option.splits)
  show ?case
  proof (cases "take_header c")
    case None
    with "1.prems" c show ?thesis
      by (simp add: process_client_input.simps [of net cid s] R_refl)
  next
    case (Some c1)
    then have att: "attachments c1 = attachments c" "attachments (drop_frame_body c1) = attachments c"
      by (auto simp: take_header_def drop_frame_body_def split: if_splits)
    note Rc = R_input [OF c att(1)] R_input [OF c att(2)]
    let ?s2 = "s\<lparr>clients := (clients s)(cid \<mapsto> drop_frame_body c1)\<rparr>"
    note unf = process_client_input.simps [of net cid s]
    show ?thesis
    proof (cases "length (client_input c1) < frame_size c1 \<or>
        (\<exists>m. decode_message (client_input c1) (frame_size c1) = Some (m, True))")
      case True
      with "1.prems" c Some Rc(1) show ?thesis
        by (auto simp: unf intro: R_trans [OF _ R_close] split: if_splits)
    next
      case False
      with "1.prems" c Some obtain m where len: "\<not> length (client_input c1) < frame_size c1"
        and m: "decode_message (client_input c1) (frame_size c1) = Some (m, False)"
        by (auto simp: unf split: option.splits if_splits)
      with "1.prems" c Some obtain ok s3 where h: "handle_message net cid m ?s2 = Some (ok, s3)"
        and rest: "if ok then process_client_input net cid s3 = Some s' else s3 = s'"
        by (auto simp: unf split: option.splits if_splits)
      have "R s s3" using Rc(2) R_handle_message [OF h] by (rule R_trans)
      moreover have "R s3 s'"
        using rest "1.IH" [OF c Some len m refl] h R_refl by (cases ok) auto
      ultimately show ?thesis by (rule R_trans)
    qed
  qed
qed

lemma R_ingest:
  assumes "ingest_bytes net cid data s = Some s'"
  shows "R s s'"
proof -
  from assms obtain c where c: "clients s cid = Some c"
    by (auto simp: ingest_bytes_def split: if_splits)
  let ?c' = "c\<lparr>client_input := client_input c @ data\<rparr>"
  have "R s (s\<lparr>clients := (clients s)(cid \<mapsto> ?c')\<rparr>)"
    by (rule R_input [OF c]) simp
  moreover have "R (s\<lparr>clients := (clients s)(cid \<mapsto> ?c')\<rparr>) s'"
    using assms c by (auto simp: ingest_bytes_def update_client_def intro: R_process)
  ultimately show ?thesis by (rule R_trans)
qed

lemma R_poll_client: "poll_client net cid e s = Some s' \<Longrightarrow> R s s'"
  by (auto simp: poll_client_def R_refl R_close R_ingest split: poll_event.splits if_splits)

lemma R_poll_clients: "poll_clients net es s = Some s' \<Longrightarrow> R s s'"
  by (induction net es s rule: poll_clients.induct)
     (auto simp: R_refl split: option.splits intro: R_trans dest: R_poll_client)

lemma R_round: "daemon_round net acc es s = Some (go, s') \<Longrightarrow> R s s'"
  by (auto simp: daemon_round_def Let_def split: option.splits
      intro: R_trans [OF R_accept R_poll_clients] R_poll_clients)

end

end
