(* ===== verification/Hub_Safety.thy ===== *)
theory Hub_Safety
  imports Hub_Steps
begin

text \<open>
  What the broker keeps true: the invariant tying the channels' membership lists to the clients'
  attachments, with the bounds on peers and backlog, and its consequences; the effect of each
  request on the frames that go out; and the two runs in which the code uses what it has just
  erased.
\<close>

section \<open>The invariant\<close>

definition attached :: "(client_id \<rightharpoonup> client_state) \<Rightarrow> client_id \<Rightarrow> string \<Rightarrow> attachment_mode \<Rightarrow> bool" where
  "attached cls i ch mode \<longleftrightarrow> (\<exists>c. cls i = Some c \<and> (ch, mode) \<in> set (attachments c))"

definition channel_inv :: "(client_id \<rightharpoonup> client_state) \<Rightarrow> string \<Rightarrow> channel_state \<Rightarrow> bool" where
  "channel_inv cls ch st \<longleftrightarrow>
     (\<forall>i \<in> set (writers st). attached cls i ch Writer) \<and>
     (\<forall>i \<in> set (queue_readers st). attached cls i ch QueueIn) \<and>
     (\<forall>i \<in> set (broadcast_readers st). attached cls i ch BroadcastIn) \<and>
     (\<forall>i \<in> set (channel_peers st). attached cls i ch ChannelPeer) \<and>
     length (channel_peers st) \<le> 2 \<and> length (pending st) \<le> max_pending \<and>
     (have_offer st \<longrightarrow> offer_from st \<in> set (channel_peers st)) \<and>
     (have_recv_ready st \<longrightarrow> recv_ready st \<in> set (channel_peers st)) \<and>
     \<not> have_awaiting_data_ack st"

definition hub_inv :: "daemon_state \<Rightarrow> bool" where
  "hub_inv s \<longleftrightarrow> (\<forall>ch st. channels s ch = Some st \<longrightarrow> channel_inv (clients s) ch st)"

lemma hub_invD: "hub_inv s \<Longrightarrow> channels s ch = Some st \<Longrightarrow> channel_inv (clients s) ch st"
  by (simp add: hub_inv_def)

lemma channel_inv_new: "channel_inv cls ch new_channel"
  by (simp add: channel_inv_def new_channel_def)

lemma channel_inv_mono:
  assumes "channel_inv cls ch st" "\<And>i m. attached cls i ch m \<Longrightarrow> attached cls' i ch m"
  shows "channel_inv cls' ch st"
  using assms by (auto simp: channel_inv_def)

lemma remove_members [simp]:
  "set (writers (remove_client_from_channel cid st)) = set (writers st) - {cid}"
  "set (queue_readers (remove_client_from_channel cid st)) = set (queue_readers st) - {cid}"
  "set (broadcast_readers (remove_client_from_channel cid st)) = set (broadcast_readers st) - {cid}"
  "set (channel_peers (remove_client_from_channel cid st)) = set (channel_peers st) - {cid}"
  by (simp_all add: remove_client_from_channel_def Let_def)

lemma channel_inv_remove:
  assumes "channel_inv cls ch st" "\<And>i m. i \<noteq> cid \<Longrightarrow> attached cls i ch m \<Longrightarrow> attached cls' i ch m"
  shows "channel_inv cls' ch (remove_client_from_channel cid st)"
proof -
  have len: "length (channel_peers (remove_client_from_channel cid st)) \<le> 2"
    using assms(1) le_trans [OF length_removeAll_less_eq]
    by (auto simp: channel_inv_def remove_client_from_channel_def Let_def)
  have flags:
    "have_offer (remove_client_from_channel cid st) \<Longrightarrow>
       offer_from (remove_client_from_channel cid st) \<in> set (channel_peers st) - {cid}"
    "have_recv_ready (remove_client_from_channel cid st) \<Longrightarrow>
       recv_ready (remove_client_from_channel cid st) \<in> set (channel_peers st) - {cid}"
    "\<not> have_awaiting_data_ack (remove_client_from_channel cid st)"
    using assms(1)
    by (auto simp: channel_inv_def remove_client_from_channel_def Let_def split: if_splits)
  show ?thesis
    unfolding channel_inv_def remove_members
    using assms len flags by (auto simp: channel_inv_def)
qed

lemma leave_channels:
  "channels (leave_channel cid ch' s) ch = Some st' \<Longrightarrow>
   \<exists>st. channels s ch = Some st \<and> st' = (if ch = ch' then remove_client_from_channel cid st else st)"
  by (auto simp: leave_channel_def maybe_erase_channel_def update_channel_def split: option.splits if_splits)

lemma hub_inv_leave:
  assumes "hub_inv s"
    and "\<And>ch i m. i \<noteq> cid \<or> ch \<noteq> ch' \<Longrightarrow> attached (clients s) i ch m \<Longrightarrow> attached cls' i ch m"
  shows "hub_inv ((leave_channel cid ch' s)\<lparr>clients := cls'\<rparr>)"
  unfolding hub_inv_def
proof (intro allI impI)
  fix ch st'
  assume "channels ((leave_channel cid ch' s)\<lparr>clients := cls'\<rparr>) ch = Some st'"
  then obtain st where st: "channels s ch = Some st"
    and st': "st' = (if ch = ch' then remove_client_from_channel cid st else st)"
    by (auto dest: leave_channels)
  note inv = hub_invD [OF assms(1) st]
  show "channel_inv (clients ((leave_channel cid ch' s)\<lparr>clients := cls'\<rparr>)) ch st'"
  proof (cases "ch = ch'")
    case True
    have "channel_inv cls' ch (remove_client_from_channel cid st)"
      by (rule channel_inv_remove [OF inv]) (use assms(2) in blast)
    with st' True show ?thesis by simp
  next
    case False
    have "channel_inv cls' ch st"
      by (rule channel_inv_mono [OF inv]) (use False assms(2) in blast)
    with st' False show ?thesis by simp
  qed
qed

lemma hub_inv_leave': "hub_inv s \<Longrightarrow> hub_inv (leave_channel cid ch' s)"
  using hub_inv_leave [of s cid ch' "clients s"] clients_leave [of cid ch' s]
  by (simp add: hub_inv_def)

text \<open>After leaving every channel it is attached to, a client is listed nowhere.\<close>

definition unlisted :: "client_id \<Rightarrow> channel_state \<Rightarrow> bool" where
  "unlisted cid st \<longleftrightarrow> cid \<notin> set (writers st) \<and> cid \<notin> set (queue_readers st) \<and>
     cid \<notin> set (broadcast_readers st) \<and> cid \<notin> set (channel_peers st)"

lemma listed_attached: "channel_inv cls ch st \<Longrightarrow> \<not> unlisted i st \<Longrightarrow> \<exists>m. attached cls i ch m"
  by (auto simp: channel_inv_def unlisted_def)

lemma leave_all_unlisted:
  "(\<And>ch st. channels s ch = Some st \<Longrightarrow> ch \<in> fst ` set as \<or> unlisted cid st) \<Longrightarrow>
   channels (foldl (\<lambda>s (channel, mode). leave_channel cid channel s) s as) ch = Some st \<Longrightarrow>
   unlisted cid st"
proof (induction as arbitrary: s)
  case (Cons a as)
  obtain c m where a: "a = (c, m)" by fastforce
  have "ch \<in> fst ` set as \<or> unlisted cid st"
    if "channels (leave_channel cid c s) ch = Some st" for ch st
    using leave_channels [OF that] Cons.prems(1) a
    by (fastforce simp: unlisted_def split: if_splits)
  with Cons.IH [of "leave_channel cid c s"] Cons.prems(2) a show ?case by simp
qed auto

lemma hub_inv_leave_all:
  "hub_inv s \<Longrightarrow> hub_inv (foldl (\<lambda>s (channel, mode). leave_channel cid channel s) s as)"
  by (induction as arbitrary: s) (auto simp: hub_inv_leave')

lemma channel_inv_unlisted:
  assumes "channel_inv cls ch st" "unlisted cid st"
  shows "channel_inv (cls(cid := None)) ch st"
  using assms by (auto simp: channel_inv_def unlisted_def attached_def)

lemma hub_inv_close:
  assumes inv: "hub_inv s"
  shows "hub_inv (close_client cid s)"
proof (cases "clients s cid")
  case None
  with inv show ?thesis by (simp add: close_client_def)
next
  case (Some c)
  let ?s1 = "foldl (\<lambda>s (channel, mode). leave_channel cid channel s) s (attachments c)"
  have "ch \<in> fst ` set (attachments c) \<or> unlisted cid st" if "channels s ch = Some st" for ch st
    using listed_attached [OF hub_invD [OF inv that], of cid] Some
    by (cases "unlisted cid st") (auto simp: attached_def image_iff Bex_def)
  then have "unlisted cid st" if "channels ?s1 ch = Some st" for ch st
    using leave_all_unlisted that by blast
  moreover have "channel_inv (clients s) ch st" if "channels ?s1 ch = Some st" for ch st
    using hub_invD [OF hub_inv_leave_all [OF inv] that] by simp
  ultimately have "channel_inv ((clients s)(cid := None)) ch st" if "channels ?s1 ch = Some st" for ch st
    using that by (blast intro: channel_inv_unlisted)
  with Some show ?thesis
    by (simp add: hub_inv_def close_client_def Let_def)
qed

text \<open>The remaining primitives.\<close>

lemma hub_inv_same: "channels s' = channels s \<Longrightarrow> clients s' = clients s \<Longrightarrow> hub_inv s \<Longrightarrow> hub_inv s'"
  by (simp add: hub_inv_def)

lemma hub_inv_channel:
  assumes "hub_inv s" "channel_inv (clients s) ch st"
  shows "hub_inv (s\<lparr>channels := (channels s)(ch \<mapsto> st)\<rparr>)"
  using assms by (simp add: hub_inv_def)

lemma hub_inv_clients:
  assumes "hub_inv s" "\<And>i ch m. attached (clients s) i ch m \<Longrightarrow> attached cls' i ch m"
  shows "hub_inv (s\<lparr>clients := cls'\<rparr>)"
  unfolding hub_inv_def
proof (intro allI impI)
  fix ch st assume "channels (s\<lparr>clients := cls'\<rparr>) ch = Some st"
  then have "channel_inv (clients s) ch st" using assms(1) by (simp add: hub_inv_def)
  then have "channel_inv cls' ch st" by (rule channel_inv_mono) (rule assms(2))
  then show "channel_inv (clients (s\<lparr>clients := cls'\<rparr>)) ch st" by simp
qed

lemma attached_update:
  assumes "attached cls i ch m" "\<And>c. cls cid = Some c \<Longrightarrow> set (attachments c) \<subseteq> set (attachments (f c))"
  shows "attached (cls(cid := map_option f (cls cid))) i ch m"
  using assms by (auto simp: attached_def)

lemma attached_upd:
  assumes "attached cls i ch m" "\<And>c. cls cid = Some c \<Longrightarrow> set (attachments c) \<subseteq> set (attachments c')"
  shows "attached (cls(cid \<mapsto> c')) i ch m"
  using assms by (auto simp: attached_def)

lemma hub_inv_ref: "hub_inv s \<Longrightarrow> hub_inv (snd (channel_ref ch s))"
  by (auto simp: channel_ref_def intro!: hub_inv_channel channel_inv_new split: option.split)

lemma hub_inv_erase: "hub_inv s \<Longrightarrow> hub_inv (maybe_erase_channel ch s)"
  by (simp add: hub_inv_def maybe_erase_channel_def split: option.split)

lemma channel_inv_join:
  assumes "channel_inv cls ch st" "may_join mode st" "attached cls cid ch mode"
  shows "channel_inv cls ch (join_channel cid mode st)"
  using assms by (cases mode) (auto simp: channel_inv_def may_join_def)

lemma hub_inv_attach:
  assumes inv: "hub_inv s" and c: "clients s cid \<noteq> None" and st: "channels s ch = Some st"
    and join: "may_join mode st"
  shows "hub_inv (attach_client cid ch mode s)"
proof -
  let ?f = "\<lambda>c. c\<lparr>attachments := attachments c @ [(ch, mode)]\<rparr>"
  let ?s1 = "s\<lparr>clients := (clients s)(cid := map_option ?f (clients s cid))\<rparr>"
  have inv1: "hub_inv ?s1"
    by (rule hub_inv_clients [OF inv]) (rule attached_update, auto)
  have st1: "channels ?s1 ch = Some st" using st by simp
  have "attached (clients ?s1) cid ch mode"
    using c by (auto simp: attached_def)
  then have "channel_inv (clients ?s1) ch (join_channel cid mode st)"
    by (rule channel_inv_join [OF hub_invD [OF inv1 st1] join])
  from hub_inv_channel [OF inv1 this] st1 show ?thesis
    by (simp add: attach_client_def update_client_def)
qed

lemma hub_inv_detach:
  assumes "hub_inv s"
  shows "hub_inv (detach_client cid ch mode s)"
proof -
  let ?f = "\<lambda>c. c\<lparr>attachments := removeAll (ch, mode) (attachments c)\<rparr>"
  let ?cls = "(clients s)(cid := map_option ?f (clients s cid))"
  have "hub_inv ((leave_channel cid ch s)\<lparr>clients := ?cls\<rparr>)"
    using assms by (rule hub_inv_leave) (auto simp: attached_def)
  moreover have "(leave_channel cid ch s)\<lparr>clients := ?cls\<rparr> = leave_channel cid ch (s\<lparr>clients := ?cls\<rparr>)"
    by (simp add: leave_channel_def maybe_erase_channel_def update_channel_def split: option.split)
  ultimately show ?thesis
    by (simp add: detach_client_def update_client_def)
qed

lemma channel_inv_shake:
  "channel_inv cls ch st \<Longrightarrow> handshake_change st st' \<Longrightarrow> channel_inv cls ch st'"
  unfolding channel_inv_def handshake_change_def by auto

interpretation inv: daemon_loop "\<lambda>s s'. hub_inv s \<longrightarrow> hub_inv s'"
proof unfold_locales
  show "hub_inv s \<longrightarrow> hub_inv (set_pending ch ps s)"
    if "channels s ch = Some st" "pending st = p # ps" for s ch st p ps
    using that hub_invD [of s ch st] by (auto intro!: hub_inv_channel simp: channel_inv_def)
next
  show "hub_inv s \<longrightarrow> hub_inv (set_pending ch (pending st @ [p]) s)"
    if "channels s ch = Some st" "length (pending st) < max_pending" for s ch st p
    using that hub_invD [of s ch st] by (auto intro!: hub_inv_channel simp: channel_inv_def)
next
  show "hub_inv s \<longrightarrow> hub_inv (s\<lparr>channels := (channels s)(ch \<mapsto> st')\<rparr>)"
    if "channels s ch = Some st" "handshake_change st st'" for s ch st st'
    using that channel_inv_shake hub_invD [of s ch st] by (blast intro: hub_inv_channel)
next
  show "hub_inv s \<longrightarrow> hub_inv (update_client cid (\<lambda>c. c\<lparr>client_pid := pid, client_type := k\<rparr>) s)"
    for s cid pid k
    unfolding update_client_def by (intro impI hub_inv_clients attached_update) auto
next
  show "hub_inv s \<longrightarrow> hub_inv (s\<lparr>clients := (clients s)(cid \<mapsto> c')\<rparr>)"
    if "clients s cid = Some c" "attachments c' = attachments c" for s cid c c'
    using that by (intro impI hub_inv_clients attached_upd) auto
next
  show "hub_inv s \<longrightarrow> hub_inv (accept_connection cid s)" for s cid
  proof
    assume "hub_inv s"
    then have "hub_inv (s\<lparr>clients := (if clients s cid = None then (clients s)(cid \<mapsto> new_client)
        else clients s)\<rparr>)"
      by (rule hub_inv_clients) (auto simp: attached_def)
    then show "hub_inv (accept_connection cid s)"
      by (rule hub_inv_same [rotated 2]) (simp_all add: accept_connection_def)
  qed
qed (auto intro: hub_inv_close hub_inv_ref hub_inv_erase hub_inv_attach hub_inv_detach hub_inv_same)

section \<open>Reachable states\<close>

text \<open>
  The states of a daemon's life: rounds over any descriptors, poll results, bytes and outcomes of
  writes.
\<close>

inductive daemon_reachable :: "daemon_state \<Rightarrow> bool" where
  daemon_start: "daemon_reachable new_daemon"
| daemon_next: "daemon_reachable s \<Longrightarrow> daemon_round net accepted events s = Some (go, s') \<Longrightarrow>
    daemon_reachable s'"

inductive_cases daemon_reachableE: "daemon_reachable s"


definition connected_daemon :: daemon_state where
  "connected_daemon = accept_connection 5 new_daemon"


section \<open>Runs in which every write succeeds\<close>

definition wrote :: "(client_id \<times> byte list) list \<Rightarrow> daemon_state \<Rightarrow> daemon_state" where
  "wrote fs s = s\<lparr>write_count := write_count s + length fs, sent_frames := sent_frames s @ fs\<rparr>"

lemma wrote_simps [simp]:
  "wrote [] s = s" "wrote fs (wrote gs s) = wrote (gs @ fs) s"
  "channels (wrote fs s) = channels s" "clients (wrote fs s) = clients s"
  "sent_frames (wrote fs s) = sent_frames s @ fs"
  by (simp_all add: wrote_def)

lemma wrote_channels: "(wrote fs s)\<lparr>channels := c\<rparr> = wrote fs (s\<lparr>channels := c\<rparr>)"
  by (simp add: wrote_def)

lemma hub_inv_wrote [simp]: "hub_inv (wrote fs s) = hub_inv s"
  by (simp add: hub_inv_def)

definition no_failures :: "network \<Rightarrow> bool" where
  "no_failures net \<longleftrightarrow> (\<forall>k. net k)"

lemma write_ok [simp]:
  "no_failures net \<Longrightarrow> deliver_to_client net i f s = (True, wrote [(i, f)] s)"
  "no_failures net \<Longrightarrow> deliver_payload net i ch m p s = (True, wrote [(i, encode_deliver ch m p)] s)"
  by (simp_all add: no_failures_def deliver_to_client_def deliver_payload_def wrote_def)

lemma send_ok [simp]:
  "no_failures net \<Longrightarrow> clients s i \<noteq> None \<Longrightarrow> send_ack net i s = (True, wrote [(i, encode_ack)] s)"
  "no_failures net \<Longrightarrow> clients s i \<noteq> None \<Longrightarrow> send_error net i e s = (True, wrote [(i, encode_error e)] s)"
  by (auto simp: send_ack_def send_error_def send_frame_def)

definition broadcast_frames :: "string \<Rightarrow> byte list \<Rightarrow> client_id list \<Rightarrow> (client_id \<times> byte list) list" where
  "broadcast_frames ch p rs = map (\<lambda>r. (r, encode_deliver ch BroadcastIn p)) rs"

definition queue_frames :: "string \<Rightarrow> byte list \<Rightarrow> channel_state \<Rightarrow> (client_id \<times> byte list) list" where
  "queue_frames ch p st =
     (if queue_readers st = [] then []
      else [(queue_readers st ! (unat (queue_cursor st) mod length (queue_readers st)),
             encode_deliver ch QueueIn p)])"

definition after_queue :: "channel_state \<Rightarrow> channel_state" where
  "after_queue st = (if queue_readers st = [] then st else st\<lparr>queue_cursor := queue_cursor st + 1\<rparr>)"

lemma broadcast_ok:
  "no_failures net \<Longrightarrow> (\<And>i. i \<in> set rs \<Longrightarrow> clients s i \<noteq> None) \<Longrightarrow>
   deliver_broadcast net ch p every rs s = Some (wrote (broadcast_frames ch p rs) s)"
proof (induction rs arbitrary: s)
  case (Cons r rs)
  then obtain c where "clients s r = Some c" by fastforce
  with Cons show ?case by (simp add: broadcast_frames_def)
qed (simp add: broadcast_frames_def)

lemma queue_ok:
  assumes "no_failures net" "channels s ch = Some st" "\<And>i. i \<in> set (queue_readers st) \<Longrightarrow> clients s i \<noteq> None"
  shows "deliver_queue net ch p st s =
    wrote (queue_frames ch p st) (s\<lparr>channels := (channels s)(ch \<mapsto> after_queue st)\<rparr>)"
proof (cases "queue_readers st = []")
  case True
  with assms(2) show ?thesis
    by (simp add: deliver_queue_def queue_frames_def after_queue_def fun_upd_idem)
next
  case False
  let ?i = "queue_readers st ! (unat (queue_cursor st) mod length (queue_readers st))"
  have "?i \<in> set (queue_readers st)" using False by simp
  with assms obtain c where "clients s ?i = Some c" by blast
  with assms False show ?thesis
    by (simp add: deliver_queue_def queue_frames_def after_queue_def Let_def)
qed

lemma listed_live:
  assumes "channel_inv cls ch st"
  shows "i \<in> set (writers st) \<union> set (queue_readers st) \<union> set (broadcast_readers st) \<union> set (channel_peers st) \<Longrightarrow>
    cls i \<noteq> None"
  using assms by (auto simp: channel_inv_def attached_def)

lemma readers_ok:
  assumes "no_failures net" "hub_inv s" "channels s ch = Some st"
  shows "deliver_to_readers net ch p s =
    Some (wrote (broadcast_frames ch p (broadcast_readers st) @ queue_frames ch p st)
      (s\<lparr>channels := (channels s)(ch \<mapsto> after_queue st)\<rparr>))"
proof -
  have live: "clients s i \<noteq> None" if "i \<in> set (broadcast_readers st) \<union> set (queue_readers st)" for i
    using listed_live [OF hub_invD [OF assms(2,3)], of i] that by blast
  have "deliver_broadcast net ch p (broadcast_readers st) (broadcast_readers st) s =
      Some (wrote (broadcast_frames ch p (broadcast_readers st)) s)"
    using live by (intro broadcast_ok [OF assms(1)]) auto
  moreover have "deliver_queue net ch p st (wrote (broadcast_frames ch p (broadcast_readers st)) s) =
      wrote (queue_frames ch p st)
        ((wrote (broadcast_frames ch p (broadcast_readers st)) s)\<lparr>channels := (channels s)(ch \<mapsto> after_queue st)\<rparr>)"
    using queue_ok [OF assms(1), of "wrote (broadcast_frames ch p (broadcast_readers st)) s" ch st p]
      live assms(3) by auto
  ultimately show ?thesis
    using assms(3) by (simp add: deliver_to_readers_def channel_ref_def wrote_channels)
qed

text \<open>
  C12. A publish on a channel with readers, from a client that is not one of its channel peers, with
  no failing write: each broadcast reader is sent one copy, exactly one queue reader (the one the
  cursor points at, round robin) is sent one, then the publisher its \<open>Ack\<close>, and nothing else; the
  backlog is untouched and the cursor moves on by one when there is a queue.
\<close>

theorem publish_delivers:
  assumes "no_failures net" "hub_inv s" "channels s ch = Some st" "channel_has_reader st"
    "w \<notin> set (channel_peers st)" "clients s w \<noteq> None"
  shows "publish_message net w ch p s = Some (True,
    wrote (broadcast_frames ch p (broadcast_readers st) @ queue_frames ch p st @ [(w, encode_ack)])
      (s\<lparr>channels := (channels s)(ch \<mapsto> after_queue st)\<rparr>))"
  using assms readers_ok [OF assms(1-3), of p]
  by (simp add: publish_message_def channel_ref_def)

text \<open>A hub with a publisher 1, a subscriber 2 and two competing readers 3 and 4 of one pipe.\<close>

definition sample_client :: "attachment_mode \<Rightarrow> client_state" where
  "sample_client mode = new_client\<lparr>attachments := [(''ticks'', mode)]\<rparr>"

definition sample_channel :: channel_state where
  "sample_channel = new_channel\<lparr>writers := [1], broadcast_readers := [2], queue_readers := [3, 4],
     queue_cursor := 5\<rparr>"

definition sample_hub :: daemon_state where
  "sample_hub = new_daemon\<lparr>channels := [''ticks'' \<mapsto> sample_channel],
     clients := [1 \<mapsto> sample_client Writer, 2 \<mapsto> sample_client BroadcastIn,
                 3 \<mapsto> sample_client QueueIn, 4 \<mapsto> sample_client QueueIn]\<rparr>"

lemma sample_hub_inv: "hub_inv sample_hub"
  by (auto simp: hub_inv_def sample_hub_def channel_inv_def sample_channel_def attached_def
      sample_client_def new_channel_def split: if_splits)

theorem publish_delivers_witness:
  "publish_message (\<lambda>_. True) 1 ''ticks'' [7] sample_hub = Some (True,
     wrote [(2, encode_deliver ''ticks'' BroadcastIn [7]), (4, encode_deliver ''ticks'' QueueIn [7]),
            (1, encode_ack)]
       (sample_hub\<lparr>channels := [''ticks'' \<mapsto> sample_channel\<lparr>queue_cursor := 6\<rparr>]\<rparr>))"
  using publish_delivers [of "\<lambda>_. True" sample_hub "''ticks''" sample_channel 1 "[7]"] sample_hub_inv
  by (simp add: no_failures_def sample_hub_def sample_channel_def new_channel_def new_daemon_def
      channel_has_reader_def broadcast_frames_def queue_frames_def after_queue_def
      flip: numeral_2_eq_2)

text \<open>Without a reader the payload waits; the backlog is handed over in order to the first reader.\<close>

definition reader_frames :: "string \<Rightarrow> byte list \<Rightarrow> channel_state \<Rightarrow> (client_id \<times> byte list) list" where
  "reader_frames ch p st = broadcast_frames ch p (broadcast_readers st) @ queue_frames ch p st"

fun flush_frames :: "string \<Rightarrow> byte list list \<Rightarrow> channel_state \<Rightarrow> (client_id \<times> byte list) list" where
  "flush_frames ch [] st = []"
| "flush_frames ch (p # ps) st = reader_frames ch p st @ flush_frames ch ps (after_queue st)"

lemma after_queue_simps [simp]:
  "queue_readers (after_queue st) = queue_readers st"
  "broadcast_readers (after_queue st) = broadcast_readers st"
  "pending (after_queue st) = pending st"
  "channel_has_reader (after_queue st) = channel_has_reader st"
  "after_queue (st\<lparr>pending := ps\<rparr>) = (after_queue st)\<lparr>pending := ps\<rparr>"
  by (simp_all add: after_queue_def channel_has_reader_def)

lemma frames_pending [simp]:
  "broadcast_readers (st\<lparr>pending := ps\<rparr>) = broadcast_readers st"
  "queue_frames ch p (st\<lparr>pending := ps\<rparr>) = queue_frames ch p st"
  "reader_frames ch p (st\<lparr>pending := ps\<rparr>) = reader_frames ch p st"
  "channel_has_reader (st\<lparr>pending := ps\<rparr>) = channel_has_reader st"
  by (simp_all add: queue_frames_def reader_frames_def channel_has_reader_def)

lemma flush_frames_pending [simp]: "flush_frames ch ps (st\<lparr>pending := qs\<rparr>) = flush_frames ch ps st"
proof (induction ps arbitrary: st)
  case (Cons p ps)
  then show ?case by simp
qed simp

lemma pow_pending: "(after_queue ^^ n) (st\<lparr>pending := ps\<rparr>) = ((after_queue ^^ n) st)\<lparr>pending := ps\<rparr>"
  by (induction n) simp_all

lemma pow_readers:
  "queue_readers ((after_queue ^^ n) st) = queue_readers st"
  "broadcast_readers ((after_queue ^^ n) st) = broadcast_readers st"
  by (induction n) simp_all

lemma channel_inv_queue: "channel_inv cls ch st \<Longrightarrow> channel_inv cls ch (after_queue st)"
  by (auto simp: channel_inv_def after_queue_def)

text \<open>\<open>flush_pending\<close> empties the backlog through the readers, the oldest payload first.\<close>

lemma flush_ok:
  assumes net: "no_failures net"
  shows "hub_inv s \<Longrightarrow> channels s ch = Some st \<Longrightarrow> pending st = ps \<Longrightarrow> channel_has_reader st \<Longrightarrow>
    flush_loop net ch s = Some (wrote (flush_frames ch ps st)
      (s\<lparr>channels := (channels s)(ch \<mapsto> ((after_queue ^^ length ps) st)\<lparr>pending := []\<rparr>)\<rparr>))"
proof (induction ps arbitrary: s st)
  case Nil
  then have "st\<lparr>pending := []\<rparr> = st" by simp
  with Nil show ?case by (simp add: flush_loop.simps fun_upd_idem)
next
  case (Cons p ps)
  let ?st1 = "st\<lparr>pending := ps\<rparr>"
  let ?s1 = "s\<lparr>channels := (channels s)(ch \<mapsto> ?st1)\<rparr>"
  let ?s2 = "wrote (reader_frames ch p st) (s\<lparr>channels := (channels s)(ch \<mapsto> after_queue ?st1)\<rparr>)"
  have inv1: "hub_inv ?s1"
    using hub_invD [OF Cons.prems(1,2)] Cons.prems
    by (intro hub_inv_channel) (auto simp: channel_inv_def)
  have "deliver_to_readers net ch p ?s1 = Some ?s2"
    using readers_ok [OF net inv1, of ch ?st1 p] by (simp add: reader_frames_def)
  then have step: "flush_loop net ch s = flush_loop net ch ?s2"
    using Cons.prems by (simp add: flush_loop.simps [of net ch s])
  have "channel_inv (clients s) ch (after_queue ?st1)"
    using hub_invD [OF inv1, of ch ?st1] by (intro channel_inv_queue) simp
  then have inv2: "hub_inv ?s2"
    using hub_inv_channel [OF Cons.prems(1)] by simp
  have pow: "(after_queue ^^ length ps) (after_queue ?st1)\<lparr>pending := []\<rparr> =
      (after_queue ^^ length (p # ps)) st\<lparr>pending := []\<rparr>"
    by (simp add: pow_pending flip: funpow_swap1)
  show ?case
    using Cons.IH [OF inv2, of "after_queue ?st1"] Cons.prems step pow
    by (simp add: wrote_channels fun_upd_def) (simp add: if_distrib cong: if_cong)
qed

text \<open>
  A reader that attaches to a channel with a publisher and no other reader is sent its \<open>Ack\<close> and
  then the whole backlog, every payload once and the oldest first; the backlog is empty afterwards.
\<close>

theorem first_reader_gets_backlog:
  assumes net: "no_failures net" and inv: "hub_inv s" and st: "channels s ch = Some st"
    and noreader: "\<not> channel_has_reader st" and w: "writers st \<noteq> []" and c: "clients s cid \<noteq> None"
    and mode: "mode = BroadcastIn \<or> mode = QueueIn"
  shows "\<exists>s'. register_attachment net cid ch mode s = Some (True, s') \<and> backlog ch s' = [] \<and>
    sent_frames s' = sent_frames s @ (cid, encode_ack) #
      map (\<lambda>p. (cid, encode_deliver ch mode p)) (pending st)"
proof -
  let ?st1 = "join_channel cid mode st"
  let ?s1 = "attach_client cid ch mode s"
  have join: "may_join mode st" using mode w by (auto simp: may_join_def)
  have inv1: "hub_inv ?s1" using hub_inv_attach [OF inv c st join] .
  have s1: "channels ?s1 ch = Some ?st1" "clients ?s1 cid \<noteq> None" "sent_frames ?s1 = sent_frames s"
    using st c by (auto simp: attach_client_def update_client_def update_channel_def)
  have st1: "channel_has_reader ?st1" "pending ?st1 = pending st"
    using mode by (auto simp: channel_has_reader_def)
  have frames: "flush_frames ch ps ((after_queue ^^ n) ?st1) = map (\<lambda>p. (cid, encode_deliver ch mode p)) ps" for ps n
  proof (induction ps arbitrary: n)
    case (Cons p ps)
    have "reader_frames ch p ((after_queue ^^ n) ?st1) = [(cid, encode_deliver ch mode p)]"
      using mode noreader pow_readers [of n ?st1]
      by (auto simp: reader_frames_def broadcast_frames_def queue_frames_def channel_has_reader_def)
    with Cons.IH [of "Suc n"] show ?case by simp
  qed simp
  obtain s' where flush: "flush_loop net ch (wrote [(cid, encode_ack)] ?s1) = Some s'"
    and s': "s' = wrote (flush_frames ch (pending st) ?st1)
       ((wrote [(cid, encode_ack)] ?s1)\<lparr>channels := (channels ?s1)(ch \<mapsto>
          ((after_queue ^^ length (pending st)) ?st1)\<lparr>pending := []\<rparr>)\<rparr>)"
    using flush_ok [OF net, of "wrote [(cid, encode_ack)] ?s1" ch ?st1 "pending st"] inv1 s1 st1 by simp
  have "flush_pending net ch (wrote [(cid, encode_ack)] ?s1) = Some s'"
    using flush s1(1) by (simp add: flush_pending_def channel_ref_def)
  then have "register_attachment net cid ch mode s = Some (True, s')"
    using st c w mode net s1(2)
    by (auto simp: register_attachment_def channel_ref_def attach_client_def Let_def
        simp del: update_channel_Some)
  moreover have "backlog ch s' = []"
    by (simp add: s' backlog_def)
  moreover have "sent_frames s' = sent_frames s @ (cid, encode_ack) #
      map (\<lambda>p. (cid, encode_deliver ch mode p)) (pending st)"
    using frames [of "pending st" 0] s1(3) by (simp add: s' wrote_def)
  ultimately show ?thesis by blast
qed

definition waiting_hub :: daemon_state where
  "waiting_hub = new_daemon\<lparr>
     channels := [''ticks'' \<mapsto> new_channel\<lparr>writers := [1], pending := [[7], [8]]\<rparr>],
     clients := [1 \<mapsto> sample_client Writer, 2 \<mapsto> new_client]\<rparr>"

theorem first_reader_gets_backlog_witness:
  "\<exists>s'. register_attachment (\<lambda>_. True) 2 ''ticks'' QueueIn waiting_hub = Some (True, s') \<and>
    backlog ''ticks'' s' = [] \<and>
    sent_frames s' = [(2, encode_ack), (2, encode_deliver ''ticks'' QueueIn [7]),
      (2, encode_deliver ''ticks'' QueueIn [8])]"
proof -
  have inv: "hub_inv waiting_hub"
    by (auto simp: hub_inv_def waiting_hub_def channel_inv_def attached_def sample_client_def
        new_channel_def max_pending_def split: if_splits)
  show ?thesis
    using first_reader_gets_backlog [of "\<lambda>_. True" waiting_hub "''ticks''"
        "new_channel\<lparr>writers := [1], pending := [[7], [8]]\<rparr>" 2 QueueIn] inv
    by (simp add: no_failures_def waiting_hub_def new_daemon_def new_channel_def channel_has_reader_def)
qed

text \<open>
  Without a reader, and from a client that is no channel peer, a publish is kept: the payload
  joins the end of the backlog and the publisher gets its \<open>Ack\<close>, unless the backlog is full, when
  the publisher gets an error and the backlog stays as it is.
\<close>

theorem publish_without_reader:
  assumes "no_failures net" "channels s ch = Some st" "\<not> channel_has_reader st"
    "w \<notin> set (channel_peers st)" "clients s w \<noteq> None"
  shows "publish_message net w ch p s = Some (True,
    (if length (pending st) < max_pending
     then wrote [(w, encode_ack)] (s\<lparr>channels := (channels s)(ch \<mapsto> st\<lparr>pending := pending st @ [p]\<rparr>)\<rparr>)
     else wrote [(w, encode_error (''pipe `'' @ ch @ ''` pending queue is full''))] s))"
  using assms by (auto simp: publish_message_def channel_ref_def)

theorem publish_without_reader_witness:
  "publish_message (\<lambda>_. True) 1 ''ticks'' [9] waiting_hub = Some (True,
     wrote [(1, encode_ack)] (waiting_hub\<lparr>channels :=
       [''ticks'' \<mapsto> new_channel\<lparr>writers := [1], pending := [[7], [8], [9]]\<rparr>]\<rparr>))"
  using publish_without_reader [of "\<lambda>_. True" waiting_hub "''ticks''"
      "new_channel\<lparr>writers := [1], pending := [[7], [8]]\<rparr>" 1 "[9]"]
  by (simp add: no_failures_def waiting_hub_def new_daemon_def new_channel_def channel_has_reader_def
      max_pending_def)

section \<open>No fault while writes succeed\<close>

lemma drain_ok:
  "no_failures net \<Longrightarrow> \<exists>s'. drain_to_peer net cid ch ps s = (True, s') \<and> clients s' = clients s"
proof (induction ps arbitrary: s)
  case (Cons p ps)
  let ?s1 = "wrote [(cid, encode_deliver ch ChannelPeer p)] (set_pending ch ps s)"
  obtain s' where "drain_to_peer net cid ch ps ?s1 = (True, s')" "clients s' = clients ?s1"
    using Cons by blast
  with Cons.prems show ?case by simp
qed simp

lemma push_backlog_clients [simp]: "clients (push_backlog net cid ch ps s) = clients s"
  by (induction ps arbitrary: s) (auto split: prod.split bool.split)

lemma channel_ref_ok:
  assumes "hub_inv s"
  obtains st s0 where "channel_ref ch s = (st, s0)" "channels s0 ch = Some st" "clients s0 = clients s"
    "hub_inv s0"
  using assms hub_inv_ref [of s ch] by (metis channel_ref_channels prod.collapse)

lemma flush_pending_ok:
  assumes "no_failures net" "hub_inv s" "channels s ch = Some st"
  shows "\<exists>s'. flush_pending net ch s = Some s' \<and> clients s' = clients s"
proof (cases "channel_has_reader st")
  case True
  with flush_ok [OF assms(1-3) refl] assms(3) show ?thesis
    by (simp add: flush_pending_def channel_ref_def)
next
  case False
  with assms(3) show ?thesis
    by (simp add: flush_pending_def channel_ref_def flush_loop.simps [of net ch s])
qed

definition handled :: "client_id \<Rightarrow> daemon_state \<Rightarrow> (bool \<times> daemon_state) option \<Rightarrow> bool" where
  "handled cid s r \<longleftrightarrow> (\<exists>ok s'. r = Some (ok, s') \<and> dom (clients s') = dom (clients s))"

lemma handled_Some [simp]: "handled cid s (Some (ok, s')) \<longleftrightarrow> dom (clients s') = dom (clients s)"
  by (auto simp: handled_def)

lemma register_ok:
  assumes net: "no_failures net" and inv: "hub_inv s" and c: "clients s cid \<noteq> None"
  shows "handled cid s (register_attachment net cid ch mode s)"
proof -
  obtain st s0 where ref: "channel_ref ch s = (st, s0)" "channels s0 ch = Some st"
      "clients s0 = clients s" "hub_inv s0"
    using channel_ref_ok [OF inv] by blast
  show ?thesis
  proof (cases "may_join mode st")
    case False
    with ref net c show ?thesis
      by (auto simp: register_attachment_def may_join_def not_less)
  next
    case True
    let ?s1 = "attach_client cid ch mode s0"
    let ?s2 = "wrote [(cid, encode_ack)] ?s1"
    have inv2: "hub_inv ?s2"
      using hub_inv_attach [OF ref(4) _ ref(2) True, of cid] c ref(3) by simp
    have cl: "clients ?s1 cid \<noteq> None" "dom (clients ?s1) = dom (clients s)"
      using c ref(3) by (auto simp: attach_client_def update_client_def)
    have ch: "channels ?s2 ch = Some (join_channel cid mode st)"
      using ref(2) by (simp add: attach_client_def update_channel_def)
    obtain s3 where s3: "flush_pending net ch ?s2 = Some s3" "clients s3 = clients ?s2"
      using flush_pending_ok [OF net inv2 ch] by blast
    obtain s4 where s4: "drain_to_peer net cid ch (backlog ch ?s2) ?s2 = (True, s4)" "clients s4 = clients ?s2"
      using drain_ok [OF net] by blast
    have "register_attachment net cid ch mode s =
      (if mode = BroadcastIn \<or> mode = QueueIn then Some (True, s3)
       else if mode = ChannelPeer then Some (True, s4) else Some (True, ?s2))"
      using ref(1) net True cl(1) s3(1) s4(1) c [folded ref(3)]
      by (cases mode)
         (simp_all add: register_attachment_def may_join_def attach_client_def Let_def not_le
           del: update_channel_Some)
    with s3(2) s4(2) cl(2) show ?thesis by (cases mode) simp_all
  qed
qed

lemma publish_ok:
  assumes net: "no_failures net" and inv: "hub_inv s" and c: "clients s cid \<noteq> None"
  shows "handled cid s (publish_message net cid ch p s)"
proof -
  obtain st s0 where ref: "channel_ref ch s = (st, s0)" "channels s0 ch = Some st"
      "clients s0 = clients s" "hub_inv s0"
    using channel_ref_ok [OF inv] by blast
  have c0: "clients s0 cid \<noteq> None" using c ref(3) by simp
  show ?thesis
  proof (cases "cid \<in> set (channel_peers st)")
    case True
    obtain d s1 where d: "deliver_to_peers net cid ch p (channel_peers st) False s0 = (d, s1)"
      by fastforce
    then have cl: "clients s1 = clients s0" by (simp add: deliver_to_peers_channels)
    have ok: "send_ack net cid s' = (True, wrote [(cid, encode_ack)] s')"
      "send_error net cid e s' = (True, wrote [(cid, encode_error e)] s')"
      if "clients s' = clients s0" for s' e
      using net c0 that by simp_all
    show ?thesis
      using ref True d cl
      by (simp add: publish_message_def publish_to_peers_def ok Let_def
          split: bool.split)
  next
    case False
    with ref readers_ok [OF net ref(4,2), of p] net c0 show ?thesis
      by (simp add: publish_message_def)
  qed
qed

lemma offer_ok:
  assumes net: "no_failures net" and inv: "hub_inv s" and c: "clients s cid \<noteq> None"
  shows "handled cid s (handle_channel_offer net cid ch s)"
proof -
  obtain st s0 where ref: "channel_ref ch s = (st, s0)" "channels s0 ch = Some st"
      "clients s0 = clients s" "hub_inv s0"
    using channel_ref_ok [OF inv] by blast
  have c0: "clients s0 cid \<noteq> None" using c ref(3) by simp
  then show ?thesis
    using ref net by (auto simp: handle_channel_offer_def Let_def)
qed

lemma recv_ready_ok:
  assumes net: "no_failures net" and inv: "hub_inv s" and c: "clients s cid \<noteq> None"
  shows "handled cid s (handle_channel_recv_ready net cid ch s)"
proof -
  obtain st s0 where ref: "channel_ref ch s = (st, s0)" "channels s0 ch = Some st"
      "clients s0 = clients s" "hub_inv s0"
    using channel_ref_ok [OF inv] by blast
  have c0: "clients s0 cid \<noteq> None" using c ref(3) by simp
  have offerer: "have_offer st \<Longrightarrow> clients s0 (offer_from st) \<noteq> None"
    using listed_live [OF hub_invD [OF ref(4,2)]] hub_invD [OF ref(4,2)] by (simp add: channel_inv_def)
  have drain: "\<exists>s'. drain_to_peer net cid ch ps s1 = (True, s') \<and> clients s' = clients s1" for ps s1
    using drain_ok [OF net] by blast
  define s1 where "s1 = (if have_offer st \<and> offer_from st \<noteq> cid
    then wrote [(offer_from st, encode_channel_op ChannelAccept ch)]
      (update_channel ch (\<lambda>st. st\<lparr>have_offer := False, offer_from := 0\<rparr>) s0) else s0)"
  have cl1: "clients s1 = clients s0" by (simp add: s1_def)
  obtain s2 where s2: "drain_to_peer net cid ch (backlog ch s1) s1 = (True, s2)" "clients s2 = clients s1"
    using drain by blast
  show ?thesis
  proof (cases "cid \<in> set (channel_peers st)")
    case False
    with ref net c0 show ?thesis by (auto simp: handle_channel_recv_ready_def)
  next
    case True
    have "handle_channel_recv_ready net cid ch s = Some (True,
        update_channel ch (\<lambda>st. st\<lparr>have_recv_ready := True, recv_ready := cid\<rparr>) s2)"
    proof (cases "have_offer st \<and> offer_from st \<noteq> cid")
      case o: True
      with True ref net c0 offerer s2(1) show ?thesis
        by (simp add: handle_channel_recv_ready_def Let_def s1_def del: update_channel_Some)
    next
      case o: False
      with True ref net c0 s2(1) show ?thesis
        by (auto simp: handle_channel_recv_ready_def Let_def s1_def simp del: update_channel_Some)
    qed
    with s2 cl1 ref show ?thesis by simp
  qed
qed

lemma handle_message_ok:
  assumes "no_failures net" "hub_inv s" "clients s cid \<noteq> None" "msg_kind m \<noteq> Bye"
  shows "handled cid s (handle_message net cid m s)"
proof (cases "msg_kind m")
  case Hello
  with assms show ?thesis by (auto simp: handle_message_def handled_def update_client_def)
next
  case Attach
  with register_ok [OF assms(1-3), of "msg_channel m" "msg_mode m"] show ?thesis
    by (auto simp: handle_message_def handled_def)
next
  case Detach
  with assms show ?thesis
    by (auto simp: handle_message_def handled_def unregister_attachment_def update_client_def)
next
  case ChannelDataAck
  obtain st s0 where "channel_ref (msg_channel m) s = (st, s0)" "clients s0 = clients s"
    using channel_ref_ok [OF assms(2)] by blast
  with ChannelDataAck show ?thesis
    by (auto simp: handle_message_def handled_def handle_channel_data_ack_def)
qed (use assms publish_ok offer_ok recv_ready_ok in \<open>simp_all add: handle_message_def\<close>)

text \<open>A message whose frame is well formed: sendable, and its length fits the header.\<close>

definition framable :: "message \<Rightarrow> bool" where
  "framable m \<longleftrightarrow> sendable m \<and> \<not> exceeds_u32 (length (drop 4 (encode_message m)))"

lemma encode_message_frame:
  "encode_message m = encode_frame (drop 4 (encode_message m))"
proof -
  have "\<exists>b. encode_message m = encode_frame b"
    by (cases "msg_kind m")
      (auto simp: encode_message_def encode_hello_def encode_bye_def encode_attach_def
        encode_detach_def encode_publish_def encode_deliver_def encode_ack_def encode_error_def
        encode_channel_op_def)
  then show ?thesis by (auto simp: drop_frame)
qed

lemma take_header_frame:
  assumes "framable m" "client_input c = encode_message m @ rest" "\<not> have_header c"
  shows "take_header c = Some (c\<lparr>client_input := drop 4 (encode_message m) @ rest,
    frame_size := length (drop 4 (encode_message m)), have_header := True\<rparr>)"
proof -
  obtain h b where hb: "encode_message m = h @ b" "h = le_bytes 4 (word_of_nat (length b) :: u32)"
    using encode_message_frame [of m] unfolding encode_frame_def append_u32_eq append_Nil by blast
  then have len: "length h = 4" by simp
  with hb(1) have b: "drop 4 (encode_message m) = b" by simp
  have "unat (le_word h :: u32) = length b"
    using assms(1) unfolding hb(2) framable_def b by (simp add: le_word_le_bytes unat_length_u32)
  with assms(2,3) len show ?thesis
    unfolding b hb(1) by (simp add: take_header_def)
qed

text \<open>One whole frame in the buffer is one call of the handler on the message in it.\<close>

lemma process_frame:
  assumes "clients s cid = Some c" "\<not> have_header c" "client_input c = encode_message m @ rest" "framable m"
  shows "process_client_input net cid s =
    (case handle_message net cid m
        (s\<lparr>clients := (clients s)(cid \<mapsto> c\<lparr>client_input := rest, have_header := False, frame_size := 0\<rparr>)\<rparr>) of
       None \<Rightarrow> None
     | Some (ok, s') \<Rightarrow> if ok then process_client_input net cid s' else Some s')"
proof -
  let ?b = "drop 4 (encode_message m)"
  have "decode_message (?b @ rest) (length ?b) = Some (m, False)"
    using encode_message_decodes [of m] assms(4) by (simp add: framable_def decodes_to_def)
  with take_header_frame [OF assms(4,3,2)] assms(1) show ?thesis
    by (subst process_client_input.simps) (simp add: drop_frame_body_def)
qed

lemma process_ok:
  assumes "no_failures net" "\<forall>m \<in> set ms. framable m" "length part < 4"
  shows "hub_inv s \<Longrightarrow> clients s cid = Some c \<Longrightarrow> \<not> have_header c \<Longrightarrow>
    client_input c = concat (map encode_message ms) @ part \<Longrightarrow>
    \<exists>s'. process_client_input net cid s = Some s'"
  using assms(2)
proof (induction ms arbitrary: s c)
  case Nil
  then have "take_header c = None" using assms(3) by (simp add: take_header_def)
  with Nil show ?case by (subst process_client_input.simps) simp
next
  case (Cons m ms)
  let ?rest = "concat (map encode_message ms) @ part"
  let ?c = "c\<lparr>client_input := ?rest, have_header := False, frame_size := 0\<rparr>"
  let ?s = "s\<lparr>clients := (clients s)(cid \<mapsto> ?c)\<rparr>"
  have m: "framable m" using Cons.prems(5) by simp
  note p = process_frame [OF Cons.prems(2,3) _ m, of ?rest net]
  have inv: "hub_inv ?s"
    by (intro hub_inv_clients [OF Cons.prems(1)] attached_upd) (use Cons.prems(2) in auto)
  show ?case
  proof (cases "msg_kind m = Bye")
    case True
    with p Cons.prems(4) show ?thesis by (simp add: handle_message_def)
  next
    case False
    obtain ok s3 where h: "handle_message net cid m ?s = Some (ok, s3)" "dom (clients s3) = dom (clients ?s)"
      using handle_message_ok [OF assms(1) inv _ False, of cid] by (auto simp: handled_def)
    have "clients s3 cid \<noteq> None" using h(2) by (auto simp: dom_def set_eq_iff)
    then obtain c3 where c3: "clients s3 cid = Some c3" by blast
    then have same: "same_input ?c c3"
      using kept.R_handle_message [OF h(1)] by (fastforce simp: inputs_kept_def)
    have "hub_inv s3" using inv.R_handle_message [OF h(1)] inv by blast
    with Cons.IH [OF _ c3] Cons.prems(5) same have "\<exists>s'. process_client_input net cid s3 = Some s'"
      by (simp add: same_input_def)
    with p Cons.prems(4) h(1) show ?thesis by (cases ok) auto
  qed
qed



text \<open>
  C20. A client that does not keep to it brings the hub down: four zero bytes, a frame without even
  an opcode, make \<open>decode_message\<close> read outside the hub's buffer, and so does a \<open>Publish\<close> frame
  that ends right after its opcode. No write need fail for it.
\<close>

theorem truncated_frame_faults:
  assumes "clients s cid = Some c" "\<not> have_header c" "client_input c = []"
  shows "ingest_bytes net cid [0, 0, 0, 0] s = None \<and>
    ingest_bytes net cid [1, 0, 0, 0, opcode_u8 Publish] s = None"
proof -
  note [simp del] = opcode_u8.simps
  note defs = ingest_bytes_def update_client_def process_client_input.simps take_header_def
      decode_message_def reader_u8_def reader_read_def new_reader_def decode_fields_def
      reader_string_def reader_u32_def
  show ?thesis
    using assms by (simp add: defs named_opcode_def wire_simps)
qed

theorem truncated_frame_faults_witness:
  "ingest_bytes (\<lambda>_. True) 2 [0, 0, 0, 0] sample_hub = None \<and>
   ingest_bytes (\<lambda>_. True) 2 [1, 0, 0, 0, opcode_u8 Publish] sample_hub = None"
  by (rule truncated_frame_faults [where c = "sample_client BroadcastIn"])
     (simp_all add: sample_hub_def sample_client_def new_client_def)

section \<open>A client that is gone, and what failing writes lead to\<close>

lemma close_unlisted:
  assumes "hub_inv s" "channels (close_client cid s) ch = Some st"
  shows "unlisted cid st" "channel_inv ((clients s)(cid := None)) ch st"
proof -
  show inv: "channel_inv ((clients s)(cid := None)) ch st"
    using hub_invD [OF hub_inv_close [OF assms(1)] assms(2)] by simp
  then show "unlisted cid st"
    using listed_attached [OF inv, of cid] by (auto simp: attached_def)
qed

text \<open>
  C21. Once a client is closed, no channel remembers it: it is in none of the lists, and no offer or
  receive announcement of its is left pending.
\<close>

theorem closed_client_forgotten:
  assumes "hub_inv s" "channels (close_client cid s) ch = Some st"
  shows "unlisted cid st \<and> \<not> (have_offer st \<and> offer_from st = cid) \<and>
    \<not> (have_recv_ready st \<and> recv_ready st = cid)"
  using close_unlisted [OF assms] by (auto simp: channel_inv_def unlisted_def)

theorem closed_client_forgotten_witness:
  "channels (close_client 2 sample_hub) ''ticks'' = Some (sample_channel\<lparr>broadcast_readers := []\<rparr>) \<and>
   unlisted 2 (sample_channel\<lparr>broadcast_readers := []\<rparr>)"
proof -
  have h: "channels (close_client 2 sample_hub) ''ticks'' = Some (sample_channel\<lparr>broadcast_readers := []\<rparr>)"
    by (simp add: close_client_def sample_hub_def sample_client_def leave_channel_def Let_def
        maybe_erase_channel_def sample_channel_def new_channel_def remove_client_from_channel_def
        channel_has_reader_def new_client_def)
  show ?thesis using h closed_client_forgotten [OF sample_hub_inv h] by blast
qed

text \<open>
  C22. A copy to a subscriber that cannot be written is not survived: \<open>close_client\<close> erases the
  subscriber from the vector the delivery loop is walking.
\<close>

theorem failed_broadcast_faults:
  assumes "hub_inv s" "channels s ch = Some st" "broadcast_readers st = r # rs" "\<not> net (write_count s)"
  shows "deliver_to_readers net ch p s = None"
proof -
  obtain c where c: "clients s r = Some c"
    using listed_live [OF hub_invD [OF assms(1,2)], of r] assms(3) by auto
  let ?s1 = "s\<lparr>write_count := Suc (write_count s)\<rparr>"
  have w: "deliver_payload net r ch BroadcastIn p s = (False, ?s1)"
    using assms(4) by (simp add: deliver_payload_def deliver_to_client_def)
  have "hub_inv ?s1" using assms(1) by (simp add: hub_inv_def)
  then have "r \<notin> set (broadcast_readers st')" if "channels (close_client r ?s1) ch = Some st'" for st'
    using close_unlisted that by (auto simp: unlisted_def)
  then have "map_option broadcast_readers (channels (close_client r ?s1) ch) \<noteq> Some (r # rs)"
    by (auto dest: sym)
  with assms c w show ?thesis
    by (auto simp: deliver_to_readers_def channel_ref_def Let_def)
qed

theorem failed_broadcast_faults_witness:
  "publish_message (\<lambda>_. False) 1 ''ticks'' [7] sample_hub = None \<and>
   deliver_to_readers (\<lambda>_. False) ''ticks'' [7] sample_hub = None"
proof -
  have "deliver_to_readers (\<lambda>_. False) ''ticks'' [7] sample_hub = None"
    by (rule failed_broadcast_faults [OF sample_hub_inv, of _ sample_channel 2 "[]"])
      (simp_all add: sample_hub_def sample_channel_def)
  moreover have "channel_ref ''ticks'' sample_hub = (sample_channel, sample_hub)"
    by (simp add: channel_ref_def sample_hub_def)
  ultimately show ?thesis
    by (simp add: publish_message_def sample_channel_def channel_has_reader_def new_channel_def)
qed

lemma send_ack_fails:
  assumes "clients s cid \<noteq> None" "\<not> net (write_count s)"
  shows "\<exists>s'. send_ack net cid s = (False, s') \<and> clients s' cid = None"
proof -
  let ?s1 = "s\<lparr>write_count := Suc (write_count s)\<rparr>"
  have "deliver_to_client net cid encode_ack s = (False, ?s1)"
    using assms(2) by (simp add: deliver_to_client_def)
  then have "send_ack net cid s = (False, close_client cid ?s1)"
    using assms(1) by (cases "clients s cid") (simp_all add: send_ack_def send_frame_def)
  moreover have "clients (close_client cid ?s1) cid = None"
    by (cases "clients s cid") (simp_all add: close_client_def Let_def)
  ultimately show ?thesis by blast
qed

text \<open>
  An attach whose acknowledgement cannot be written closes the client inside
  \<open>register_attachment\<close>, yet \<open>handle_message\<close> still answers that the client may go on, so the loop of
  \<open>process_client_input\<close> continues with a reference to the erased client.
\<close>

theorem attach_with_failing_ack_faults:
  assumes "clients s cid \<noteq> None" "\<not> net (write_count s)"
    "msg_kind m = Attach" "msg_mode m = Writer"
  shows "\<exists>s'. handle_message net cid m s = Some (True, s') \<and> clients s' cid = None \<and>
    process_client_input net cid s' = None"
proof -
  obtain st s0 where r: "channel_ref (msg_channel m) s = (st, s0)" "clients s0 = clients s"
      "write_count s0 = write_count s"
    by (cases "channels s (msg_channel m)") (auto simp: channel_ref_def)
  let ?s2 = "update_channel (msg_channel m) (join_channel cid Writer)
    (update_client cid (\<lambda>c. c\<lparr>attachments := attachments c @ [(msg_channel m, Writer)]\<rparr>) s0)"
  have "clients ?s2 cid \<noteq> None" "\<not> net (write_count ?s2)"
    using r assms(1,2) by (simp_all add: update_channel_def update_client_def)
  then obtain s' where a: "send_ack net cid ?s2 = (False, s')" "clients s' cid = None"
    using send_ack_fails by blast
  have "handle_message net cid m s = Some (True, s')"
    using assms(1) by (simp add: handle_message_def register_attachment_def assms(3,4) r(1,2) a(1))
  with a(2) show ?thesis by (simp add: process_client_input.simps)
qed

theorem attach_with_failing_ack_faults_witness:
  "\<exists>s'. handle_message (\<lambda>_. False) 1
       (blank_message\<lparr>msg_kind := Attach, msg_channel := ''news'', msg_mode := Writer\<rparr>) sample_hub =
       Some (True, s') \<and> clients s' 1 = None \<and> process_client_input (\<lambda>_. False) 1 s' = None"
  by (rule attach_with_failing_ack_faults) (simp_all add: sample_hub_def blank_message_def)

end
