(* ===== verification/Bytecode.thy ===== *)
theory Bytecode
  imports Munx_Prelude "HOL-Library.Monad_Syntax"
begin

text \<open>
  The instruction set (\<open>Opcode.hpp\<close>) and the static cursor over a code blob that the optimizers and
  the JIT share (\<open>jit/bytecode_utils.hpp\<close>): operand readers, recursive type operands, and
  \<open>skip_instruction\<close>. The code runs without a compile context at run time, so \<open>fail_compile\<close> aborts
  the process; \<open>None\<close> is that abort.
\<close>

section \<open>Opcodes\<close>

datatype (plugins only: code) opcode =
  PUSH_INT | PUSH_FLOAT | PUSH_STRING | PUSH_CHAR | PUSH_BOOL | PUSH_NULL | PUSH_REGEX
  | PUSH_ENUM | PUSH_FUNC | POP | DUP | SWAP | LOAD | STORE
  | ADD | SUB | MUL | DIV | MOD | NEG | EQ
  | NE | LT | GT | LE | GE | LOGICAL_NOT | BITWISE_AND
  | BITWISE_OR | BITWISE_XOR | BITWISE_NOT | JMP | JMP_IF_FALSE | JMP_IF_TRUE | CALL
  | RET | HALT | MAKE_ARRAY | MAKE_TUPLE | INDEX_GET | MEMBER_GET | UNPACK
  | CAST | ALLOC | FREE | CLONE_OBJECT | MAKE_SIMD | SIMD_TO_ARRAY | MAKE_MAP
  | PIPE_INSERT | PIPE_EXTRACT | CHANNEL_INSERT | CHANNEL_EXTRACT | DEFINE_ENUM | DEFINE_OBJECT | LOCK_CREATE
  | LOCK_ACQUIRE | LOCK_RELEASE | MONITOR_ENTER | MONITOR_EXIT | HINT_BRANCH

primrec op_u8 :: "opcode \<Rightarrow> byte" where
  "op_u8 PUSH_INT = 0"
| "op_u8 PUSH_FLOAT = 1"
| "op_u8 PUSH_STRING = 2"
| "op_u8 PUSH_CHAR = 3"
| "op_u8 PUSH_BOOL = 4"
| "op_u8 PUSH_NULL = 5"
| "op_u8 PUSH_REGEX = 6"
| "op_u8 PUSH_ENUM = 7"
| "op_u8 PUSH_FUNC = 8"
| "op_u8 POP = 9"
| "op_u8 DUP = 10"
| "op_u8 SWAP = 11"
| "op_u8 LOAD = 12"
| "op_u8 STORE = 13"
| "op_u8 ADD = 14"
| "op_u8 SUB = 15"
| "op_u8 MUL = 16"
| "op_u8 DIV = 17"
| "op_u8 MOD = 18"
| "op_u8 NEG = 19"
| "op_u8 EQ = 20"
| "op_u8 NE = 21"
| "op_u8 LT = 22"
| "op_u8 GT = 23"
| "op_u8 LE = 24"
| "op_u8 GE = 25"
| "op_u8 LOGICAL_NOT = 26"
| "op_u8 BITWISE_AND = 27"
| "op_u8 BITWISE_OR = 28"
| "op_u8 BITWISE_XOR = 29"
| "op_u8 BITWISE_NOT = 30"
| "op_u8 JMP = 31"
| "op_u8 JMP_IF_FALSE = 32"
| "op_u8 JMP_IF_TRUE = 33"
| "op_u8 CALL = 34"
| "op_u8 RET = 35"
| "op_u8 HALT = 36"
| "op_u8 MAKE_ARRAY = 37"
| "op_u8 MAKE_TUPLE = 38"
| "op_u8 INDEX_GET = 39"
| "op_u8 MEMBER_GET = 40"
| "op_u8 UNPACK = 41"
| "op_u8 CAST = 42"
| "op_u8 ALLOC = 43"
| "op_u8 FREE = 44"
| "op_u8 CLONE_OBJECT = 45"
| "op_u8 MAKE_SIMD = 46"
| "op_u8 SIMD_TO_ARRAY = 47"
| "op_u8 MAKE_MAP = 48"
| "op_u8 PIPE_INSERT = 49"
| "op_u8 PIPE_EXTRACT = 50"
| "op_u8 CHANNEL_INSERT = 51"
| "op_u8 CHANNEL_EXTRACT = 52"
| "op_u8 DEFINE_ENUM = 53"
| "op_u8 DEFINE_OBJECT = 54"
| "op_u8 LOCK_CREATE = 55"
| "op_u8 LOCK_ACQUIRE = 56"
| "op_u8 LOCK_RELEASE = 57"
| "op_u8 MONITOR_ENTER = 58"
| "op_u8 MONITOR_EXIT = 59"
| "op_u8 HINT_BRANCH = 60"

definition opcodes :: "opcode list" where
  "opcodes = [
     PUSH_INT, PUSH_FLOAT, PUSH_STRING, PUSH_CHAR, PUSH_BOOL, PUSH_NULL, PUSH_REGEX, PUSH_ENUM,
     PUSH_FUNC, POP, DUP, SWAP, LOAD, STORE, ADD, SUB, MUL, DIV, MOD, NEG, EQ, NE, LT, GT, LE,
     GE, LOGICAL_NOT, BITWISE_AND, BITWISE_OR, BITWISE_XOR, BITWISE_NOT, JMP, JMP_IF_FALSE,
     JMP_IF_TRUE, CALL, RET, HALT, MAKE_ARRAY, MAKE_TUPLE, INDEX_GET, MEMBER_GET, UNPACK, CAST,
     ALLOC, FREE, CLONE_OBJECT, MAKE_SIMD, SIMD_TO_ARRAY, MAKE_MAP, PIPE_INSERT, PIPE_EXTRACT,
     CHANNEL_INSERT, CHANNEL_EXTRACT, DEFINE_ENUM, DEFINE_OBJECT, LOCK_CREATE, LOCK_ACQUIRE,
     LOCK_RELEASE, MONITOR_ENTER, MONITOR_EXIT, HINT_BRANCH]"

text \<open>\<open>static_cast<Opcode>\<close> of a byte outside the enumeration names no opcode.\<close>

definition u8_op :: "byte \<Rightarrow> opcode option" where
  "u8_op b = List.find (\<lambda>op. op_u8 op = b) opcodes"

lemma opcodes_all: "set opcodes = UNIV"
proof -
  have "op \<in> set opcodes" for op by (cases op) (simp_all add: opcodes_def)
  then show ?thesis by blast
qed

lemma op_u8_list: "map op_u8 opcodes = map of_nat [0..<61]"
  by (simp add: opcodes_def upt_rec)

lemma op_u8_distinct: "distinct (map op_u8 opcodes)"
proof -
  have "inj_on (of_nat :: nat \<Rightarrow> byte) {0..<61}"
    by (rule inj_onI) (simp add: word_unat_eq_iff unat_of_nat)
  then show ?thesis by (simp add: op_u8_list distinct_map)
qed

lemma op_u8_inject [simp]: "op_u8 a = op_u8 b \<longleftrightarrow> a = b"
  using op_u8_distinct opcodes_all by (auto simp: distinct_map dest: inj_onD)

lemma find_inj: "x \<in> set xs \<Longrightarrow> inj_on f (set xs) \<Longrightarrow> List.find (\<lambda>y. f y = f x) xs = Some x"
  by (induction xs) (auto dest: inj_onD)

lemma u8_op_op_u8 [simp]: "u8_op (op_u8 op) = Some op"
  unfolding u8_op_def by (rule find_inj) (auto simp: opcodes_all intro: inj_onI)

lemma u8_op_Some: "u8_op b = Some op \<longleftrightarrow> b = op_u8 op"
  using u8_op_op_u8 [of op] by (auto simp: u8_op_def find_Some_iff simp del: u8_op_op_u8)

section \<open>The cursor\<close>

definition cur_u8 :: "byte list \<Rightarrow> nat \<Rightarrow> (byte \<times> nat) option" where
  "cur_u8 code pc = (if length code \<le> pc then None else Some (code ! pc, pc + 1))"

text \<open>\<open>read_scalar<uint32_t>\<close> and \<open>read_scalar<int64_t>\<close>: a copy of the bytes, least significant first.\<close>

definition cur_u32 :: "byte list \<Rightarrow> nat \<Rightarrow> (u32 \<times> nat) option" where
  "cur_u32 code pc = (if length code < pc + 4 then None else Some (le_word (take 4 (drop pc code)), pc + 4))"

definition cur_i64 :: "byte list \<Rightarrow> nat \<Rightarrow> (u64 \<times> nat) option" where
  "cur_i64 code pc = (if length code < pc + 8 then None else Some (le_word (take 8 (drop pc code)), pc + 8))"

definition cur_name :: "byte list \<Rightarrow> string \<Rightarrow> nat \<Rightarrow> (string \<times> nat) option" where
  "cur_name code strings pc = do {
     (offset, pc1) \<leftarrow> cur_u32 code pc;
     (len, pc2) \<leftarrow> cur_u32 code pc1;
     if length strings < unat offset \<or> length strings - unat offset < unat len then None
     else Some (take (unat len) (drop (unat offset) strings), pc2) }"

primrec cur_names :: "byte list \<Rightarrow> string \<Rightarrow> nat \<Rightarrow> nat \<Rightarrow> (string list \<times> nat) option" where
  "cur_names code strings 0 pc = Some ([], pc)"
| "cur_names code strings (Suc n) pc = do {
     (name, pc1) \<leftarrow> cur_name code strings pc;
     (rest, pc2) \<leftarrow> cur_names code strings n pc1;
     Some (name # rest, pc2) }"

text \<open>Type operands, with the tags of \<open>ast::type_kind\<close> and \<open>ast::primitive_kind\<close>.\<close>

datatype type_kind = PrimitiveType | NamedType | ArrayType | TupleType | MapType | LambdaType | OtherType byte

definition u8_type_kind :: "byte \<Rightarrow> type_kind" where
  "u8_type_kind b = (if b = 0 then PrimitiveType else if b = 1 then NamedType else if b = 2 then ArrayType
     else if b = 3 then TupleType else if b = 4 then MapType else if b = 5 then LambdaType else OtherType b)"

datatype decoded_type =
  DecodedType (dt_kind: type_kind) (dt_primitive: byte) (dt_name: string) (dt_elements: "decoded_type list")

text \<open>
  \<open>cur_types n\<close> reads \<open>n\<close> types in a row; \<open>read_type\<close> is the case of one. A type without a primitive
  part keeps the default \<open>Void\<close> (5). The recursion is on the elements and on the siblings, and both
  start further along the code.
\<close>

function cur_types :: "byte list \<Rightarrow> string \<Rightarrow> nat \<Rightarrow> nat \<Rightarrow> (decoded_type list \<times> nat) option" where
  "cur_types code strings 0 pc = Some ([], pc)"
| "cur_types code strings (Suc n) pc = do {
     (k, pc1) \<leftarrow> cur_u8 code pc;
     let kind = u8_type_kind k;
     (t, pc2) \<leftarrow>
       (case kind of
          PrimitiveType \<Rightarrow> do {
            (p, pc2) \<leftarrow> cur_u8 code pc1; Some (DecodedType kind p [] [], pc2) }
        | NamedType \<Rightarrow> do {
            (name, pc2) \<leftarrow> cur_name code strings pc1; Some (DecodedType kind 5 name [], pc2) }
        | ArrayType \<Rightarrow> do {
            (ts, pc2) \<leftarrow> cur_types code strings 1 pc1; Some (DecodedType kind 5 [] ts, pc2) }
        | TupleType \<Rightarrow> do {
            (count, pc2) \<leftarrow> cur_u32 code pc1;
            (ts, pc3) \<leftarrow> cur_types code strings (unat count) pc2; Some (DecodedType kind 5 [] ts, pc3) }
        | MapType \<Rightarrow> do {
            (ts, pc2) \<leftarrow> cur_types code strings 2 pc1; Some (DecodedType kind 5 [] ts, pc2) }
        | LambdaType \<Rightarrow> do {
            (count, pc2) \<leftarrow> cur_u32 code pc1;
            (ts, pc3) \<leftarrow> cur_types code strings (unat count + 1) pc2; Some (DecodedType kind 5 [] ts, pc3) }
        | OtherType _ \<Rightarrow> Some (DecodedType kind 5 [] [], pc1));
     (ts, pc3) \<leftarrow> cur_types code strings n pc2;
     Some (t # ts, pc3) }"
  by pat_completeness auto

lemma cur_u8_Some: "cur_u8 code pc = Some (b, pc') \<longleftrightarrow> pc < length code \<and> b = code ! pc \<and> pc' = pc + 1"
  by (auto simp: cur_u8_def)

lemma cur_u32_Some: "cur_u32 code pc = Some (w, pc') \<Longrightarrow> pc' = pc + 4 \<and> pc' \<le> length code"
  by (auto simp: cur_u32_def split: if_splits)

lemma cur_i64_Some: "cur_i64 code pc = Some (w, pc') \<Longrightarrow> pc' = pc + 8 \<and> pc' \<le> length code"
  by (auto simp: cur_i64_def split: if_splits)

lemma cur_name_Some: "cur_name code strings pc = Some (s, pc') \<Longrightarrow> pc' = pc + 8 \<and> pc' \<le> length code"
  by (auto simp: cur_name_def bind_eq_Some_conv split: if_splits dest!: cur_u32_Some)

lemma cur_names_Some:
  "cur_names code strings n pc = Some (s, pc') \<Longrightarrow> pc \<le> length code \<Longrightarrow> pc \<le> pc' \<and> pc' \<le> length code"
  by (induction n arbitrary: pc s) (fastforce simp: bind_eq_Some_conv dest!: cur_name_Some)+

lemma cur_types_progress:
  "cur_types_dom (code, strings, n, pc) \<Longrightarrow> cur_types code strings n pc = Some (ts, pc') \<Longrightarrow>
   pc \<le> length code \<Longrightarrow> pc \<le> pc' \<and> pc' \<le> length code"
proof (induction arbitrary: ts pc' rule: cur_types.pinduct)
  case (1 code strings pc)
  then show ?case by (simp add: cur_types.psimps)
next
  case (2 code strings n pc)
  note ps = cur_types.psimps(2) [OF "2.hyps"(1)]
  obtain k where k: "cur_u8 code pc = Some (k, pc + 1)" "pc + 1 \<le> length code"
    using "2.prems"(1) by (cases "pc < length code") (simp_all add: ps cur_u8_def)
  note IH = "2.IH" [OF k(1) refl refl]
  note ps = "2.prems"(1) [unfolded ps k(1)]
  show ?case
  proof (cases "u8_type_kind k")
    case PrimitiveType
    with ps obtain p pc2 ts' where e: "cur_u8 code (pc + 1) = Some (p, pc2)"
      and r: "cur_types code strings n pc2 = Some (ts', pc')"
      by (auto simp: bind_eq_Some_conv)
    have 1: "pc + 1 \<le> pc2 \<and> pc2 \<le> length code" using e by (simp add: cur_u8_Some)
    have "pc2 \<le> pc' \<and> pc' \<le> length code"
      by (rule IH(5) [OF _ refl r]) (use PrimitiveType e 1 in auto)
    with 1 show ?thesis by simp
  next
    case NamedType
    with ps obtain s pc2 ts' where e: "cur_name code strings (pc + 1) = Some (s, pc2)"
      and r: "cur_types code strings n pc2 = Some (ts', pc')"
      by (auto simp: bind_eq_Some_conv)
    have 1: "pc + 1 \<le> pc2 \<and> pc2 \<le> length code" using cur_name_Some [OF e] by simp
    have "pc2 \<le> pc' \<and> pc' \<le> length code"
      by (rule IH(5) [OF _ refl r]) (use NamedType e 1 in auto)
    with 1 show ?thesis by simp
  next
    case ArrayType
    with ps obtain es pc2 ts' where e: "cur_types code strings 1 (pc + 1) = Some (es, pc2)"
      and r: "cur_types code strings n pc2 = Some (ts', pc')"
      by (auto simp: bind_eq_Some_conv)
    have 1: "pc + 1 \<le> pc2 \<and> pc2 \<le> length code" by (rule IH(1) [OF ArrayType e k(2)])
    have "pc2 \<le> pc' \<and> pc' \<le> length code"
      by (rule IH(5) [OF _ refl r]) (use ArrayType e 1 in auto)
    with 1 show ?thesis by simp
  next
    case TupleType
    with ps obtain c pc1 es pc2 ts' where c: "cur_u32 code (pc + 1) = Some (c, pc1)"
      and e: "cur_types code strings (unat c) pc1 = Some (es, pc2)"
      and r: "cur_types code strings n pc2 = Some (ts', pc')"
      by (auto simp: bind_eq_Some_conv)
    have 1: "pc1 \<le> pc2 \<and> pc2 \<le> length code"
      by (rule IH(2) [OF TupleType c refl e]) (use cur_u32_Some [OF c] in simp)
    have "pc2 \<le> pc' \<and> pc' \<le> length code"
      by (rule IH(5) [OF _ refl r]) (use TupleType c e 1 in auto)
    with 1 cur_u32_Some [OF c] show ?thesis by simp
  next
    case MapType
    with ps obtain es pc2 ts' where e: "cur_types code strings 2 (pc + 1) = Some (es, pc2)"
      and r: "cur_types code strings n pc2 = Some (ts', pc')"
      by (auto simp: bind_eq_Some_conv)
    have 1: "pc + 1 \<le> pc2 \<and> pc2 \<le> length code" by (rule IH(3) [OF MapType e k(2)])
    have "pc2 \<le> pc' \<and> pc' \<le> length code"
      by (rule IH(5) [OF _ refl r]) (use MapType e 1 in auto)
    with 1 show ?thesis by simp
  next
    case LambdaType
    with ps obtain c pc1 es pc2 ts' where c: "cur_u32 code (pc + 1) = Some (c, pc1)"
      and e: "cur_types code strings (unat c + 1) pc1 = Some (es, pc2)"
      and r: "cur_types code strings n pc2 = Some (ts', pc')"
      by (auto simp: bind_eq_Some_conv)
    have 1: "pc1 \<le> pc2 \<and> pc2 \<le> length code"
      by (rule IH(4) [OF LambdaType c refl e]) (use cur_u32_Some [OF c] in simp)
    have "pc2 \<le> pc' \<and> pc' \<le> length code"
      by (rule IH(5) [OF _ refl r]) (use LambdaType c e 1 in auto)
    with 1 cur_u32_Some [OF c] show ?thesis by simp
  next
    case (OtherType b)
    with ps obtain ts' where r: "cur_types code strings n (pc + 1) = Some (ts', pc')"
      by (auto simp: bind_eq_Some_conv)
    have "pc + 1 \<le> pc' \<and> pc' \<le> length code"
      by (rule IH(5) [OF _ refl r]) (use OtherType k(2) in auto)
    then show ?thesis by simp
  qed
qed

lemma cur_types_all: "All cur_types_dom"
proof (rule "cur_types.termination" [of "measures [\<lambda>(code, strings, n, pc). length code - pc,
    \<lambda>(code, strings, n, pc). n]"], goal_cases)
  case (6 code strings n pc a k pc1 kind aa t pc2)
  then have pc1: "pc1 = pc + 1" "pc1 \<le> length code"
    by (auto simp: cur_u8_Some)
  have "pc1 \<le> pc2"
  proof (cases kind)
    case PrimitiveType
    with 6 show ?thesis by (auto simp: bind_eq_Some_conv cur_u8_Some)
  next
    case NamedType
    with 6 show ?thesis by (auto simp: bind_eq_Some_conv dest!: cur_name_Some)
  next
    case ArrayType
    with 6 show ?thesis using cur_types_progress pc1(2) by (auto simp: bind_eq_Some_conv)
  next
    case TupleType
    with 6 obtain c q es where c: "cur_u32 code pc1 = Some (c, q)"
      and e: "cur_types code strings (unat c) q = Some (es, pc2)"
      by (auto simp: bind_eq_Some_conv)
    with 6(8) TupleType have "cur_types_dom (code, strings, unat c, q)" by blast
    from cur_types_progress [OF this e] cur_u32_Some [OF c] show ?thesis by simp
  next
    case MapType
    with 6 show ?thesis using cur_types_progress pc1(2) by (auto simp: bind_eq_Some_conv)
  next
    case LambdaType
    with 6 obtain c q es where c: "cur_u32 code pc1 = Some (c, q)"
      and e: "cur_types code strings (unat c + 1) q = Some (es, pc2)"
      by (auto simp: bind_eq_Some_conv)
    with 6(6) LambdaType have "cur_types_dom (code, strings, unat c + 1, q)" by blast
    from cur_types_progress [OF this e] cur_u32_Some [OF c] show ?thesis by simp
  next
    case (OtherType b)
    with 6(4,5) show ?thesis by auto
  qed
  with pc1 show ?case by auto
qed (auto simp: cur_u8_Some dest: cur_u32_Some)

termination cur_types
  by (rule cur_types_all)

declare cur_types.simps(2) [simp del]

definition read_type :: "byte list \<Rightarrow> string \<Rightarrow> nat \<Rightarrow> (decoded_type \<times> nat) option" where
  "read_type code strings pc = do { (ts, pc1) \<leftarrow> cur_types code strings 1 pc; Some (hd ts, pc1) }"

section \<open>Skipping an instruction\<close>

text \<open>
  What the switch of \<open>skip_instruction\<close> does after the opcode byte. The eight bytes of \<open>PUSH_INT\<close>
  and \<open>PUSH_FLOAT\<close> are stepped over without looking whether they are there.
\<close>

definition skip_operands :: "opcode \<Rightarrow> byte list \<Rightarrow> string \<Rightarrow> nat \<Rightarrow> nat option" where
  "skip_operands op code strings pc =
     (if op \<in> {PUSH_INT, PUSH_FLOAT} then Some (pc + 8)
      else if op \<in> {PUSH_CHAR, PUSH_BOOL, HINT_BRANCH, CALL, UNPACK} then map_option snd (cur_u8 code pc)
      else if op = PUSH_ENUM then do {
        (_, pc1) \<leftarrow> cur_name code strings pc; (_, pc2) \<leftarrow> cur_name code strings pc1; Some pc2 }
      else if op \<in> {PUSH_STRING, PUSH_REGEX, PUSH_FUNC, LOAD, STORE, MEMBER_GET, FREE, PIPE_INSERT,
        PIPE_EXTRACT, CHANNEL_INSERT, CHANNEL_EXTRACT, LOCK_CREATE, LOCK_ACQUIRE, LOCK_RELEASE}
      then map_option snd (cur_name code strings pc)
      else if op \<in> {JMP, JMP_IF_FALSE, JMP_IF_TRUE, MONITOR_ENTER, MAKE_ARRAY, MAKE_TUPLE, MAKE_MAP, ALLOC}
      then map_option snd (cur_u32 code pc)
      else if op = CAST then map_option snd (read_type code strings pc)
      else if op \<in> {DEFINE_ENUM, DEFINE_OBJECT} then do {
        (_, pc1) \<leftarrow> cur_name code strings pc;
        (count, pc2) \<leftarrow> cur_u32 code pc1;
        (_, pc3) \<leftarrow> cur_names code strings (unat count) pc2;
        Some pc3 }
      else Some pc)"

definition skip_instruction :: "byte list \<Rightarrow> string \<Rightarrow> nat \<Rightarrow> (opcode option \<times> nat) option" where
  "skip_instruction code strings start = do {
     (b, pc) \<leftarrow> cur_u8 code start;
     (case u8_op b of
        None \<Rightarrow> Some (None, pc)
      | Some op \<Rightarrow> map_option (Pair (Some op)) (skip_operands op code strings pc)) }"

definition append_u8 :: "byte list \<Rightarrow> byte \<Rightarrow> byte list" where
  "append_u8 out b = out @ [b]"

definition append_u32 :: "byte list \<Rightarrow> u32 \<Rightarrow> byte list" where
  "append_u32 out w = out @ le_bytes 4 w"

definition append_i64 :: "byte list \<Rightarrow> u64 \<Rightarrow> byte list" where
  "append_i64 out w = out @ le_bytes 8 w"

lemma cur_types_Some:
  "cur_types code strings n pc = Some (ts, pc') \<Longrightarrow> pc \<le> length code \<Longrightarrow> pc \<le> pc' \<and> pc' \<le> length code"
  using cur_types_progress [OF spec [OF cur_types_all]] by blast

lemma read_type_Some:
  "read_type code strings pc = Some (t, pc') \<Longrightarrow> pc \<le> length code \<Longrightarrow> pc \<le> pc' \<and> pc' \<le> length code"
  by (auto simp: read_type_def bind_eq_Some_conv dest!: cur_types_Some)

lemma skip_operands_progress:
  assumes "skip_operands op code strings pc = Some pc'" "pc \<le> length code"
  shows "pc \<le> pc'" "op \<notin> {PUSH_INT, PUSH_FLOAT} \<Longrightarrow> pc' \<le> length code"
  using assms
  by (auto simp: skip_operands_def bind_eq_Some_conv cur_u8_Some split: if_splits
      dest!: cur_name_Some cur_u32_Some read_type_Some cur_names_Some)

lemma skip_instruction_forward:
  assumes "skip_instruction code strings pc = Some (op, pc')"
  shows "pc < pc' \<and> (op \<noteq> Some PUSH_INT \<and> op \<noteq> Some PUSH_FLOAT \<longrightarrow> pc' \<le> length code) \<and>
    pc' \<le> length code + 8"
proof -
  obtain b where b: "pc < length code" "b = code ! pc"
    and o: "case u8_op b of None \<Rightarrow> op = None \<and> pc' = pc + 1
      | Some op' \<Rightarrow> op = Some op' \<and> skip_operands op' code strings (pc + 1) = Some pc'"
    using assms by (auto simp: skip_instruction_def bind_eq_Some_conv cur_u8_Some split: option.splits)
  show ?thesis
  proof (cases "u8_op b")
    case None
    with b o show ?thesis by simp
  next
    case (Some op')
    with o have s: "op = Some op'" "skip_operands op' code strings (pc + 1) = Some pc'" by auto
    note p = skip_operands_progress [OF s(2)]
    show ?thesis
    proof (cases "op' \<in> {PUSH_INT, PUSH_FLOAT}")
      case True
      with s b show ?thesis by (auto simp: skip_operands_def)
    next
      case False
      with p b s(1) show ?thesis by simp
    qed
  qed
qed

text \<open>
  C30. Skipping an instruction always moves forward, and except over the operand of \<open>PUSH_INT\<close> and
  \<open>PUSH_FLOAT\<close>, which is not checked, it ends inside the code.
\<close>

theorem skip_instruction_progress:
  assumes "skip_instruction code strings pc = Some (op, pc')"
  shows "pc < pc' \<and> (op \<noteq> Some PUSH_INT \<and> op \<noteq> Some PUSH_FLOAT \<longrightarrow> pc' \<le> length code) \<and>
    pc' \<le> length code + 8"
  using skip_instruction_forward [OF assms] .

theorem skip_instruction_progress_witness:
  "skip_instruction [31, 7, 0, 0, 0, 9] [] 0 = Some (Some JMP, 5) \<and> (5 :: nat) \<le> 6"
proof -
  have "op_u8 JMP = 31" by simp
  then have "u8_op 31 = Some JMP" by (metis u8_op_op_u8)
  then have h: "skip_instruction [31, 7, 0, 0, 0, 9] [] 0 = Some (Some JMP, 5)"
    by (simp add: skip_instruction_def cur_u8_def skip_operands_def cur_u32_def)
  show ?thesis using h skip_instruction_progress [OF h] by simp
qed

end
