(* ===== verification/Int64.thy ===== *)
theory Int64
  imports Munx_Prelude "HOL-Library.Signed_Division"
begin

text \<open>
  The signed 64-bit integers of the C++ sources, as words read by \<open>sint\<close>: their range, the exactness of
  an addition, subtraction or product whose true value is in range, and the truncating division with
  the operands it is defined for.
\<close>

definition int64_min :: int where "int64_min = - (2 ^ 63)"
definition int64_max :: int where "int64_max = 2 ^ 63 - 1"

definition in_int64 :: "int \<Rightarrow> bool" where
  "in_int64 n \<longleftrightarrow> int64_min \<le> n \<and> n \<le> int64_max"

text \<open>Signed \<open>/\<close> and \<open>%\<close> truncate; they are undefined for a zero divisor and for the smallest integer over -1.\<close>

definition div_defined :: "u64 \<Rightarrow> u64 \<Rightarrow> bool" where
  "div_defined a b \<longleftrightarrow> b \<noteq> 0 \<and> \<not> (sint a = int64_min \<and> sint b = -1)"

definition int_div :: "u64 \<Rightarrow> u64 \<Rightarrow> u64" where
  "int_div a b = word_of_int (sint a sdiv sint b)"

definition int_mod :: "u64 \<Rightarrow> u64 \<Rightarrow> u64" where
  "int_mod a b = word_of_int (sint a smod sint b)"

lemma in_int64_sint: "in_int64 (sint (w :: u64))"
  using sint_range_size [of w] by (simp add: in_int64_def int64_min_def int64_max_def word_size)

lemma sint_of_int64: "in_int64 n \<Longrightarrow> sint (word_of_int n :: u64) = n"
  by (simp add: signed_of_int signed_take_bit_int_eq_self in_int64_def int64_min_def int64_max_def)

lemma sint_add_int64: "in_int64 (sint l + sint r) \<Longrightarrow> sint (l + r :: u64) = sint l + sint r"
  using sint_of_int64 [of "sint l + sint r"] by simp

lemma sint_sub_int64: "in_int64 (sint l - sint r) \<Longrightarrow> sint (l - r :: u64) = sint l - sint r"
  using sint_of_int64 [of "sint l - sint r"] by simp

lemma sint_mul_int64: "in_int64 (sint l * sint r) \<Longrightarrow> sint (l * r :: u64) = sint l * sint r"
  using sint_of_int64 [of "sint l * sint r"] by simp

lemma sint_eq_0: "sint (w :: u64) = 0 \<longleftrightarrow> w = 0"
  by (fact signed_eq_0_iff)

lemma sdiv_int64:
  assumes "div_defined a b"
  shows "in_int64 (sint a sdiv sint b)" "in_int64 (sint a smod sint b)"
proof -
  have b: "sint b \<noteq> 0" and ov: "\<not> (sint a = - (2 ^ 63) \<and> sint b = -1)"
    using assms by (simp_all add: div_defined_def sint_eq_0 int64_min_def)
  have range: "- (2 ^ 63) \<le> sint a" "sint a \<le> 2 ^ 63 - 1" "- (2 ^ 63) \<le> sint b" "sint b \<le> 2 ^ 63 - 1"
    using in_int64_sint [of a] in_int64_sint [of b] by (auto simp: in_int64_def int64_min_def int64_max_def)
  have q: "- (2 ^ 63) \<le> sint a sdiv sint b" "sint a sdiv sint b \<le> 2 ^ 63"
    using sdiv_int_range [of "sint a" "sint b"] range(1,2) by auto
  moreover have "sint a sdiv sint b \<noteq> 2 ^ 63"
  proof
    assume e: "sint a sdiv sint b = 2 ^ 63"
    then have "sint a = - (2 ^ 63)"
      using sdiv_int_range [of "sint a" "sint b"] range(1,2) by auto
    with e have "sint a sdiv sint b = - sint a" "sint a \<noteq> 0" by auto
    then have "sint b = -1" by (rule int_sdiv_negated_is_minus1 [THEN iffD1, rotated])
    with ov \<open>sint a = - (2 ^ 63)\<close> show False by blast
  qed
  ultimately show "in_int64 (sint a sdiv sint b)"
    by (simp add: in_int64_def int64_min_def int64_max_def)
  show "in_int64 (sint a smod sint b)"
    using smod_int_range [OF b, of "sint a"] range(3,4)
    by (auto simp: in_int64_def int64_min_def int64_max_def)
qed

end
