(* ===== verification/Vm_Arith.thy ===== *)
theory Vm_Arith
  imports Bytecode Int64
begin

text \<open>
  The virtual machine's scalar arithmetic (\<open>vm.hpp\<close>, with the value predicates of \<open>vm_value.hpp\<close>):
  checked integer operations, comparison, bitwise operators, truth, and the instructions that work
  on the operand stack alone. A runtime fault is recorded in a thread-local variable and execution
  of the instruction goes on, so every operation takes the pending fault and gives back the value
  it returns with the fault pending then; \<open>None\<close> is undefined behaviour of the C++ code.
\<close>

section \<open>Values\<close>

text \<open>
  The scalar alternatives of \<open>value_data\<close>; \<open>OtherV\<close> stands for the rest of the variant (floats,
  strings, containers, handles), whose operations are parameters of the definitions below.
\<close>

datatype 'o vm_value = NullV | BoolV bool | IntV u64 | CharV byte | OtherV 'o

datatype exception_kind = RuntimeError | DivisionByZero | Overflow

type_synonym fault = "exception_kind option"

fun is_integral :: "'o vm_value \<Rightarrow> bool" where
  "is_integral (IntV _) = True"
| "is_integral (BoolV _) = True"
| "is_integral (CharV _) = True"
| "is_integral _ = False"

text \<open>\<open>as_integer\<close> of an integral value.\<close>

fun as_integer :: "'o vm_value \<Rightarrow> u64" where
  "as_integer (IntV n) = n"
| "as_integer (BoolV b) = (if b then 1 else 0)"
| "as_integer (CharV c) = ucast c"
| "as_integer _ = 0"

fun is_truthy :: "('o \<Rightarrow> bool) \<Rightarrow> 'o vm_value \<Rightarrow> bool" where
  "is_truthy other (BoolV b) = b"
| "is_truthy other (IntV n) = (n \<noteq> 0)"
| "is_truthy other (CharV c) = (c \<noteq> 0)"
| "is_truthy other NullV = False"
| "is_truthy other (OtherV x) = other x"

section \<open>Checked integers\<close>

text \<open>The overflow builtins store the wrapped result whether or not they report an overflow.\<close>

definition checked_int_add :: "u64 \<Rightarrow> u64 \<Rightarrow> fault \<Rightarrow> u64 \<times> fault" where
  "checked_int_add l r f = (l + r, if in_int64 (sint l + sint r) then f else Some Overflow)"

definition checked_int_sub :: "u64 \<Rightarrow> u64 \<Rightarrow> fault \<Rightarrow> u64 \<times> fault" where
  "checked_int_sub l r f = (l - r, if in_int64 (sint l - sint r) then f else Some Overflow)"

definition checked_int_mul :: "u64 \<Rightarrow> u64 \<Rightarrow> fault \<Rightarrow> u64 \<times> fault" where
  "checked_int_mul l r f = (l * r, if in_int64 (sint l * sint r) then f else Some Overflow)"

text \<open>After \<open>throw_overflow\<close> has returned, the negation of the smallest integer is still computed.\<close>

definition checked_int_neg :: "u64 \<Rightarrow> fault \<Rightarrow> (u64 \<times> fault) option" where
  "checked_int_neg v f = (if sint v = int64_min then None else Some (- v, f))"

type_synonym 'o binary = "opcode \<Rightarrow> 'o vm_value \<Rightarrow> 'o vm_value \<Rightarrow> fault \<Rightarrow> ('o vm_value \<times> fault) option"

text \<open>
  \<open>binary_arithmetic\<close>: a zero divisor records the fault and then divides all the same. \<open>rest\<close> is the
  behaviour for operands that are not both integral.
\<close>

definition binary_arithmetic :: "'o binary \<Rightarrow> 'o binary" where
  "binary_arithmetic rest op left right f =
     (if is_integral left \<and> is_integral right then
        (let a = as_integer left; b = as_integer right in
         if op = ADD then Some (map_prod IntV id (checked_int_add a b f))
         else if op = SUB then Some (map_prod IntV id (checked_int_sub a b f))
         else if op = MUL then Some (map_prod IntV id (checked_int_mul a b f))
         else if op = DIV then (if div_defined a b then Some (IntV (int_div a b), f) else None)
         else if op = MOD then (if div_defined a b then Some (IntV (int_mod a b), f) else None)
         else rest op left right f)
      else rest op left right f)"

definition bitwise :: "'o binary \<Rightarrow> 'o binary" where
  "bitwise rest op left right f =
     (if is_integral left \<and> is_integral right then
        (let a = as_integer left; b = as_integer right in
         if op = BITWISE_AND then Some (IntV (a AND b), f)
         else if op = BITWISE_OR then Some (IntV (a OR b), f)
         else if op = BITWISE_XOR then Some (IntV (a XOR b), f)
         else rest op left right f)
      else rest op left right f)"

section \<open>Comparison\<close>

text \<open>
  \<open>as_number\<close> converts an integer to the nearest \<open>double\<close>, ties to even: an integer with 53
  significant bits. \<open>excess_bits m\<close> is how many bits \<open>m\<close> has beyond them.
\<close>

function excess_bits :: "int \<Rightarrow> nat" where
  "excess_bits m = (if m < 2 ^ 53 then 0 else Suc (excess_bits (m div 2)))"
  by pat_completeness auto
termination
  by (relation "measure nat") auto

declare excess_bits.simps [simp del]

definition round53 :: "int \<Rightarrow> int" where
  "round53 n =
     (let m = \<bar>n\<bar>; e = excess_bits m; q = m div 2 ^ e; r = m mod 2 ^ e; half = 2 ^ e div 2;
          q' = (if e \<noteq> 0 \<and> (half < r \<or> half = r \<and> odd q) then q + 1 else q)
      in sgn n * q' * 2 ^ e)"

definition as_number :: "'o vm_value \<Rightarrow> int" where
  "as_number v = round53 (sint (as_integer v))"

definition compare :: "'o binary \<Rightarrow> 'o binary" where
  "compare rest op left right f =
     (if is_integral left \<and> is_integral right then
        (let a = as_number left; b = as_number right;
             ordering = (if a < b then -1 else if b < a then 1 else 0 :: int)
         in if op = LT then Some (BoolV (ordering < 0), f)
            else if op = GT then Some (BoolV (0 < ordering), f)
            else if op = LE then Some (BoolV (ordering \<le> 0), f)
            else if op = GE then Some (BoolV (0 \<le> ordering), f)
            else rest op left right f)
      else rest op left right f)"

text \<open>\<open>values_equal\<close>: null equals null only, integral values compare as integers.\<close>

definition values_equal :: "('o vm_value \<Rightarrow> 'o vm_value \<Rightarrow> bool) \<Rightarrow> 'o vm_value \<Rightarrow> 'o vm_value \<Rightarrow> bool" where
  "values_equal rest left right =
     (if left = NullV \<or> right = NullV then left = NullV \<and> right = NullV
      else if is_integral left \<and> is_integral right then as_integer left = as_integer right
      else rest left right)"

section \<open>Instructions on the operand stack\<close>

text \<open>The operations of non-scalar values the instructions fall back on.\<close>

record 'o other_ops =
  other_binary :: "opcode \<Rightarrow> 'o vm_value \<Rightarrow> 'o vm_value \<Rightarrow> fault \<Rightarrow> ('o vm_value \<times> fault) option"
  other_equal :: "'o vm_value \<Rightarrow> 'o vm_value \<Rightarrow> bool"
  other_truthy :: "'o \<Rightarrow> bool"
  other_unary :: "opcode \<Rightarrow> 'o vm_value \<Rightarrow> fault \<Rightarrow> ('o vm_value \<times> fault) option"

text \<open>The stack, top first. Popping an empty stack records a fault and returns null.\<close>

fun vm_pop :: "'o vm_value list \<Rightarrow> fault \<Rightarrow> 'o vm_value \<times> 'o vm_value list \<times> fault" where
  "vm_pop [] f = (NullV, [], Some RuntimeError)"
| "vm_pop (v # st) f = (v, st, f)"

abbreviation arithmetic_ops :: "opcode set" where "arithmetic_ops \<equiv> {ADD, SUB, MUL, DIV, MOD}"
abbreviation bitwise_ops :: "opcode set" where "bitwise_ops \<equiv> {BITWISE_AND, BITWISE_OR, BITWISE_XOR}"
abbreviation ordering_ops :: "opcode set" where "ordering_ops \<equiv> {LT, GT, LE, GE}"

definition binary_result :: "'o other_ops \<Rightarrow> 'o binary" where
  "binary_result other op left right f =
     (if op \<in> arithmetic_ops then binary_arithmetic (other_binary other) op left right f
      else if op \<in> bitwise_ops then bitwise (other_binary other) op left right f
      else if op \<in> ordering_ops then compare (other_binary other) op left right f
      else if op = EQ then Some (BoolV (values_equal (other_equal other) left right), f)
      else Some (BoolV (\<not> values_equal (other_equal other) left right), f))"

definition unary_result :: "'o other_ops \<Rightarrow> opcode \<Rightarrow> 'o vm_value \<Rightarrow> fault \<Rightarrow> ('o vm_value \<times> fault) option" where
  "unary_result other op v f =
     (if op = LOGICAL_NOT then Some (BoolV (\<not> is_truthy (other_truthy other) v), f)
      else if is_integral v \<and> op = NEG then map_option (map_prod IntV id) (checked_int_neg (as_integer v) f)
      else if is_integral v \<and> op = BITWISE_NOT then Some (IntV (NOT (as_integer v)), f)
      else other_unary other op v f)"

abbreviation binary_ops :: "opcode set" where
  "binary_ops \<equiv> arithmetic_ops \<union> bitwise_ops \<union> ordering_ops \<union> {EQ, NE}"

abbreviation unary_ops :: "opcode set" where
  "unary_ops \<equiv> {NEG, LOGICAL_NOT, BITWISE_NOT}"

text \<open>The instructions without an operand whose only effect is on the stack.\<close>

definition stack_op :: "'o other_ops \<Rightarrow> opcode \<Rightarrow> 'o vm_value list \<Rightarrow> fault \<Rightarrow>
    ('o vm_value list \<times> fault) option" where
  "stack_op other op st f =
     (if op \<in> binary_ops then
        (case vm_pop st f of (right, st1, f1) \<Rightarrow>
         (case vm_pop st1 f1 of (left, st2, f2) \<Rightarrow>
            map_option (\<lambda>(v, f3). (v # st2, f3)) (binary_result other op left right f2)))
      else if op \<in> unary_ops then
        (case vm_pop st f of (v, st1, f1) \<Rightarrow>
            map_option (\<lambda>(v', f2). (v' # st1, f2)) (unary_result other op v f1))
      else if op = PUSH_NULL then Some (NullV # st, f)
      else if op = POP then (case vm_pop st f of (_, st1, f1) \<Rightarrow> Some (st1, f1))
      else if op = DUP then
        (case st of [] \<Rightarrow> None | v # _ \<Rightarrow> Some (v # st, f))
      else if op = SWAP then
        (case st of v # w # st' \<Rightarrow> Some (w # v # st', f) | _ \<Rightarrow> None)
      else Some (st, f))"

abbreviation stack_ops :: "opcode set" where
  "stack_ops \<equiv> binary_ops \<union> unary_ops \<union> {PUSH_NULL, POP, DUP, SWAP}"

section \<open>Exactness\<close>


text \<open>
  Integer division and remainder truncate towards zero and recompose the dividend. A zero
  divisor, which is meant to raise a division-by-zero fault a program can trap, and the smallest
  integer over -1 divide all the same, which is undefined.
\<close>

theorem integer_division:
  "binary_arithmetic rest DIV (IntV a) (IntV b) f =
     (if div_defined a b then Some (IntV (int_div a b), f) else None) \<and>
   (div_defined a b \<longrightarrow>
      sint (int_div a b) * sint b + sint (int_mod a b) = sint a \<and>
      \<bar>sint (int_mod a b)\<bar> < \<bar>sint b\<bar> \<and> (sint (int_mod a b) \<noteq> 0 \<longrightarrow> sgn (sint (int_mod a b)) = sgn (sint a)))"
proof -
  have "sint (int_div a b) * sint b + sint (int_mod a b) = sint a \<and>
      \<bar>sint (int_mod a b)\<bar> < \<bar>sint b\<bar> \<and>
      (sint (int_mod a b) \<noteq> 0 \<longrightarrow> sgn (sint (int_mod a b)) = sgn (sint a))" if d: "div_defined a b"
  proof -
    have b: "sint b \<noteq> 0" using d by (simp add: div_defined_def sint_eq_0)
    have e: "sint (int_div a b) = sint a sdiv sint b" "sint (int_mod a b) = sint a smod sint b"
      using sdiv_int64 [OF d] by (simp_all add: int_div_def int_mod_def sint_of_int64)
    have "0 \<le> \<bar>sint a\<bar> mod \<bar>sint b\<bar>" using b by simp
    then show ?thesis
      using smod_int_range [OF b, of "sint a"] sdiv_mult_smod_eq [of "sint a" "sint b"] unfolding e
      by (auto simp: smod_int_alt_def sgn_mult abs_less_iff zero_less_mult_iff sgn_if)
  qed
  then show ?thesis by (simp add: binary_arithmetic_def)
qed

theorem integer_division_witness:
  "sint (int_div 7 2) * 2 + sint (int_mod 7 2) = 7"
proof -
  have "div_defined 7 2" by (simp add: div_defined_def int64_min_def)
  then show ?thesis using integer_division [of "\<lambda>_ _ _ _. None :: (unit vm_value \<times> fault) option" 7 2 None] by simp
qed

section \<open>Comparing integers as doubles\<close>

lemma excess_bits_small: "m \<le> 2 ^ 53 - 1 \<Longrightarrow> excess_bits m = 0"
  by (simp add: excess_bits.simps [of m])

lemma round53_small:
  assumes "\<bar>n\<bar> \<le> 2 ^ 53"
  shows "round53 n = n"
proof (cases "\<bar>n\<bar> = 2 ^ 53")
  case True
  have "excess_bits (2 ^ 53) = 1"
    by (simp add: excess_bits.simps [of "9007199254740992"] excess_bits_small)
  with True show ?thesis by (auto simp: round53_def Let_def abs_if split: if_splits)
next
  case False
  with assms have "excess_bits \<bar>n\<bar> = 0" by (simp add: excess_bits_small)
  then show ?thesis by (simp add: round53_def Let_def sgn_mult_abs)
qed

lemma compare_not_exact:
  "compare rest LT (IntV 9007199254740992) (IntV 9007199254740993) f = Some (BoolV False, f)"
proof -
  have "excess_bits 9007199254740993 = 1" "excess_bits 9007199254740992 = 1"
    by (simp_all add: excess_bits.simps [of "9007199254740993"] excess_bits.simps [of "9007199254740992"]
        excess_bits_small)
  then have "round53 9007199254740993 = round53 9007199254740992"
    by (simp add: round53_def Let_def)
  then show ?thesis by (simp add: compare_def as_number_def Let_def)
qed

text \<open>
  Integers of up to 53 bits are ordered the way integers are. Beyond that the conversion to
  \<open>double\<close> identifies neighbours: the machine denies that 9007199254740992 is less than
  9007199254740993.
\<close>

theorem compare_integers:
  assumes "\<bar>sint a\<bar> \<le> 2 ^ 53" "\<bar>sint b\<bar> \<le> 2 ^ 53"
  shows "compare rest LT (IntV a) (IntV b) f = Some (BoolV (sint a < sint b), f) \<and>
    compare rest GT (IntV a) (IntV b) f = Some (BoolV (sint b < sint a), f) \<and>
    compare rest LE (IntV a) (IntV b) f = Some (BoolV (sint a \<le> sint b), f) \<and>
    compare rest GE (IntV a) (IntV b) f = Some (BoolV (sint b \<le> sint a), f) \<and>
    compare rest LT (IntV 9007199254740992) (IntV 9007199254740993) f = Some (BoolV False, f)"
  unfolding compare_not_exact using assms by (simp add: compare_def as_number_def round53_small Let_def)

theorem compare_integers_witness:
  "compare (\<lambda>_ _ _ _. None :: (unit vm_value \<times> fault) option) LT (IntV 3) (IntV 4) None = Some (BoolV True, None)"
  using compare_integers [of 3 4 "\<lambda>_ _ _ _. None :: (unit vm_value \<times> fault) option" None] by simp

end
