(* ===== verification/Bytecode_Optimizer.thy ===== *)
theory Bytecode_Optimizer
  imports Vm_Arith
begin

text \<open>
  \<open>optimize_bytecode\<close> (\<open>jit/bytecode_optimizer.hpp\<close>): one pass over the code with a pending constant
  or pair of constants that folds arithmetic, comparisons and negations, followed by a pass over the
  output that retargets and threads jumps. \<open>None\<close> is an abort of the cursor or undefined behaviour
  (signed overflow while folding, a copy that reads past the end of the code).
\<close>

section \<open>The state of the pass\<close>

datatype pending_fold = NoFold | IntFold u64 | PairFold u64 u64 | BoolFold bool

text \<open>\<open>pc_remap\<close> is an association list, the latest entry of a key first.\<close>

record opt_state =
  opt_pc :: nat
  opt_out :: "byte list"
  pc_remap :: "(nat \<times> nat) list"
  pending :: pending_fold
  pending_pc :: "nat option"

definition opt_start :: opt_state where
  "opt_start = \<lparr>opt_pc = 0, opt_out = [], pc_remap = [], pending = NoFold, pending_pc = None\<rparr>"

definition record_pc :: "nat \<Rightarrow> opt_state \<Rightarrow> opt_state" where
  "record_pc source_pc s = s\<lparr>pc_remap := (source_pc, length (opt_out s)) # pc_remap s\<rparr>"

definition emit :: "byte list \<Rightarrow> opt_state \<Rightarrow> opt_state" where
  "emit bs s = s\<lparr>opt_out := opt_out s @ bs\<rparr>"

definition push_int :: "u64 \<Rightarrow> byte list" where
  "push_int v = append_i64 (append_u8 [] (op_u8 PUSH_INT)) v"

definition push_bool :: "bool \<Rightarrow> byte list" where
  "push_bool flag = append_u8 (append_u8 [] (op_u8 PUSH_BOOL)) (if flag then 1 else 0)"

fun pending_code :: "pending_fold \<Rightarrow> byte list" where
  "pending_code NoFold = []"
| "pending_code (IntFold i) = push_int i"
| "pending_code (PairFold l r) = push_int l @ push_int r"
| "pending_code (BoolFold b) = push_bool b"

definition flush_pending :: "opt_state \<Rightarrow> opt_state" where
  "flush_pending s =
     (if pending s = NoFold then s
      else
        (let s = (case pending_pc s of None \<Rightarrow> s | Some pc \<Rightarrow> (record_pc pc s)\<lparr>pending_pc := None\<rparr>)
         in (emit (pending_code (pending s)) s)\<lparr>pending := NoFold\<rparr>))"

definition set_pending :: "pending_fold \<Rightarrow> nat option \<Rightarrow> opt_state \<Rightarrow> opt_state" where
  "set_pending p pc s = s\<lparr>pending := p, pending_pc := pc\<rparr>"

section \<open>Folding\<close>

text \<open>The outer option is undefined behaviour, the inner one the \<open>nullopt\<close> of the code.\<close>

definition try_fold_binary_int :: "opcode \<Rightarrow> u64 \<Rightarrow> u64 \<Rightarrow> u64 option option" where
  "try_fold_binary_int op l r =
     (if op = ADD then (if in_int64 (sint l + sint r) then Some (Some (l + r)) else None)
      else if op = SUB then (if in_int64 (sint l - sint r) then Some (Some (l - r)) else None)
      else if op = MUL then (if in_int64 (sint l * sint r) then Some (Some (l * r)) else None)
      else if op = DIV then
        (if r = 0 then Some None else if div_defined l r then Some (Some (int_div l r)) else None)
      else if op = MOD then
        (if r = 0 then Some None else if div_defined l r then Some (Some (int_mod l r)) else None)
      else if op = BITWISE_AND then Some (Some (l AND r))
      else if op = BITWISE_OR then Some (Some (l OR r))
      else if op = BITWISE_XOR then Some (Some (l XOR r))
      else Some None)"

definition try_fold_compare_int :: "opcode \<Rightarrow> u64 \<Rightarrow> u64 \<Rightarrow> bool option" where
  "try_fold_compare_int op l r =
     (if op = EQ then Some (l = r) else if op = NE then Some (l \<noteq> r)
      else if op = LT then Some (sint l < sint r) else if op = GT then Some (sint r < sint l)
      else if op = LE then Some (sint l \<le> sint r) else if op = GE then Some (sint r \<le> sint l)
      else None)"

abbreviation foldable_ops :: "opcode set" where "foldable_ops \<equiv> arithmetic_ops \<union> bitwise_ops"
abbreviation compare_ops :: "opcode set" where "compare_ops \<equiv> {EQ, NE} \<union> ordering_ops"

section \<open>One round of the main loop\<close>

definition copy_instruction :: "byte list \<Rightarrow> string \<Rightarrow> nat \<Rightarrow> opt_state \<Rightarrow> opt_state option" where
  "copy_instruction source strings insn_start s =
     (case skip_instruction source strings insn_start of
        None \<Rightarrow> None
      | Some (_, copy_end) \<Rightarrow>
          if length source < copy_end then None
          else Some ((emit (take (copy_end - insn_start) (drop insn_start source))
                 (record_pc insn_start (flush_pending s)))\<lparr>opt_pc := copy_end\<rparr>))"

definition push_int_step :: "nat \<Rightarrow> u64 \<Rightarrow> opt_state \<Rightarrow> opt_state" where
  "push_int_step insn_start v s =
     (case pending s of
        IntFold i \<Rightarrow> s\<lparr>pending := PairFold i v\<rparr>
      | PairFold _ _ \<Rightarrow> set_pending (IntFold v) (Some insn_start) (flush_pending s)
      | _ \<Rightarrow> set_pending (IntFold v) (Some insn_start) s)"

definition push_bool_step :: "nat \<Rightarrow> bool \<Rightarrow> opt_state \<Rightarrow> opt_state" where
  "push_bool_step insn_start flag s =
     (if pending s = NoFold then set_pending (BoolFold flag) (Some insn_start) s
      else emit (push_bool flag) (record_pc insn_start (flush_pending s)))"

definition opt_step :: "byte list \<Rightarrow> string \<Rightarrow> opt_state \<Rightarrow> opt_state option" where
  "opt_step source strings s =
     (let insn_start = opt_pc s in
      case cur_u8 source insn_start of
        None \<Rightarrow> None
      | Some (b, pc1) \<Rightarrow>
          let op = u8_op b; s1 = s\<lparr>opt_pc := pc1\<rparr>; clear = set_pending NoFold None s1
          in if op = Some PUSH_INT then
               map_option (\<lambda>(v, pc2). push_int_step insn_start v (s\<lparr>opt_pc := pc2\<rparr>)) (cur_i64 source pc1)
             else if op = Some PUSH_BOOL then
               map_option (\<lambda>(f, pc2). push_bool_step insn_start (f \<noteq> 0) (s\<lparr>opt_pc := pc2\<rparr>)) (cur_u8 source pc1)
             else
               (case (op, pending s) of
                  (Some op', PairFold l r) \<Rightarrow>
                    if op' \<in> foldable_ops then
                      (case try_fold_binary_int op' l r of
                         None \<Rightarrow> None
                       | Some (Some v) \<Rightarrow> Some (set_pending (IntFold v) (Some insn_start) (record_pc insn_start clear))
                       | Some None \<Rightarrow> Some (emit (push_int l @ push_int r @ [b]) (record_pc insn_start clear)))
                    else if op' \<in> compare_ops then
                      (case try_fold_compare_int op' l r of
                         Some v \<Rightarrow> Some (set_pending (BoolFold v) (Some insn_start) (record_pc insn_start clear))
                       | None \<Rightarrow> Some (emit (push_int l @ push_int r @ [b]) (record_pc insn_start clear)))
                    else if op' = POP then Some (set_pending NoFold None (record_pc insn_start s1))
                    else copy_instruction source strings insn_start s
                | (Some op', IntFold i) \<Rightarrow>
                    if op' \<in> foldable_ops \<union> compare_ops then
                      Some (emit (push_int i @ [b]) (record_pc insn_start clear))
                    else if op' = NEG then
                      (if sint i = int64_min then None
                       else Some ((record_pc insn_start s1)\<lparr>pending := IntFold (- i)\<rparr>))
                    else if op' = POP then Some (set_pending NoFold None (record_pc insn_start s1))
                    else copy_instruction source strings insn_start s
                | (Some op', BoolFold f) \<Rightarrow>
                    if op' = LOGICAL_NOT then Some ((record_pc insn_start s1)\<lparr>pending := BoolFold (\<not> f)\<rparr>)
                    else if op' = POP then Some (set_pending NoFold None (record_pc insn_start s1))
                    else copy_instruction source strings insn_start s
                | _ \<Rightarrow> copy_instruction source strings insn_start s))"

lemma opt_pc_simps [simp]:
  "opt_pc (record_pc pc s) = opt_pc s" "opt_pc (emit bs s) = opt_pc s"
  "opt_pc (set_pending p q s) = opt_pc s" "opt_pc (flush_pending s) = opt_pc s"
  by (simp_all add: record_pc_def emit_def set_pending_def flush_pending_def Let_def split: option.split)

lemma copy_instruction_pc: "copy_instruction source strings pc s = Some s' \<Longrightarrow> pc < opt_pc s'"
  by (auto simp: copy_instruction_def bind_eq_Some_conv split: option.splits if_splits
      dest!: skip_instruction_forward)

lemma push_step_pc [simp]:
  "opt_pc (push_int_step pc v s) = opt_pc s" "opt_pc (push_bool_step pc f s) = opt_pc s"
  by (simp_all add: push_int_step_def push_bool_step_def split: pending_fold.split)

lemma opt_step_forward:
  assumes "opt_step source strings s = Some s'"
  shows "opt_pc s < opt_pc s'"
proof -
  obtain b where b: "cur_u8 source (opt_pc s) = Some (b, opt_pc s + 1)"
    using assms by (cases "opt_pc s < length source") (simp_all add: opt_step_def cur_u8_def)
  note unf = assms [unfolded opt_step_def b Let_def option.case prod.case]
  consider "u8_op b = Some PUSH_INT" | "u8_op b = Some PUSH_BOOL"
    | "u8_op b \<noteq> Some PUSH_INT" "u8_op b \<noteq> Some PUSH_BOOL" by blast
  then show ?thesis
  proof cases
    case 1
    with unf show ?thesis by (auto dest!: cur_i64_Some)
  next
    case 2
    with unf show ?thesis by (auto simp: cur_u8_Some)
  next
    case 3
    with unf show ?thesis
      by (auto split: option.splits pending_fold.splits if_splits dest: copy_instruction_pc)
  qed
qed

section \<open>The main loop\<close>

function opt_loop :: "byte list \<Rightarrow> string \<Rightarrow> opt_state \<Rightarrow> opt_state option" where
  "opt_loop source strings s =
     (if length source \<le> opt_pc s then Some s
      else (case opt_step source strings s of None \<Rightarrow> None | Some s' \<Rightarrow> opt_loop source strings s'))"
  by pat_completeness auto
termination
  by (relation "measure (\<lambda>(source, strings, s). length source - opt_pc s)")
     (auto dest!: opt_step_forward)

declare opt_loop.simps [simp del]

section \<open>Jumps\<close>

text \<open>
  \<open>remap_target\<close>: the recorded output position of the target, or else that of the closest recorded
  position before it.
\<close>

fun closest_pc :: "nat \<Rightarrow> (nat \<times> nat) list \<Rightarrow> (nat \<times> nat) option \<Rightarrow> (nat \<times> nat) option" where
  "closest_pc target [] best = best"
| "closest_pc target ((source_pc, output_pc) # rest) best =
     closest_pc target rest
       (if source_pc \<le> target \<and> (case best of None \<Rightarrow> True | Some (p, _) \<Rightarrow> p < source_pc)
        then Some (source_pc, output_pc) else best)"

definition remap_target :: "(nat \<times> nat) list \<Rightarrow> u32 \<Rightarrow> u32" where
  "remap_target remap old_target =
     (case map_of remap (unat old_target) of
        Some output_pc \<Rightarrow> word_of_nat output_pc
      | None \<Rightarrow>
          (case closest_pc (unat old_target) remap None of
             Some (_, output_pc) \<Rightarrow> word_of_nat output_pc
           | None \<Rightarrow> old_target))"

definition u32_at :: "byte list \<Rightarrow> nat \<Rightarrow> u32 option" where
  "u32_at out pos = map_option fst (cur_u32 out pos)"

text \<open>At most \<open>depth\<close> unconditional jumps are followed from a target.\<close>

primrec thread_jump :: "nat \<Rightarrow> byte list \<Rightarrow> u32 \<Rightarrow> u32 option" where
  "thread_jump 0 out target = Some target"
| "thread_jump (Suc depth) out target =
     (if length out \<le> unat target \<or> out ! unat target \<noteq> op_u8 JMP then Some target
      else (case u32_at out (unat target + 1) of
              None \<Rightarrow> None | Some next_target \<Rightarrow> thread_jump depth out next_target))"

abbreviation jump_ops :: "opcode set" where
  "jump_ops \<equiv> {JMP, JMP_IF_FALSE, JMP_IF_TRUE, MONITOR_ENTER}"

definition write_u32 :: "byte list \<Rightarrow> nat \<Rightarrow> u32 \<Rightarrow> byte list" where
  "write_u32 out pos w = take pos out @ le_bytes 4 w @ drop (pos + 4) out"

definition retarget :: "(nat \<times> nat) list \<Rightarrow> nat \<Rightarrow> byte list \<Rightarrow> byte list option" where
  "retarget remap index out =
     (case u32_at out (index + 1) of
        None \<Rightarrow> None
      | Some target \<Rightarrow>
          map_option (write_u32 out (index + 1)) (thread_jump 32 out (remap_target remap target)))"

lemma retarget_length: "retarget remap index out = Some out' \<Longrightarrow> length out' = length out"
  by (auto simp: retarget_def u32_at_def write_u32_def split: option.splits dest!: cur_u32_Some)

function fix_jumps :: "string \<Rightarrow> (nat \<times> nat) list \<Rightarrow> nat \<Rightarrow> byte list \<Rightarrow> byte list option" where
  "fix_jumps strings remap index out =
     (if length out \<le> index then Some out
      else if (case u8_op (out ! index) of Some op \<Rightarrow> op \<in> jump_ops | None \<Rightarrow> False) then
        (case retarget remap index out of
           None \<Rightarrow> None | Some out' \<Rightarrow> fix_jumps strings remap (index + 5) out')
      else
        (case skip_instruction out strings index of
           None \<Rightarrow> None | Some (_, pc) \<Rightarrow> fix_jumps strings remap pc out))"
  by pat_completeness auto
termination
  by (relation "measure (\<lambda>(strings, remap, index, out). length out - index)")
     (auto dest!: retarget_length skip_instruction_forward)

declare fix_jumps.simps [simp del]

definition optimize_bytecode :: "byte list \<Rightarrow> string \<Rightarrow> byte list option" where
  "optimize_bytecode source strings =
     (case opt_loop source strings opt_start of
        None \<Rightarrow> None
      | Some s \<Rightarrow>
          let s = flush_pending s in fix_jumps strings (pc_remap s) 0 (opt_out s))"

end
