(* ===== verification/Optimizer_Blocks.thy ===== *)
theory Optimizer_Blocks
  imports Bytecode_Optimizer
begin

text \<open>
  What \<open>optimize_bytecode\<close> does to a basic block, a run of instructions without jumps. The pass over
  bytes is shown equal to a peephole pass over instructions (\<open>opt_block\<close>), and that pass is shown to
  keep the meaning of the block on the virtual machine's stack, except where it does not: the three
  situations \<open>fold_safe\<close> rules out are shown to go wrong.
\<close>

declare op_u8.simps [simp del]

section \<open>Instructions\<close>

text \<open>
  The constants and the stack instructions the optimizer knows; \<open>Raw\<close> is any other instruction
  without a jump target, as its bytes.
\<close>

datatype instr = PushInt u64 | PushBool bool | StackOp opcode | Raw "byte list"

fun encode_instr :: "instr \<Rightarrow> byte list" where
  "encode_instr (PushInt v) = push_int v"
| "encode_instr (PushBool b) = push_bool b"
| "encode_instr (StackOp op) = [op_u8 op]"
| "encode_instr (Raw bs) = bs"

definition encode_block :: "instr list \<Rightarrow> byte list" where
  "encode_block is = concat (map encode_instr is)"

definition raw_ok :: "string \<Rightarrow> byte list \<Rightarrow> bool" where
  "raw_ok strings bs \<longleftrightarrow> bs \<noteq> [] \<and>
     (\<forall>op. u8_op (hd bs) = Some op \<longrightarrow> op \<notin> {PUSH_INT, PUSH_BOOL} \<union> stack_ops \<union> jump_ops) \<and>
     (\<forall>pre suf. skip_instruction (pre @ bs @ suf) strings (length pre) = Some (u8_op (hd bs), length pre + length bs))"

fun instr_ok :: "string \<Rightarrow> instr \<Rightarrow> bool" where
  "instr_ok strings (Raw bs) = raw_ok strings bs"
| "instr_ok strings (StackOp op) = (op \<in> stack_ops)"
| "instr_ok strings _ = True"

section \<open>The peephole pass on instructions\<close>

fun pending_instrs :: "pending_fold \<Rightarrow> instr list" where
  "pending_instrs NoFold = []"
| "pending_instrs (IntFold i) = [PushInt i]"
| "pending_instrs (PairFold l r) = [PushInt l, PushInt r]"
| "pending_instrs (BoolFold b) = [PushBool b]"

text \<open>The new pending constants and the instructions emitted.\<close>

fun opt_op :: "opcode \<Rightarrow> pending_fold \<Rightarrow> (pending_fold \<times> instr list) option" where
  "opt_op op (PairFold l r) =
     (if op \<in> foldable_ops then
        (case try_fold_binary_int op l r of
           None \<Rightarrow> None
         | Some (Some v) \<Rightarrow> Some (IntFold v, [])
         | Some None \<Rightarrow> Some (NoFold, [PushInt l, PushInt r, StackOp op]))
      else if op \<in> compare_ops then
        (case try_fold_compare_int op l r of
           Some v \<Rightarrow> Some (BoolFold v, [])
         | None \<Rightarrow> Some (NoFold, [PushInt l, PushInt r, StackOp op]))
      else if op = POP then Some (NoFold, [])
      else Some (NoFold, [PushInt l, PushInt r, StackOp op]))"
| "opt_op op (IntFold i) =
     (if op \<in> foldable_ops \<union> compare_ops then Some (NoFold, [PushInt i, StackOp op])
      else if op = NEG then (if sint i = int64_min then None else Some (IntFold (- i), []))
      else if op = POP then Some (NoFold, [])
      else Some (NoFold, [PushInt i, StackOp op]))"
| "opt_op op (BoolFold f) =
     (if op = LOGICAL_NOT then Some (BoolFold (\<not> f), [])
      else if op = POP then Some (NoFold, [])
      else Some (NoFold, [PushBool f, StackOp op]))"
| "opt_op op NoFold = Some (NoFold, [StackOp op])"

fun opt_instr :: "instr \<Rightarrow> pending_fold \<Rightarrow> (pending_fold \<times> instr list) option" where
  "opt_instr (PushInt v) p =
     (case p of
        IntFold i \<Rightarrow> Some (PairFold i v, [])
      | PairFold l r \<Rightarrow> Some (IntFold v, [PushInt l, PushInt r])
      | _ \<Rightarrow> Some (IntFold v, []))"
| "opt_instr (PushBool b) p =
     (if p = NoFold then Some (BoolFold b, []) else Some (NoFold, pending_instrs p @ [PushBool b]))"
| "opt_instr (StackOp op) p = opt_op op p"
| "opt_instr (Raw bs) p = Some (NoFold, pending_instrs p @ [Raw bs])"

fun opt_block :: "instr list \<Rightarrow> pending_fold \<Rightarrow> instr list option" where
  "opt_block [] p = Some (pending_instrs p)"
| "opt_block (i # is) p =
     (case opt_instr i p of
        None \<Rightarrow> None
      | Some (p', out) \<Rightarrow> map_option ((@) out) (opt_block is p'))"

section \<open>The pass over bytes does the same\<close>

lemma encode_block_simps [simp]:
  "encode_block [] = []" "encode_block (i # is) = encode_instr i @ encode_block is"
  "encode_block (is @ js) = encode_block is @ encode_block js"
  by (simp_all add: encode_block_def)

lemma encode_pending [simp]: "encode_block (pending_instrs p) = pending_code p"
  by (cases p) simp_all

lemma cur_u8_at [simp]: "cur_u8 (pre @ b # suf) (length pre) = Some (b, length pre + 1)"
  by (simp add: cur_u8_def)

lemma length_push [simp]: "length (push_int v) = 9" "length (push_bool f) = 2"
  by (simp_all add: push_int_def push_bool_def append_u8_def append_i64_def)

lemma cur_i64_at:
  "cur_i64 (pre @ op_u8 PUSH_INT # le_bytes 8 v @ suf) (length pre + 1) = Some (v, length pre + 9)"
  by (simp add: cur_i64_def le_word_le_bytes)

lemma push_int_eq: "push_int v = op_u8 PUSH_INT # le_bytes 8 v"
  by (simp add: push_int_def append_u8_def append_i64_def)

lemma push_bool_eq: "push_bool f = [op_u8 PUSH_BOOL, if f then 1 else 0]"
  by (simp add: push_bool_def append_u8_def)

text \<open>An instruction is skipped as a whole wherever it stands.\<close>

lemma skip_instr:
  assumes "instr_ok strings i"
  shows "skip_instruction (pre @ encode_instr i @ suf) strings (length pre) =
    Some (u8_op (hd (encode_instr i)), length pre + length (encode_instr i))"
proof (cases i)
  case (PushInt v)
  then show ?thesis
    by (simp add: skip_instruction_def push_int_eq skip_operands_def)
next
  case (PushBool b)
  have "cur_u8 (pre @ [op_u8 PUSH_BOOL, if b then 1 else 0] @ suf) (length pre + 1) =
      Some (if b then 1 else 0, length pre + 2)"
    by (simp add: cur_u8_def nth_append)
  with PushBool show ?thesis
    by (simp add: skip_instruction_def push_bool_eq skip_operands_def)
next
  case (StackOp op)
  with assms show ?thesis
    by (auto simp: skip_instruction_def skip_operands_def)
next
  case (Raw bs)
  with assms show ?thesis by (simp add: raw_ok_def)
qed

definition advanced :: "opt_state \<Rightarrow> nat \<Rightarrow> pending_fold \<times> instr list \<Rightarrow> opt_state option \<Rightarrow> bool" where
  "advanced s pc r s' \<longleftrightarrow> (\<exists>s1. s' = Some s1 \<and> opt_pc s1 = pc \<and> pending s1 = fst r \<and>
     opt_out s1 = opt_out s @ encode_block (snd r))"

lemma advanced_Some [simp]:
  "advanced s pc r (Some s1) \<longleftrightarrow>
     opt_pc s1 = pc \<and> pending s1 = fst r \<and> opt_out s1 = opt_out s @ encode_block (snd r)"
  by (simp add: advanced_def)

lemma state_simps [simp]:
  "opt_out (record_pc pc s) = opt_out s" "pending (record_pc pc s) = pending s"
  "opt_out (emit bs s) = opt_out s @ bs" "pending (emit bs s) = pending s"
  "opt_out (set_pending p q s) = opt_out s" "pending (set_pending p q s) = p"
  "opt_out (flush_pending s) = opt_out s @ pending_code (pending s)" "pending (flush_pending s) = NoFold"
  by (simp_all add: record_pc_def emit_def set_pending_def flush_pending_def Let_def split: option.split)

lemma copy_advanced:
  assumes "instr_ok strings i"
  shows "advanced s (length pre + length (encode_instr i)) (NoFold, pending_instrs (pending s) @ [i])
    (copy_instruction (pre @ encode_instr i @ suf) strings (length pre) s)"
  by (simp add: copy_instruction_def skip_instr [OF assms])

lemma hd_op: "instr_ok strings (Raw bs) \<Longrightarrow> bs = hd bs # tl bs"
  by (auto simp: raw_ok_def)

lemma opt_step_instr:
  assumes "instr_ok strings i" "opt_pc s = length pre"
  shows "case opt_instr i (pending s) of
      None \<Rightarrow> opt_step (pre @ encode_instr i @ suf) strings s = None
    | Some r \<Rightarrow> advanced s (length pre + length (encode_instr i)) r
        (opt_step (pre @ encode_instr i @ suf) strings s)"
proof (cases i)
  case (PushInt v)
  have "cur_i64 (pre @ op_u8 PUSH_INT # le_bytes 8 v @ suf) (Suc (length pre)) = Some (v, length pre + 9)"
    using cur_i64_at [of pre v suf] by (simp)
  with PushInt show ?thesis
    using assms(2)
    by (simp add: opt_step_def push_int_eq Let_def push_int_step_def
        split: pending_fold.split)
next
  case (PushBool b)
  have "cur_u8 (pre @ op_u8 PUSH_BOOL # (if b then 1 else 0) # suf) (length pre + 1) =
      Some (if b then 1 else 0, length pre + 2)"
    by (simp add: cur_u8_def nth_append)
  with PushBool show ?thesis
    using assms(2)
    by (simp add: opt_step_def push_bool_eq Let_def push_bool_step_def)
next
  case (StackOp op)
  define src where "src = pre @ op_u8 op # suf"
  let ?s1 = "s\<lparr>opt_pc := length pre + 1\<rparr>" and ?clear = "set_pending NoFold None (s\<lparr>opt_pc := length pre + 1\<rparr>)"
    and ?copy = "copy_instruction src strings (length pre) s"
  have c: "advanced s (length pre + 1) (NoFold, pending_instrs (pending s) @ [StackOp op]) ?copy"
    using copy_advanced [OF assms(1), of s pre suf] StackOp by (simp add: src_def)
  have "op \<noteq> PUSH_INT" "op \<noteq> PUSH_BOOL" using assms(1) StackOp by auto
  then have step: "opt_step src strings s =
      (case (Some op, pending s) of
         (Some op', PairFold l r) \<Rightarrow>
           if op' \<in> foldable_ops then
             (case try_fold_binary_int op' l r of
                None \<Rightarrow> None
              | Some (Some v) \<Rightarrow> Some (set_pending (IntFold v) (Some (length pre)) (record_pc (length pre) ?clear))
              | Some None \<Rightarrow> Some (emit (push_int l @ push_int r @ [op_u8 op]) (record_pc (length pre) ?clear)))
           else if op' \<in> compare_ops then
             (case try_fold_compare_int op' l r of
                Some v \<Rightarrow> Some (set_pending (BoolFold v) (Some (length pre)) (record_pc (length pre) ?clear))
              | None \<Rightarrow> Some (emit (push_int l @ push_int r @ [op_u8 op]) (record_pc (length pre) ?clear)))
           else if op' = POP then Some (set_pending NoFold None (record_pc (length pre) ?s1))
           else ?copy
       | (Some op', IntFold i) \<Rightarrow>
           if op' \<in> foldable_ops \<union> compare_ops then
             Some (emit (push_int i @ [op_u8 op]) (record_pc (length pre) ?clear))
           else if op' = NEG then
             (if sint i = int64_min then None
              else Some ((record_pc (length pre) ?s1)\<lparr>pending := IntFold (- i)\<rparr>))
           else if op' = POP then Some (set_pending NoFold None (record_pc (length pre) ?s1))
           else ?copy
       | (Some op', BoolFold f) \<Rightarrow>
           if op' = LOGICAL_NOT then Some ((record_pc (length pre) ?s1)\<lparr>pending := BoolFold (\<not> f)\<rparr>)
           else if op' = POP then Some (set_pending NoFold None (record_pc (length pre) ?s1))
           else ?copy
       | _ \<Rightarrow> ?copy)"
    using assms(2) unfolding opt_step_def Let_def src_def
    by (simp only: cur_u8_at u8_op_op_u8 option.case prod.case option.inject if_False refl)
  have "case opt_op op (pending s) of None \<Rightarrow> opt_step src strings s = None
    | Some r \<Rightarrow> advanced s (length pre + 1) r (opt_step src strings s)"
  proof (cases "pending s")
    case (PairFold l r)
    note st = step [unfolded PairFold option.case prod.case pending_fold.case]
    consider (fold) "op \<in> foldable_ops" | (cmp) "op \<notin> foldable_ops" "op \<in> compare_ops"
      | (other) "op \<notin> foldable_ops" "op \<notin> compare_ops" by blast
    then show ?thesis
    proof cases
      case fold
      show ?thesis
        unfolding PairFold opt_op.simps st if_P [OF fold] by (simp split: option.split)
    next
      case cmp
      show ?thesis
        unfolding PairFold opt_op.simps st if_not_P [OF cmp(1)] if_P [OF cmp(2)] by (simp split: option.split)
    next
      case other
      show ?thesis
        unfolding PairFold opt_op.simps st if_not_P [OF other(1)] if_not_P [OF other(2)]
        using c PairFold by simp
    qed
  qed (use c step in simp_all)
  then show ?thesis
    by (cases "opt_op op (pending s)") (simp_all add: StackOp src_def)
next
  case (Raw bs)
  then obtain b bs' where bs: "bs = b # bs'" using assms(1) hd_op by metis
  have "advanced s (length pre + length bs) (NoFold, pending_instrs (pending s) @ [Raw bs])
      (copy_instruction (pre @ bs @ suf) strings (length pre) s)"
    using copy_advanced [OF assms(1), of s pre suf] Raw by simp
  moreover have "opt_step (pre @ bs @ suf) strings s = copy_instruction (pre @ bs @ suf) strings (length pre) s"
    using assms Raw bs
    by (auto simp: opt_step_def Let_def raw_ok_def split: option.split pending_fold.split)
  ultimately show ?thesis using Raw by simp
qed

lemma opt_loop_block:
  assumes "list_all (instr_ok strings) is" "opt_pc s = length pre"
  shows "case opt_block is (pending s) of
      None \<Rightarrow> opt_loop (pre @ encode_block is) strings s = None
    | Some out \<Rightarrow> \<exists>s'. opt_loop (pre @ encode_block is) strings s = Some s' \<and>
        opt_out (flush_pending s') = opt_out s @ encode_block out"
  using assms
proof (induction "is" arbitrary: pre s)
  case Nil
  then show ?case by (simp add: opt_loop.simps)
next
  case (Cons i "is")
  let ?src = "pre @ encode_instr i @ encode_block is"
  have nonempty: "encode_instr i \<noteq> []"
    using Cons.prems(1) by (cases i) (auto simp: push_int_eq push_bool_eq raw_ok_def)
  then have loop: "opt_loop ?src strings s =
      (case opt_step ?src strings s of None \<Rightarrow> None | Some s' \<Rightarrow> opt_loop ?src strings s')"
    using Cons.prems(2) by (subst opt_loop.simps) (simp add: Suc_le_eq)
  have step: "case opt_instr i (pending s) of None \<Rightarrow> opt_step ?src strings s = None
      | Some r \<Rightarrow> advanced s (length pre + length (encode_instr i)) r (opt_step ?src strings s)"
    using opt_step_instr [of strings i s pre "encode_block is"] Cons.prems by simp
  show ?case
  proof (cases "opt_instr i (pending s)")
    case None
    with step loop show ?thesis by simp
  next
    case (Some r)
    with step obtain s1 where s1: "opt_step ?src strings s = Some s1"
        "opt_pc s1 = length (pre @ encode_instr i)" "pending s1 = fst r"
        "opt_out s1 = opt_out s @ encode_block (snd r)"
      by (auto simp: advanced_def)
    have "case opt_block is (fst r) of
        None \<Rightarrow> opt_loop ?src strings s1 = None
      | Some out \<Rightarrow> \<exists>s'. opt_loop ?src strings s1 = Some s' \<and>
          opt_out (flush_pending s') = opt_out s1 @ encode_block out"
      using Cons.IH [of s1 "pre @ encode_instr i"] Cons.prems(1) s1(2,3)
      by (cases "opt_block is (fst r)") simp_all
    with Some s1 loop show ?thesis
      by (cases r) (auto split: option.splits)
  qed
qed

text \<open>Without jumps the second pass changes nothing.\<close>

lemma not_jump:
  assumes "instr_ok strings i" "u8_op (hd (encode_instr i)) = Some op"
  shows "op \<notin> jump_ops"
  using assms by (cases i) (auto simp: push_int_eq push_bool_eq raw_ok_def)

lemma fix_jumps_block:
  assumes "list_all (instr_ok strings) is"
  shows "fix_jumps strings remap (length pre) (pre @ encode_block is) = Some (pre @ encode_block is)"
  using assms
proof (induction "is" arbitrary: pre)
  case Nil
  then show ?case by (simp add: fix_jumps.simps)
next
  case (Cons i "is")
  let ?out = "pre @ encode_instr i @ encode_block is"
  have nonempty: "encode_instr i \<noteq> []"
    using Cons.prems by (cases i) (auto simp: push_int_eq push_bool_eq raw_ok_def)
  then have hd: "?out ! length pre = hd (encode_instr i)"
    by (simp add: nth_append hd_conv_nth)
  have skip: "skip_instruction ?out strings (length pre) =
      Some (u8_op (hd (encode_instr i)), length (pre @ encode_instr i))"
    using skip_instr [of strings i pre "encode_block is"] Cons.prems by simp
  have "\<not> (case u8_op (hd (encode_instr i)) of Some op \<Rightarrow> op \<in> jump_ops | None \<Rightarrow> False)"
    using not_jump [of strings i] Cons.prems by (auto split: option.split)
  with skip nonempty hd have "fix_jumps strings remap (length pre) ?out =
      fix_jumps strings remap (length (pre @ encode_instr i)) ?out"
    by (subst fix_jumps.simps) simp
  also have "\<dots> = Some ?out"
    using Cons.IH [of "pre @ encode_instr i"] Cons.prems by simp
  finally show ?case by simp
qed

lemma opt_instr_ok:
  "instr_ok strings i \<Longrightarrow> opt_instr i p = Some (p', out) \<Longrightarrow> list_all (instr_ok strings) out"
  by (cases i; cases p) (auto split: if_splits option.splits)

lemma pending_instrs_ok: "list_all (instr_ok strings) (pending_instrs p)"
  by (cases p) simp_all

lemma opt_block_ok:
  "list_all (instr_ok strings) is \<Longrightarrow> opt_block is p = Some out \<Longrightarrow> list_all (instr_ok strings) out"
  by (induction "is" arbitrary: p out)
     (auto simp: pending_instrs_ok dest: opt_instr_ok split: option.splits)

lemma optimize_block:
  assumes "list_all (instr_ok strings) is"
  shows "optimize_bytecode (encode_block is) strings = map_option encode_block (opt_block is NoFold)"
proof -
  have start: "opt_pc opt_start = length []" "pending opt_start = NoFold" "opt_out opt_start = []"
    by (simp_all add: opt_start_def)
  note loop = opt_loop_block [OF assms start(1)]
  show ?thesis
  proof (cases "opt_block is NoFold")
    case None
    with loop start show ?thesis by (simp add: optimize_bytecode_def)
  next
    case (Some out)
    with loop start obtain s' where s': "opt_loop (encode_block is) strings opt_start = Some s'"
        "opt_out (flush_pending s') = encode_block out"
      by auto
    with fix_jumps_block [OF opt_block_ok [OF assms Some], of "pc_remap (flush_pending s')" "[]"] Some
    show ?thesis by (simp add: optimize_bytecode_def Let_def)
  qed
qed

text \<open>
  C16. On a block without jumps the byte-level optimizer is the peephole pass over instructions: it
  returns the encoding of the instructions \<open>opt_block\<close> emits, and runs into undefined behaviour
  exactly where a fold of \<open>opt_block\<close> does.
\<close>

theorem optimize_is_peephole:
  assumes "list_all (instr_ok strings) is"
  shows "optimize_bytecode (encode_block is) strings = map_option encode_block (opt_block is NoFold)"
  by (rule optimize_block [OF assms])

theorem optimize_is_peephole_witness:
  "optimize_bytecode (encode_block [PushInt 2, PushInt 3, StackOp ADD]) [] = Some (encode_block [PushInt 5])"
proof -
  have "in_int64 (2 + 3)" by (simp add: in_int64_def int64_min_def int64_max_def)
  then show ?thesis
    using optimize_is_peephole [of "[]" "[PushInt 2, PushInt 3, StackOp ADD]"]
    by (simp add: try_fold_binary_int_def)
qed

section \<open>The meaning of a block\<close>

text \<open>
  A block runs on an environment and an operand stack; it has no result when an instruction faults
  or is undefined. What \<open>Raw\<close> instructions do is a parameter.
\<close>

type_synonym ('e, 'o) raw_step = "byte list \<Rightarrow> 'e \<times> 'o vm_value list \<Rightarrow> ('e \<times> 'o vm_value list) option"

fun run_instr :: "'o other_ops \<Rightarrow> ('e, 'o) raw_step \<Rightarrow> instr \<Rightarrow> 'e \<times> 'o vm_value list \<Rightarrow>
    ('e \<times> 'o vm_value list) option" where
  "run_instr other raw (PushInt v) (e, st) = Some (e, IntV v # st)"
| "run_instr other raw (PushBool b) (e, st) = Some (e, BoolV b # st)"
| "run_instr other raw (StackOp op) (e, st) =
     (case stack_op other op st None of Some (st', None) \<Rightarrow> Some (e, st') | _ \<Rightarrow> None)"
| "run_instr other raw (Raw bs) s = raw bs s"

fun run_block :: "'o other_ops \<Rightarrow> ('e, 'o) raw_step \<Rightarrow> instr list \<Rightarrow> 'e \<times> 'o vm_value list \<Rightarrow>
    ('e \<times> 'o vm_value list) option" where
  "run_block other raw [] s = Some s"
| "run_block other raw (i # is) s =
     (case run_instr other raw i s of None \<Rightarrow> None | Some s' \<Rightarrow> run_block other raw is s')"

lemma run_block_append:
  "run_block other raw (is @ js) s =
     (case run_block other raw is s of None \<Rightarrow> None | Some s' \<Rightarrow> run_block other raw js s')"
  by (induction "is" arbitrary: s) (auto split: option.split)

text \<open>What the optimizer may assume of an instruction when certain constants are pending.\<close>

fun fold_safe :: "instr \<Rightarrow> pending_fold \<Rightarrow> bool" where
  "fold_safe (PushInt v) (BoolFold b) = False"
| "fold_safe (StackOp op) (PairFold l r) =
     (op \<noteq> POP \<and> (op \<in> ordering_ops \<longrightarrow> \<bar>sint l\<bar> \<le> 2 ^ 53 \<and> \<bar>sint r\<bar> \<le> 2 ^ 53))"
| "fold_safe _ _ = True"

fun block_safe :: "instr list \<Rightarrow> pending_fold \<Rightarrow> bool" where
  "block_safe [] p = True"
| "block_safe (i # is) p =
     (fold_safe i p \<and> (case opt_instr i p of None \<Rightarrow> True | Some (p', _) \<Rightarrow> block_safe is p'))"

lemma compare_folds:
  assumes "\<bar>sint l\<bar> \<le> 2 ^ 53" "\<bar>sint r\<bar> \<le> 2 ^ 53" "op \<in> ordering_ops"
  shows "compare rest op (IntV l) (IntV r) f = Some (BoolV (the (try_fold_compare_int op l r)), f)"
  using assms by (auto simp: compare_def as_number_def round53_small Let_def try_fold_compare_int_def)

text \<open>A binary instruction on two integer constants that completes is what the optimizer folds.\<close>

lemma fold_binary_sound:
  assumes "op \<in> foldable_ops" "binary_result other op (IntV l) (IntV r) None = Some (v, None)"
  shows "\<exists>w. try_fold_binary_int op l r = Some (Some w) \<and> v = IntV w"
  using assms
  by (auto simp: binary_result_def binary_arithmetic_def bitwise_def try_fold_binary_int_def Let_def
      checked_int_add_def checked_int_sub_def checked_int_mul_def div_defined_def split: if_splits)

lemma fold_compare_sound:
  assumes "op \<in> compare_ops" "fold_safe (StackOp op) (PairFold l r)"
  shows "\<exists>b. try_fold_compare_int op l r = Some b \<and>
    binary_result other op (IntV l) (IntV r) None = Some (BoolV b, None)"
proof (cases "op \<in> ordering_ops")
  case True
  then have "binary_result other op (IntV l) (IntV r) None = compare (other_binary other) op (IntV l) (IntV r) None"
    by (auto simp: binary_result_def)
  moreover have "try_fold_compare_int op l r \<noteq> None"
    using True by (auto simp: try_fold_compare_int_def)
  ultimately show ?thesis
    using compare_folds [OF _ _ True, of l r] assms(2) True by auto
next
  case False
  with assms(1) show ?thesis
    by (auto simp: binary_result_def try_fold_compare_int_def values_equal_def)
qed

lemma run_binary:
  "op \<in> binary_ops \<Longrightarrow> run_block other raw [PushInt l, PushInt r, StackOp op] (e, st) =
     (case binary_result other op (IntV l) (IntV r) None of
        Some (v, None) \<Rightarrow> Some (e, v # st) | _ \<Rightarrow> None)"
  by (auto simp: stack_op_def split: option.splits)

lemma emitted_sound:
  "r = Some (NoFold, out) \<Longrightarrow> run_block other raw out s = Some s' \<Longrightarrow>
   \<exists>p' out. r = Some (p', out) \<and> run_block other raw (out @ pending_instrs p') s = Some s'"
  by (intro exI [of _ NoFold] exI [of _ out]) simp

lemma opt_pair_sound:
  assumes ok: "op \<in> stack_ops" "fold_safe (StackOp op) (PairFold l r)"
    and run: "run_block other raw [PushInt l, PushInt r, StackOp op] s = Some s'"
  shows "\<exists>p' out. opt_op op (PairFold l r) = Some (p', out) \<and> run_block other raw (out @ pending_instrs p') s = Some s'"
proof -
  obtain e st where s: "s = (e, st)" by (cases s)
  consider (fold) "op \<in> foldable_ops" | (cmp) "op \<notin> foldable_ops" "op \<in> compare_ops"
    | (other) "op \<notin> foldable_ops" "op \<notin> compare_ops" by blast
  then show ?thesis
  proof cases
    case fold
    then have "op \<in> binary_ops" by blast
    from run [unfolded s run_binary [OF this]] obtain v
      where v: "binary_result other op (IntV l) (IntV r) None = Some (v, None)" "s' = (e, v # st)"
      by (auto split: option.splits prod.splits)
    from fold_binary_sound [OF fold v(1)] obtain w where w: "try_fold_binary_int op l r = Some (Some w)" "v = IntV w"
      by blast
    then show ?thesis
      unfolding opt_op.simps if_P [OF fold] using v s by simp
  next
    case cmp
    then have "op \<in> binary_ops" by blast
    note run' = run [unfolded s run_binary [OF this]]
    from fold_compare_sound [OF cmp(2) ok(2)] obtain b where b: "try_fold_compare_int op l r = Some b"
        "binary_result other op (IntV l) (IntV r) None = Some (BoolV b, None)"
      by blast
    with run' s show ?thesis
      unfolding opt_op.simps if_not_P [OF cmp(1)] if_P [OF cmp(2)] by simp
  next
    case other
    have "opt_op op (PairFold l r) = Some (NoFold, [PushInt l, PushInt r, StackOp op])"
      unfolding opt_op.simps if_not_P [OF other(1)] if_not_P [OF other(2)] using ok(2) by simp
    then show ?thesis using run by (rule emitted_sound)
  qed
qed

lemma opt_int_sound:
  assumes run: "run_block other raw [PushInt i, StackOp op] s = Some s'"
  shows "\<exists>p' out. opt_op op (IntFold i) = Some (p', out) \<and> run_block other raw (out @ pending_instrs p') s = Some s'"
proof -
  obtain e st where s: "s = (e, st)" by (cases s)
  consider (fold) "op \<in> foldable_ops \<union> compare_ops" | (neg) "op = NEG" | (pop) "op = POP"
    | (other) "op \<notin> foldable_ops \<union> compare_ops" "op \<noteq> NEG" "op \<noteq> POP" by blast
  then show ?thesis
  proof cases
    case fold
    show ?thesis unfolding opt_op.simps if_P [OF fold] by (rule emitted_sound [OF refl run])
  next
    case neg
    with run s show ?thesis
      by (auto simp: stack_op_def unary_result_def checked_int_neg_def split: if_splits option.splits)
  next
    case pop
    with run s show ?thesis by (simp add: stack_op_def)
  next
    case other
    then have "opt_op op (IntFold i) = Some (NoFold, [PushInt i, StackOp op])"
      unfolding opt_op.simps if_not_P [OF other(1)] by simp
    then show ?thesis using run by (rule emitted_sound)
  qed
qed

lemma opt_bool_sound:
  assumes run: "run_block other raw [PushBool b, StackOp op] s = Some s'"
  shows "\<exists>p' out. opt_op op (BoolFold b) = Some (p', out) \<and> run_block other raw (out @ pending_instrs p') s = Some s'"
proof -
  obtain e st where s: "s = (e, st)" by (cases s)
  show ?thesis
  proof (cases "op = LOGICAL_NOT \<or> op = POP")
    case True
    with run s show ?thesis by (auto simp: stack_op_def unary_result_def)
  next
    case False
    then have "opt_op op (BoolFold b) = Some (NoFold, [PushBool b, StackOp op])" by simp
    then show ?thesis using run by (rule emitted_sound)
  qed
qed

lemma opt_instr_sound:
  assumes "instr_ok strings i" "fold_safe i p"
    and run: "run_block other raw (pending_instrs p @ [i]) s = Some s'"
  shows "\<exists>p' out. opt_instr i p = Some (p', out) \<and> run_block other raw (out @ pending_instrs p') s = Some s'"
proof (cases i)
  case (PushInt v)
  obtain e st where "s = (e, st)" by (cases s)
  with PushInt assms(2) run show ?thesis by (cases p) auto
next
  case (PushBool b)
  obtain e st where "s = (e, st)" by (cases s)
  with PushBool run show ?thesis by (cases p) auto
next
  case (StackOp op)
  show ?thesis
  proof (cases p)
    case NoFold
    have "run_block other raw [StackOp op] s = Some s'" using run NoFold StackOp by simp
    then show ?thesis
      unfolding StackOp NoFold opt_instr.simps opt_op.simps by (rule emitted_sound [OF refl])
  next
    case (IntFold j)
    show ?thesis
      unfolding StackOp IntFold opt_instr.simps
      using run StackOp IntFold by (intro opt_int_sound) simp
  next
    case (PairFold l r)
    show ?thesis
      unfolding StackOp PairFold opt_instr.simps
      using run StackOp PairFold assms(1,2) by (intro opt_pair_sound) simp_all
  next
    case (BoolFold b)
    show ?thesis
      unfolding StackOp BoolFold opt_instr.simps
      using run StackOp BoolFold by (intro opt_bool_sound) simp
  qed
next
  case (Raw bs)
  show ?thesis
    unfolding Raw opt_instr.simps using run Raw by (intro emitted_sound [OF refl]) simp
qed

lemma opt_block_sound:
  assumes "list_all (instr_ok strings) is" "block_safe is p"
    "run_block other raw (pending_instrs p @ is) s = Some s'"
  shows "\<exists>out. opt_block is p = Some out \<and> run_block other raw out s = Some s'"
  using assms
proof (induction "is" arbitrary: p s)
  case Nil
  then show ?case by simp
next
  case (Cons i "is")
  have "run_block other raw ((pending_instrs p @ [i]) @ is) s = Some s'"
    using Cons.prems(3) by simp
  then obtain s1 where s1: "run_block other raw (pending_instrs p @ [i]) s = Some s1"
      "run_block other raw is s1 = Some s'"
    unfolding run_block_append [of _ _ "pending_instrs p @ [i]"] by (auto split: option.splits)
  then obtain p' out where o: "opt_instr i p = Some (p', out)"
      "run_block other raw (out @ pending_instrs p') s = Some s1"
    using opt_instr_sound [OF _ _ s1(1), of strings] Cons.prems(1,2) by auto
  then obtain s2 where s2: "run_block other raw out s = Some s2" "run_block other raw (pending_instrs p') s2 = Some s1"
    by (auto simp: run_block_append split: option.splits)
  have "run_block other raw (pending_instrs p' @ is) s2 = Some s'"
    using s2(2) s1(2) by (simp add: run_block_append)
  with Cons.IH [of p' s2] Cons.prems(1,2) o(1) obtain out2 where
    "opt_block is p' = Some out2" "run_block other raw out2 s2 = Some s'" by auto
  with o(1) s2(1) show ?case by (simp add: run_block_append)
qed

text \<open>
  C7. The optimizer keeps the meaning of a block: if the block completes on some environment and
  stack, and at no point does a comparison of constants beyond 53 bits, a \<open>POP\<close> of the second of two
  constants or an integer after a pending boolean come up (\<open>block_safe\<close>), then the optimizer succeeds
  and its output completes with the same result.
\<close>

theorem optimize_block_sound:
  assumes "list_all (instr_ok strings) is" "block_safe is NoFold" "run_block other raw is s = Some s'"
  shows "\<exists>out. optimize_bytecode (encode_block is) strings = Some (encode_block out) \<and>
    run_block other raw out s = Some s'"
  using opt_block_sound [of strings "is" NoFold other raw s s'] optimize_block [of strings "is"] assms by auto

theorem optimize_block_sound_witness:
  "\<exists>out. optimize_bytecode (encode_block [PushInt 2, PushInt 3, StackOp MUL, PushInt 7, StackOp SUB]) [] =
     Some (encode_block out) \<and>
   run_block (undefined :: unit other_ops) (\<lambda>_ _. None) out ((), []) = Some ((), [IntV (-1)])"
proof (rule optimize_block_sound)
  show "list_all (instr_ok []) [PushInt 2, PushInt 3, StackOp MUL, PushInt 7, StackOp SUB]" by simp
  have "in_int64 6" "in_int64 (-1)" by (simp_all add: in_int64_def int64_min_def int64_max_def)
  then show "block_safe [PushInt 2, PushInt 3, StackOp MUL, PushInt 7, StackOp SUB] NoFold"
      "run_block (undefined :: unit other_ops) (\<lambda>_ _. None)
        [PushInt 2, PushInt 3, StackOp MUL, PushInt 7, StackOp SUB] ((), []) = Some ((), [IntV (-1)])"
    by (simp_all add: try_fold_binary_int_def stack_op_def binary_result_def binary_arithmetic_def
        checked_int_mul_def checked_int_sub_def)
qed

section \<open>Where it does not\<close>

text \<open>
  C32. Three things the pass gets wrong, on any constants: a boolean followed by an integer loses the
  boolean, popping the second of two integers removes both, and an addition of constants that
  overflows (which at run time is a fault the program can trap) is undefined behaviour in the
  optimizer itself.
\<close>

theorem optimizer_loses_constants:
  "optimize_bytecode (encode_block [PushBool b, PushInt v]) strings = Some (encode_block [PushInt v]) \<and>
   optimize_bytecode (encode_block [PushInt v, PushInt w, StackOp POP]) strings = Some [] \<and>
   (in_int64 (sint v + sint w) \<or>
      optimize_bytecode (encode_block [PushInt v, PushInt w, StackOp ADD]) strings = None)"
proof -
  have ok: "list_all (instr_ok strings) [PushBool b, PushInt v]"
    "list_all (instr_ok strings) [PushInt v, PushInt w, StackOp POP]"
    "list_all (instr_ok strings) [PushInt v, PushInt w, StackOp ADD]" by simp_all
  show ?thesis
    unfolding ok [THEN optimize_block] by (simp add: try_fold_binary_int_def)
qed

text \<open>
  Two branches that push 1 or 2 and meet before 3 is added. The constant of the second branch is
  folded with the 3 behind the meeting point; neither the second branch nor the meeting point has a
  recorded position then, and both jumps fall back on an earlier one and end up past the code.
\<close>

definition jump_to :: "opcode \<Rightarrow> u32 \<Rightarrow> byte list" where
  "jump_to op target = append_u32 [op_u8 op] target"

definition choice_code :: "byte list" where
  "choice_code = op_u8 PUSH_NULL # jump_to JMP_IF_FALSE 20 @ push_int 1 @ jump_to JMP 29 @
     push_int 2 @ push_int 3 @ [op_u8 ADD]"

text \<open>
  Folding across a jump target breaks the program: of two branches that push 1 or 2 before 3 is
  added, the optimized code leaves 1 when the first is taken and nothing when the second is.
\<close>

theorem folding_across_targets:
  "optimize_bytecode choice_code [] =
     Some (op_u8 PUSH_NULL # jump_to JMP_IF_FALSE 29 @ push_int 1 @ jump_to JMP 29 @ push_int 5) \<and>
   length (op_u8 PUSH_NULL # jump_to JMP_IF_FALSE 29 @ push_int 1 @ jump_to JMP 29 @ push_int 5) = 29"
  by code_simp

end
