(* ===== verification/Predictor.thy ===== *)
theory Predictor
  imports Munx_Prelude
begin

text \<open>
  The runtime profile of a code blob (\<open>jit/execution_profile.hpp\<close>) and the branch predictor that is
  trained and warm-started from it (\<open>jit/branch_predictor.hpp\<close>). Counters keep their widths: the
  profile counts in 32 bits, a predictor entry has signed 8-bit weights. The tables of the predictor
  are functions from an index; the lemmas show every index is inside the C++ array.
\<close>

type_synonym int8 = "8 word"

section \<open>Profiles\<close>

record branch_profile =
  taken :: u32
  not_taken :: u32

definition new_branch :: branch_profile where
  "new_branch = \<lparr>taken = 0, not_taken = 0\<rparr>"

definition total :: "branch_profile \<Rightarrow> u32" where
  "total site = taken site + not_taken site"

definition strongly_taken :: "branch_profile \<Rightarrow> bool" where
  "strongly_taken site = (let count = total site in 32 \<le> count \<and> count * 19 \<le> taken site * 20)"

definition strongly_not_taken :: "branch_profile \<Rightarrow> bool" where
  "strongly_not_taken site = (let count = total site in 32 \<le> count \<and> count * 19 \<le> not_taken site * 20)"

definition biased_taken :: "branch_profile \<Rightarrow> bool" where
  "biased_taken site = (let count = total site in 8 \<le> count \<and> count * 2 \<le> taken site * 3)"

definition biased_not_taken :: "branch_profile \<Rightarrow> bool" where
  "biased_not_taken site = (let count = total site in 8 \<le> count \<and> count * 2 \<le> not_taken site * 3)"

text \<open>
  The two hash maps are association lists with distinct keys, newest first; their iteration order,
  which the library leaves open, is the list's.
\<close>

record execution_profile =
  generation :: u32
  interpret_runs :: u32
  block_hits :: "u64 \<Rightarrow> u32 option"
  branches :: "(u64 \<times> branch_profile) list"

definition new_profile :: execution_profile where
  "new_profile = \<lparr>generation = 0, interpret_runs = 0, block_hits = Map.empty, branches = []\<rparr>"

definition record_block :: "u64 \<Rightarrow> execution_profile \<Rightarrow> execution_profile" where
  "record_block pc p =
     p\<lparr>block_hits := (block_hits p)(pc \<mapsto> (case block_hits p pc of None \<Rightarrow> 0 | Some n \<Rightarrow> n) + 1)\<rparr>"

definition bump_generation :: "execution_profile \<Rightarrow> execution_profile" where
  "bump_generation p = p\<lparr>generation := generation p + 1\<rparr>"

definition note_interpret_run :: "execution_profile \<Rightarrow> execution_profile" where
  "note_interpret_run p = p\<lparr>interpret_runs := interpret_runs p + 1\<rparr>"

definition site_at :: "u64 \<Rightarrow> execution_profile \<Rightarrow> branch_profile" where
  "site_at pc p = (case map_of (branches p) pc of None \<Rightarrow> new_branch | Some site \<Rightarrow> site)"

fun put_site :: "u64 \<Rightarrow> branch_profile \<Rightarrow> (u64 \<times> branch_profile) list \<Rightarrow> (u64 \<times> branch_profile) list" where
  "put_site pc site [] = [(pc, site)]"
| "put_site pc site ((k, v) # rest) =
     (if k = pc then (k, site) # rest else (k, v) # put_site pc site rest)"

definition record_branch :: "u64 \<Rightarrow> bool \<Rightarrow> execution_profile \<Rightarrow> execution_profile" where
  "record_branch branch_pc was_taken p =
     (let site = site_at branch_pc p;
          site = (if was_taken then site\<lparr>taken := taken site + 1\<rparr>
                  else site\<lparr>not_taken := not_taken site + 1\<rparr>);
          p = p\<lparr>branches := put_site branch_pc site (branches p)\<rparr>
      in if total site = 32 \<or> total site = 128 \<or> total site = 512 then bump_generation p else p)"

definition branch_total :: "u64 \<Rightarrow> execution_profile \<Rightarrow> u32" where
  "branch_total branch_pc p =
     (case map_of (branches p) branch_pc of None \<Rightarrow> 0 | Some site \<Rightarrow> total site)"

definition branch_likely_taken :: "u64 \<Rightarrow> execution_profile \<Rightarrow> bool" where
  "branch_likely_taken branch_pc p =
     (case map_of (branches p) branch_pc of None \<Rightarrow> False | Some site \<Rightarrow> biased_taken site)"

definition is_mature :: "execution_profile \<Rightarrow> bool" where
  "is_mature p \<longleftrightarrow>
     256 \<le> foldl (\<lambda>events (_, site). events + total site) 0 (branches p) \<or> 1 \<le> interpret_runs p"

section \<open>The predictor\<close>

abbreviation history_bits :: nat where "history_bits \<equiv> 12"
abbreviation table_size :: u64 where "table_size \<equiv> 4096"
abbreviation back_edge_table_size :: u64 where "back_edge_table_size \<equiv> 256"
abbreviation local_history_size :: u64 where "local_history_size \<equiv> 256"
abbreviation confidence_threshold :: int where "confidence_threshold \<equiv> 8"

record predictor_entry =
  bias :: int8
  weights :: "int8 list"
  counter :: byte
  warmup :: byte

definition new_entry :: predictor_entry where
  "new_entry = \<lparr>bias = 0, weights = replicate history_bits 0, counter = 1, warmup = 0\<rparr>"

record branch_predictor =
  table :: "u64 \<Rightarrow> predictor_entry"
  back_edge_table :: "u64 \<Rightarrow> byte"
  local_history :: "u64 \<Rightarrow> byte"
  history :: u32

definition new_predictor :: branch_predictor where
  "new_predictor = \<lparr>table = (\<lambda>_. new_entry), back_edge_table = (\<lambda>_. 0), local_history = (\<lambda>_. 0),
     history = 0\<rparr>"

definition back_edge_index :: "u64 \<Rightarrow> u64" where
  "back_edge_index branch_pc = drop_bit 4 branch_pc AND (back_edge_table_size - 1)"

definition local_index :: "u64 \<Rightarrow> u64" where
  "local_index branch_pc = branch_pc AND (local_history_size - 1)"

definition index_for :: "u64 \<Rightarrow> branch_predictor \<Rightarrow> u64" where
  "index_for branch_pc p =
     (let local = (ucast (local_history p (local_index branch_pc)) :: u32)
      in (drop_bit 2 branch_pc XOR ucast (history p) XOR ucast (push_bit 4 local)) AND (table_size - 1))"

text \<open>The loop over the history bits: the weights of the set bits are added up.\<close>

primrec perceptron_sum :: "int8 list \<Rightarrow> u32 \<Rightarrow> int \<Rightarrow> int" where
  "perceptron_sum [] h acc = acc"
| "perceptron_sum (w # ws) h acc =
     perceptron_sum ws (drop_bit 1 h) (if h AND 1 \<noteq> 0 then acc + sint w else acc)"

definition predict :: "u64 \<Rightarrow> u64 \<Rightarrow> branch_predictor \<Rightarrow> bool" where
  "predict branch_pc jump_pc p =
     (let back_edge = jump_pc < branch_pc;
          loop_counter = back_edge_table p (back_edge_index branch_pc);
          slot = table p (index_for branch_pc p);
          acc = perceptron_sum (weights slot) (history p) (sint (bias slot))
      in if back_edge \<and> 2 \<le> loop_counter then True
         else if back_edge \<and> loop_counter \<le> 1 \<and> loop_counter \<noteq> 0 then False
         else if confidence_threshold \<le> acc then True
         else if acc \<le> - confidence_threshold then False
         else if warmup slot < 4 \<and> back_edge then True
         else if warmup slot < 4 \<and> branch_pc < jump_pc then False
         else 2 \<le> counter slot)"

text \<open>The two-bit counters: \<open>loop_counter\<close> and \<open>slot.counter\<close> move the same way.\<close>

definition two_bit :: "bool \<Rightarrow> byte \<Rightarrow> byte" where
  "two_bit was_taken c =
     (if was_taken then (if c < 3 then c + 1 else c) else (if 0 < c then c - 1 else c))"

text \<open>
  \<open>bias += direction\<close> and \<open>static_cast<int8_t>(weight + direction)\<close> add in \<open>int\<close> and convert back to
  8 bits; only then come the two comparisons.
\<close>

definition nudge :: "int \<Rightarrow> int8 \<Rightarrow> int8" where
  "nudge direction w =
     (let w' = word_of_int (sint w + direction) :: int8
      in if 127 < sint w' then 127 else if sint w' < -128 then word_of_int (-128) else w')"

primrec train_weights :: "int \<Rightarrow> int8 list \<Rightarrow> u32 \<Rightarrow> int8 list" where
  "train_weights direction [] h = []"
| "train_weights direction (w # ws) h =
     (if h AND 1 \<noteq> 0 then nudge direction w else w) # train_weights direction ws (drop_bit 1 h)"

definition train_entry :: "bool \<Rightarrow> u32 \<Rightarrow> predictor_entry \<Rightarrow> predictor_entry" where
  "train_entry was_taken h slot =
     (let direction = (if was_taken then 1 else -1)
      in \<lparr>bias = nudge direction (bias slot), weights = train_weights direction (weights slot) h,
          counter = two_bit was_taken (counter slot),
          warmup = (if warmup slot < 255 then warmup slot + 1 else warmup slot)\<rparr>)"

definition train :: "u64 \<Rightarrow> bool \<Rightarrow> u64 \<Rightarrow> branch_predictor \<Rightarrow> branch_predictor" where
  "train branch_pc was_taken jump_pc p =
     (let loops = (if jump_pc < branch_pc
            then (back_edge_table p)(back_edge_index branch_pc :=
                   two_bit was_taken (back_edge_table p (back_edge_index branch_pc)))
            else back_edge_table p);
          index = index_for branch_pc p;
          bit0 = (if was_taken then 1 else 0)
      in \<lparr>table = (table p)(index := train_entry was_taken (history p) (table p index)),
          back_edge_table = loops,
          local_history = (local_history p)(local_index branch_pc :=
            ucast ((push_bit 1 (ucast (local_history p (local_index branch_pc)) :: u32) OR
                    (if was_taken then 1 else 0)) AND 0xFF)),
          history = (push_bit 1 (history p) OR bit0) AND (push_bit history_bits 1 - 1)\<rparr>)"

definition seed_slot :: "bool \<Rightarrow> predictor_entry \<Rightarrow> predictor_entry" where
  "seed_slot expected_taken slot =
     (if expected_taken then slot\<lparr>counter := 3, bias := 32\<rparr>
      else slot\<lparr>counter := 0, bias := word_of_int (-32)\<rparr>)"

definition seed_static_hint :: "u64 \<Rightarrow> bool \<Rightarrow> branch_predictor \<Rightarrow> branch_predictor" where
  "seed_static_hint branch_pc expected_taken p =
     (let index = index_for branch_pc p
      in p\<lparr>table := (table p)(index := (seed_slot expected_taken (table p index))\<lparr>warmup := 255\<rparr>)\<rparr>)"

definition seed_rounds :: "u32 \<Rightarrow> nat" where
  "seed_rounds count = (if 64 \<le> count then 6 else if 16 \<le> count then 4 else 2)"

definition seed_site :: "u64 \<Rightarrow> branch_profile \<Rightarrow> branch_predictor \<Rightarrow> branch_predictor" where
  "seed_site branch_pc site p =
     (if total site = 0 then p
      else
        (let p1 = (train branch_pc (not_taken site \<le> taken site) branch_pc ^^ seed_rounds (total site)) p;
             index = index_for branch_pc p1;
             slot = table p1 index;
             slot = (if strongly_taken site then seed_slot True slot
                     else if strongly_not_taken site then seed_slot False slot else slot)
         in p1\<lparr>table := (table p1)(index := slot\<lparr>warmup := 255\<rparr>)\<rparr>))"

definition seed_from_profile :: "execution_profile \<Rightarrow> branch_predictor \<Rightarrow> branch_predictor" where
  "seed_from_profile profile p = fold (\<lambda>(pc, site). seed_site pc site) (branches profile) p"

section \<open>The tables stay in bounds\<close>

definition entry_ok :: "predictor_entry \<Rightarrow> bool" where
  "entry_ok e \<longleftrightarrow> length (weights e) = history_bits \<and> counter e \<le> 3"

definition predictor_inv :: "branch_predictor \<Rightarrow> bool" where
  "predictor_inv p \<longleftrightarrow> (\<forall>i. entry_ok (table p i)) \<and> (\<forall>i. back_edge_table p i \<le> 3) \<and> history p < 4096"

lemma byte_le_3: "c \<le> 3 \<longleftrightarrow> c = 0 \<or> c = 1 \<or> c = 2 \<or> c = 3" for c :: byte
proof
  assume "c \<le> 3"
  then have "unat c = 0 \<or> unat c = 1 \<or> unat c = 2 \<or> unat c = 3"
    by (simp add: word_le_nat_alt) arith
  then show "c = 0 \<or> c = 1 \<or> c = 2 \<or> c = 3"
    by (simp add: word_unat_eq_iff)
qed auto

lemma two_bit_le: "c \<le> 3 \<Longrightarrow> two_bit b c \<le> 3"
  unfolding byte_le_3 by (auto simp: two_bit_def)

lemma train_weights_length [simp]: "length (train_weights d ws h) = length ws"
  by (induction ws arbitrary: h) auto

lemma mask_bounded: "12 < LENGTH('a) \<Longrightarrow> w AND 0xFFF < 4096" for w :: "'a::len word"
  using and_mask_less' [of 12 w] by (simp add: mask_eq_exp_minus_1)

lemma entry_ok_new [simp]: "entry_ok new_entry"
  by (simp add: entry_ok_def new_entry_def)

lemma entry_ok_train: "entry_ok e \<Longrightarrow> entry_ok (train_entry b h e)"
  by (simp add: entry_ok_def train_entry_def Let_def two_bit_le)

lemma entry_ok_seed: "entry_ok e \<Longrightarrow> entry_ok (seed_slot b e)"
  by (simp add: entry_ok_def seed_slot_def)

lemma entry_ok_warmup [simp]: "entry_ok (e\<lparr>warmup := w\<rparr>) \<longleftrightarrow> entry_ok e"
  by (simp add: entry_ok_def)

lemma inv_new: "predictor_inv new_predictor"
  by (simp add: predictor_inv_def new_predictor_def)

lemma inv_train: "predictor_inv p \<Longrightarrow> predictor_inv (train pc b j p)"
  by (auto simp: predictor_inv_def train_def Let_def entry_ok_train two_bit_le mask_bounded)

lemma inv_trains: "predictor_inv p \<Longrightarrow> predictor_inv ((train pc b j ^^ n) p)"
  by (induction n) (auto simp: inv_train)

lemma inv_slot: "predictor_inv p \<Longrightarrow> entry_ok e \<Longrightarrow> predictor_inv (p\<lparr>table := (table p)(i := e)\<rparr>)"
  by (simp add: predictor_inv_def)

lemma inv_table: "predictor_inv p \<Longrightarrow> entry_ok (table p i)"
  by (simp add: predictor_inv_def)

lemma inv_hint: "predictor_inv p \<Longrightarrow> predictor_inv (seed_static_hint pc b p)"
  by (simp add: seed_static_hint_def Let_def inv_slot entry_ok_seed inv_table)

lemma inv_site: "predictor_inv p \<Longrightarrow> predictor_inv (seed_site pc site p)"
  by (auto simp: seed_site_def Let_def inv_trains intro!: inv_slot entry_ok_seed inv_table)

lemma inv_sites: "predictor_inv p \<Longrightarrow> predictor_inv (fold (\<lambda>(pc, site). seed_site pc site) sites p)"
  by (induction sites arbitrary: p) (auto simp: inv_site)

lemma inv_profile: "predictor_inv p \<Longrightarrow> predictor_inv (seed_from_profile profile p)"
  by (simp add: seed_from_profile_def inv_sites)

inductive predictor_reachable :: "branch_predictor \<Rightarrow> bool" where
  start: "predictor_reachable new_predictor"
| trained: "predictor_reachable p \<Longrightarrow> predictor_reachable (train pc b jump p)"
| hinted: "predictor_reachable p \<Longrightarrow> predictor_reachable (seed_static_hint pc b p)"
| seeded: "predictor_reachable p \<Longrightarrow> predictor_reachable (seed_from_profile profile p)"

lemma reachable_inv: "predictor_reachable p \<Longrightarrow> predictor_inv p"
  by (induction rule: predictor_reachable.induct) (auto intro: inv_new inv_train inv_hint inv_profile)

text \<open>
  C29. Whatever it is trained with, the predictor never indexes outside its arrays: the entry,
  loop and local-history indices are below the table sizes, every entry has twelve weights and the
  history has no bit above the twelfth; its two-bit counters stay two bits wide.
\<close>

theorem predictor_in_bounds:
  assumes "predictor_reachable p"
  shows "index_for pc p < table_size \<and> back_edge_index pc < back_edge_table_size \<and>
    local_index pc < local_history_size \<and> length (weights (table p i)) = history_bits \<and>
    counter (table p i) \<le> 3 \<and> back_edge_table p j \<le> 3 \<and> history p < 2 ^ history_bits"
proof -
  have byte: "w AND 0xFF < (256 :: u64)" for w :: u64
    using and_mask_less' [of 8 w] by (simp add: mask_eq_exp_minus_1)
  show ?thesis
    using reachable_inv [OF assms]
    by (simp add: predictor_inv_def entry_ok_def index_for_def back_edge_index_def local_index_def
        Let_def mask_bounded byte)
qed

theorem predictor_in_bounds_witness:
  "index_for 77 (train 40 True 8 new_predictor) < 4096"
  using predictor_in_bounds [OF trained [OF start], of 77 40 True 8] by blast

section \<open>Loop branches\<close>

lemma funpow_2: "(f ^^ 2) x = f (f x)"
  by (simp add: numeral_eq_Suc)

lemma funpow_3: "(f ^^ 3) x = f (f (f x))"
  by (simp add: numeral_eq_Suc)

text \<open>
  The loop table has hysteresis: a back edge that was taken three times is predicted taken, one
  exit does not change that, and a second exit does.
\<close>

theorem loop_hysteresis:
  assumes "predictor_reachable p" "jump < pc"
  shows "let p3 = (train pc True jump ^^ 3) p
    in predict pc jump p3 \<and> predict pc jump (train pc False jump p3) \<and>
       \<not> predict pc jump ((train pc False jump ^^ 2) p3)"
proof -
  let ?c = "\<lambda>p. back_edge_table p (back_edge_index pc)"
  have step: "?c (train pc b jump p) = two_bit b (?c p)" for b p
    using assms(2) by (simp add: train_def Let_def)
  have "?c p = 0 \<or> ?c p = 1 \<or> ?c p = 2 \<or> ?c p = 3"
    using reachable_inv [OF assms(1)] by (simp add: predictor_inv_def byte_le_3)
  then have c3: "?c ((train pc True jump ^^ 3) p) = 3"
    by (auto simp: funpow_3 step two_bit_def)
  moreover have "\<not> (2 :: byte) \<le> 1"
    by (simp add: word_le_nat_alt)
  ultimately show ?thesis
    using assms(2) by (simp add: Let_def predict_def funpow_2 step two_bit_def)
qed

theorem loop_hysteresis_witness:
  "let p3 = (train 40 True 8 ^^ 3) new_predictor
   in predict 40 8 p3 \<and> predict 40 8 (train 40 False 8 p3) \<and> \<not> predict 40 8 ((train 40 False 8 ^^ 2) p3)"
  by (rule loop_hysteresis [OF start]) simp

section \<open>The perceptron\<close>

lemma nudge_wraps: "nudge d w = w + word_of_int d"
proof -
  have "\<not> 127 < sint v" "\<not> sint v < -128" for v :: int8
    using sint_range_size [of v] by (simp_all add: word_size)
  then show ?thesis by (simp add: nudge_def Let_def)
qed

lemma low_bit: "h AND 1 \<noteq> 0 \<longleftrightarrow> bit h 0" for h :: u32
  by (simp add: and_one_eq bit_0 odd_iff_mod_2_eq_one)

lemma all_weights:
  "\<forall>k < n. bit h k \<Longrightarrow> train_weights d (replicate n w) h = replicate n (w + word_of_int d)"
proof (induction n arbitrary: h)
  case (Suc n)
  then have "bit h 0" "\<forall>k < n. bit (drop_bit 1 h) k" by (auto simp: bit_simps)
  with Suc.IH show ?case by (simp add: low_bit nudge_wraps)
qed simp

lemma all_summed:
  "\<forall>k < n. bit h k \<Longrightarrow> perceptron_sum (replicate n w) h acc = acc + int n * sint w"
proof (induction n arbitrary: h acc)
  case (Suc n)
  then have "bit h 0" "\<forall>k < n. bit (drop_bit 1 h) k" by (auto simp: bit_simps)
  with Suc.IH show ?case by (simp add: low_bit algebra_simps)
qed simp

lemma bits_mask_12: "\<forall>k < 12. bit (0xFFF :: u32) k"
proof -
  have "\<forall>k < 12. bit (mask 12 :: u32) k" by (simp add: bit_simps)
  then show ?thesis by (simp add: mask_eq_exp_minus_1)
qed

text \<open>
  A branch that has been taken throughout its recent past: both histories are full, and so is the
  index they select. \<open>steady n\<close> is its entry after \<open>n\<close> more outcomes of the same kind.
\<close>

definition steady :: "nat \<Rightarrow> u64 \<Rightarrow> branch_predictor \<Rightarrow> bool" where
  "steady n pc p \<longleftrightarrow> history p = 0xFFF \<and> local_history p (local_index pc) = 0xFF \<and>
     bias (table p (index_for pc p)) = of_nat n \<and>
     weights (table p (index_for pc p)) = replicate history_bits (of_nat n)"

lemma steady_index: "steady n pc p \<Longrightarrow> steady n pc q \<Longrightarrow> index_for pc p = index_for pc q"
  by (simp add: steady_def index_for_def Let_def)

lemma steady_train:
  assumes "steady n pc p"
  shows "steady (Suc n) pc (train pc True jump p)"
proof -
  let ?q = "train pc True jump p"
  have h: "history ?q = 0xFFF" "local_history ?q (local_index pc) = 0xFF"
    using assms by (simp_all add: steady_def train_def Let_def)
  then have i: "index_for pc ?q = index_for pc p"
    using assms by (simp add: steady_def index_for_def Let_def)
  have "table ?q (index_for pc p) = train_entry True 0xFFF (table p (index_for pc p))"
    using assms by (simp add: steady_def train_def Let_def)
  with assms h i show ?thesis
    by (simp add: steady_def train_entry_def Let_def all_weights [OF bits_mask_12] nudge_wraps add.commute)
qed

lemma steady_trains: "steady 0 pc p \<Longrightarrow> steady n pc ((train pc True jump ^^ n) p)"
  by (induction n) (auto simp: steady_train)

lemma steady_predict:
  assumes "steady n pc p" "pc < jump"
  shows "8 \<le> 13 * sint (of_nat n :: int8) \<Longrightarrow> predict pc jump p"
    and "13 * sint (of_nat n :: int8) \<le> - 8 \<Longrightarrow> \<not> predict pc jump p"
  using assms by (auto simp: steady_def predict_def Let_def all_summed [OF bits_mask_12])

text \<open>
  The comparisons after \<open>bias += direction\<close> and after the cast to \<open>int8_t\<close> come too late to
  saturate: a forward branch with full histories and a fresh entry that is always taken is predicted
  taken after 127 more outcomes and not taken after the next one, when every weight has wrapped
  around to -128.
\<close>

theorem always_taken_wraps:
  assumes "steady 0 pc p" "pc < jump"
  shows "predict pc jump ((train pc True jump ^^ 127) p) \<and>
    \<not> predict pc jump ((train pc True jump ^^ 128) p)"
  using steady_predict [OF steady_trains [OF assms(1)] assms(2)]
  by (simp add: of_nat_numeral)

definition full_history :: branch_predictor where
  "full_history = new_predictor\<lparr>history := 0xFFF, local_history := (\<lambda>_. 0xFF)\<rparr>"

theorem always_taken_wraps_witness:
  "\<not> predict 16 64 ((train 16 True 64 ^^ 128) full_history)"
proof -
  have "steady 0 16 full_history"
    by (simp add: steady_def full_history_def new_predictor_def new_entry_def)
  then show ?thesis using always_taken_wraps [of 16 full_history 64] by simp
qed

section \<open>Counting branches\<close>

lemma map_of_put_site: "map_of (put_site pc site xs) = (map_of xs)(pc \<mapsto> site)"
  by (induction pc site xs rule: put_site.induct) auto

lemma record_branch_site:
  "map_of (branches (record_branch pc b p)) =
     (map_of (branches p))(pc \<mapsto> (if b then (site_at pc p)\<lparr>taken := taken (site_at pc p) + 1\<rparr>
       else (site_at pc p)\<lparr>not_taken := not_taken (site_at pc p) + 1\<rparr>))"
  by (simp add: record_branch_def Let_def bump_generation_def map_of_put_site)

lemma record_branch_generation:
  "generation (record_branch pc b p) = generation p +
     (if total (site_at pc p) + 1 \<in> {32, 128, 512} then 1 else 0)"
  by (auto simp: record_branch_def Let_def bump_generation_def total_def add.assoc add.commute add.left_commute)

definition outcomes :: "bool list \<Rightarrow> branch_profile" where
  "outcomes os = \<lparr>taken = of_nat (count_list os True), not_taken = of_nat (count_list os False)\<rparr>"

lemma total_outcomes: "total (outcomes os) = of_nat (length os)"
proof -
  have "count_list os True + count_list os False = length os"
    by (induction os) auto
  then show ?thesis by (simp add: total_def outcomes_def flip: of_nat_add)
qed

lemma of_nat_eq_u32: "n < 2 ^ 32 \<Longrightarrow> k < 2 ^ 32 \<Longrightarrow> (of_nat n :: u32) = of_nat k \<longleftrightarrow> n = k"
  by (simp add: word_unat_eq_iff unat_of_nat)

text \<open>How often a counter that goes up by one passes the three marks.\<close>

definition marks :: "nat \<Rightarrow> nat" where
  "marks n = of_bool (32 \<le> n) + of_bool (128 \<le> n) + of_bool (512 \<le> n)"

lemma marks_Suc: "marks (Suc n) = marks n + (if Suc n \<in> {32, 128, 512} then 1 else 0)"
  by (auto simp: marks_def)

lemma record_all:
  assumes "map_of (branches p) pc = None" "length os < 2 ^ 32"
  shows "map_of (branches (fold (record_branch pc) os p)) =
      (if os = [] then map_of (branches p) else (map_of (branches p))(pc \<mapsto> outcomes os))
    \<and> generation (fold (record_branch pc) os p) = generation p + of_nat (marks (length os))"
  using assms(2)
proof (induction os rule: rev_induct)
  case Nil
  then show ?case by (simp add: marks_def)
next
  case (snoc b os)
  let ?q = "fold (record_branch pc) os p"
  have site: "site_at pc ?q = outcomes os"
    using snoc assms(1) by (cases os) (auto simp: site_at_def outcomes_def new_branch_def)
  have t: "total (outcomes os) + 1 = of_nat (Suc (length os))"
    by (simp add: total_outcomes add.commute)
  have marks: "(of_nat (Suc (length os)) :: u32) \<in> {32, 128, 512} \<longleftrightarrow> Suc (length os) \<in> {32, 128, 512}"
    using snoc.prems of_nat_eq_u32 [of "Suc (length os)" 32] of_nat_eq_u32 [of "Suc (length os)" 128]
      of_nat_eq_u32 [of "Suc (length os)" 512] by simp
  have m: "map_of (branches (record_branch pc b ?q)) = (map_of (branches p))(pc \<mapsto> outcomes (os @ [b]))"
    using snoc unfolding record_branch_site site by (auto simp: outcomes_def add.commute)
  have "generation (record_branch pc b ?q) = generation ?q + of_nat (marks (Suc (length os)) - marks (length os))"
    unfolding record_branch_generation site t marks by (simp add: marks_Suc)
  also have "\<dots> = generation p + of_nat (marks (length (os @ [b])))"
    using snoc by (simp add: marks_Suc)
  finally show ?case using m by simp
qed

text \<open>
  Recording the outcomes of a branch that has no profile yet counts each kind, leaves every
  other branch's counters alone, and bumps the generation exactly once at each of the 32nd, the
  128th and the 512th outcome.
\<close>

theorem record_branch_counts:
  assumes "map_of (branches p) pc = None" "length os < 2 ^ 32" "os \<noteq> []"
  shows "map_of (branches (fold (record_branch pc) os p)) = (map_of (branches p))(pc \<mapsto>
      \<lparr>taken = of_nat (count_list os True), not_taken = of_nat (count_list os False)\<rparr>)
    \<and> generation (fold (record_branch pc) os p) = generation p +
      of_bool (32 \<le> length os) + of_bool (128 \<le> length os) + of_bool (512 \<le> length os)"
  using record_all [OF assms(1,2)] assms(3) by (simp add: outcomes_def marks_def add.assoc)

theorem record_branch_counts_witness:
  "generation (fold (record_branch 8) (replicate 130 True) new_profile) = 2"
proof -
  have "generation (fold (record_branch 8) (replicate 130 True) new_profile) = 0 + 1 + 1 + 0"
    using record_branch_counts [of new_profile 8 "replicate 130 True"] by (simp add: new_profile_def)
  then show ?thesis by simp
qed

section \<open>Thresholds\<close>

lemma u32_scaled:
  assumes "unat a + unat b \<le> 214748364" "k \<le> 20"
  shows "unat ((a + b) * of_nat k :: u32) = (unat a + unat b) * k" "unat (a * of_nat k :: u32) = unat a * k"
proof -
  have k: "unat (of_nat k :: u32) = k" using assms(2) by (simp add: unat_of_nat)
  have "(unat a + unat b) * k \<le> 214748364 * 20" using assms by (intro mult_mono) auto
  moreover from this have "unat a * k \<le> 214748364 * 20" by (simp add: algebra_simps)
  ultimately show "unat ((a + b) * of_nat k :: u32) = (unat a + unat b) * k"
    "unat (a * of_nat k :: u32) = unat a * k"
    using assms(1) by (simp_all add: unat_word_ariths k)
qed

lemma strongly_taken_overflows: "\<not> strongly_taken \<lparr>taken = 214748365, not_taken = 0\<rparr>"
  by (simp add: strongly_taken_def total_def)

text \<open>
  As long as a site has at most 214748364 outcomes, the thresholds are the intended ratios:
  strongly taken means at least 19 in 20 of 32 or more, biased means at least 2 in 3 of 8 or more,
  and no site is strongly taken and strongly not taken. With one outcome more the product wraps
  around: a branch taken 214748365 times out of as many is not strongly taken.
\<close>

theorem thresholds_exact:
  assumes "unat (taken site) + unat (not_taken site) \<le> 214748364"
  shows "let t = unat (taken site); n = unat (not_taken site) in
    (strongly_taken site \<longleftrightarrow> 32 \<le> t + n \<and> 19 * n \<le> t) \<and>
    (strongly_not_taken site \<longleftrightarrow> 32 \<le> t + n \<and> 19 * t \<le> n) \<and>
    (biased_taken site \<longleftrightarrow> 8 \<le> t + n \<and> 2 * n \<le> t) \<and>
    (biased_not_taken site \<longleftrightarrow> 8 \<le> t + n \<and> 2 * t \<le> n) \<and>
    \<not> (strongly_taken site \<and> strongly_not_taken site) \<and>
    \<not> strongly_taken \<lparr>taken = 214748365, not_taken = 0\<rparr>"
proof -
  let ?t = "taken site" and ?n = "not_taken site"
  have swap: "unat ?n + unat ?t \<le> 214748364" using assms by simp
  note s = u32_scaled [OF assms, of 19] u32_scaled [OF assms, of 20] u32_scaled [OF assms, of 2]
    u32_scaled [OF assms, of 3] u32_scaled [OF assms, of 1] u32_scaled [OF swap, of 20] u32_scaled [OF swap, of 3]
  show ?thesis
    using s assms strongly_taken_overflows
    by (simp add: Let_def strongly_taken_def strongly_not_taken_def biased_taken_def
        biased_not_taken_def total_def word_le_nat_alt) presburger
qed

theorem thresholds_exact_witness: "strongly_taken \<lparr>taken = 38, not_taken = 2\<rparr>"
  using thresholds_exact [of "\<lparr>taken = 38, not_taken = 2\<rparr>"] by (simp add: Let_def)

end
