(* ===== verification/Pgo_Optimizer.thy ===== *)
theory Pgo_Optimizer
  imports Predictor Bytecode_Optimizer
begin

text \<open>
  Profile-guided specialization (\<open>jit/pgo_optimizer.hpp\<close>): the static warm start of the predictor
  from the back edges of the code, the removal of strongly biased branches, and the whole pipeline
  in front of the JIT. \<open>None\<close> is an abort of the cursor or a copy that reads past the code.
\<close>

section \<open>Warm start from the code\<close>

function seed_predictor_loop ::
    "byte list \<Rightarrow> string \<Rightarrow> nat \<Rightarrow> branch_predictor \<Rightarrow> branch_predictor option" where
  "seed_predictor_loop source strings branch_pc predictor =
     (if length source \<le> branch_pc then Some predictor
      else if u8_op (source ! branch_pc) \<in> {Some JMP_IF_FALSE, Some JMP_IF_TRUE} then
        (case cur_u32 source (branch_pc + 1) of
           None \<Rightarrow> None
         | Some (target, pc) \<Rightarrow>
             seed_predictor_loop source strings pc
               (if unat target < branch_pc
                then (train (word_of_nat branch_pc) True (ucast target) ^^ 4) predictor
                else predictor))
      else
        (case skip_instruction source strings branch_pc of
           None \<Rightarrow> None
         | Some (_, pc) \<Rightarrow> seed_predictor_loop source strings pc predictor))"
  by pat_completeness auto
termination
  by (relation "measure (\<lambda>(source, strings, pc, predictor). length source - pc)")
     (auto dest!: cur_u32_Some skip_instruction_forward)

declare seed_predictor_loop.simps [simp del]

definition seed_predictor_from_bytecode ::
    "byte list \<Rightarrow> string \<Rightarrow> branch_predictor \<Rightarrow> branch_predictor option" where
  "seed_predictor_from_bytecode source strings predictor = seed_predictor_loop source strings 0 predictor"

section \<open>Removing biased branches\<close>

text \<open>The bytes emitted for the instruction from \<open>insn_pc\<close> to \<open>pc\<close>.\<close>

definition copy_range :: "byte list \<Rightarrow> nat \<Rightarrow> nat \<Rightarrow> byte list option" where
  "copy_range source insn_pc pc =
     (if length source < pc then None else Some (take (pc - insn_pc) (drop insn_pc source)))"

definition specialize_branch :: "execution_profile \<Rightarrow> nat \<Rightarrow> u32 \<Rightarrow> byte list option" where
  "specialize_branch profile insn_pc target =
     (case map_of (branches profile) (word_of_nat insn_pc) of
        None \<Rightarrow> None
      | Some site \<Rightarrow>
          if strongly_not_taken site then Some [op_u8 POP]
          else if strongly_taken site then Some (append_u32 [op_u8 POP, op_u8 JMP] target)
          else None)"

text \<open>One round: what is emitted and where it goes on.\<close>

definition copy_step :: "byte list \<Rightarrow> string \<Rightarrow> nat \<Rightarrow> (byte list \<times> nat) option" where
  "copy_step source strings insn_pc =
     (case skip_instruction source strings insn_pc of
        None \<Rightarrow> None
      | Some (_, pc) \<Rightarrow> map_option (\<lambda>bs. (bs, pc)) (copy_range source insn_pc pc))"

definition specialize_step ::
    "byte list \<Rightarrow> string \<Rightarrow> execution_profile \<Rightarrow> nat \<Rightarrow> (byte list \<times> nat) option" where
  "specialize_step source strings profile insn_pc =
     (if u8_op (source ! insn_pc) \<in> {Some JMP_IF_FALSE, Some JMP_IF_TRUE} then
        (case cur_u32 source (insn_pc + 1) of
           None \<Rightarrow> None
         | Some (target, pc) \<Rightarrow>
             (case specialize_branch profile insn_pc target of
                Some bs \<Rightarrow> Some (bs, pc)
              | None \<Rightarrow> copy_step source strings insn_pc))
      else copy_step source strings insn_pc)"

lemma copy_step_forward:
  "copy_step source strings pc = Some (bs, pc') \<Longrightarrow>
     pc < pc' \<and> pc' \<le> length source \<and> bs = take (pc' - pc) (drop pc source)"
  by (auto simp: copy_step_def copy_range_def split: option.splits if_splits dest!: skip_instruction_forward)

lemma specialize_step_forward: "specialize_step source strings profile pc = Some (bs, pc') \<Longrightarrow> pc < pc'"
  by (auto simp: specialize_step_def split: option.splits if_splits dest!: cur_u32_Some copy_step_forward)

function specialize_loop ::
    "byte list \<Rightarrow> string \<Rightarrow> execution_profile \<Rightarrow> nat \<Rightarrow> byte list \<Rightarrow> byte list option" where
  "specialize_loop source strings profile insn_pc out =
     (if length source \<le> insn_pc then Some out
      else
        (case specialize_step source strings profile insn_pc of
           None \<Rightarrow> None
         | Some (bs, pc) \<Rightarrow> specialize_loop source strings profile pc (out @ bs)))"
  by pat_completeness auto
termination
  by (relation "measure (\<lambda>(source, strings, profile, pc, out). length source - pc)")
     (auto dest!: specialize_step_forward)

declare specialize_loop.simps [simp del]

definition apply_profile_optimization ::
    "bool \<Rightarrow> byte list \<Rightarrow> string \<Rightarrow> execution_profile \<Rightarrow> byte list option" where
  "apply_profile_optimization enabled source strings profile =
     (if \<not> enabled \<or> branches profile = [] then Some source
      else specialize_loop source strings profile 0 [])"

definition optimize_bytecode_with_profile ::
    "bool \<Rightarrow> byte list \<Rightarrow> string \<Rightarrow> execution_profile option \<Rightarrow> byte list option" where
  "optimize_bytecode_with_profile enabled source strings profile =
     (case profile of
        Some p \<Rightarrow>
          if enabled then
            (case apply_profile_optimization enabled source strings p of
               None \<Rightarrow> None | Some specialized \<Rightarrow> optimize_bytecode specialized strings)
          else optimize_bytecode source strings
      | None \<Rightarrow> optimize_bytecode source strings)"

text \<open>\<open>pgo_enabled\<close>: the environment variable, when set, switches it off with exactly \<open>0\<close>.\<close>

definition pgo_enabled :: "string option \<Rightarrow> bool" where
  "pgo_enabled configured = (case configured of None \<Rightarrow> True | Some v \<Rightarrow> v \<noteq> ''0'')"

section \<open>Without strong bias nothing changes\<close>

definition unbiased :: "execution_profile \<Rightarrow> bool" where
  "unbiased profile \<longleftrightarrow>
     list_all (\<lambda>(_, site). \<not> strongly_taken site \<and> \<not> strongly_not_taken site) (branches profile)"

lemma unbiased_step:
  assumes "unbiased profile" "specialize_step source strings profile pc = Some (bs, pc')"
  shows "pc' \<le> length source \<and> bs = take (pc' - pc) (drop pc source)"
proof -
  have "specialize_branch profile pc target = None" for target
    using assms(1)
    by (auto simp: unbiased_def specialize_branch_def list_all_iff split: option.split dest!: map_of_SomeD)
  with assms(2) show ?thesis
    by (auto simp: specialize_step_def split: option.splits if_splits dest!: copy_step_forward)
qed

lemma drop_pieces: "pc \<le> pc' \<Longrightarrow> take (pc' - pc) (drop pc xs) @ drop pc' xs = drop pc xs"
  by (metis append_take_drop_id drop_drop le_add_diff_inverse2)

lemma specialize_unbiased:
  "unbiased profile \<Longrightarrow> specialize_loop source strings profile pc out = Some r \<Longrightarrow> r = out @ drop pc source"
proof (induction source strings profile pc out rule: specialize_loop.induct)
  case (1 source strings profile pc out)
  show ?case
  proof (cases "length source \<le> pc")
    case True
    with "1.prems"(2) show ?thesis by (simp add: specialize_loop.simps [of source])
  next
    case False
    with "1.prems"(2) obtain bs pc' where s: "specialize_step source strings profile pc = Some (bs, pc')"
      "specialize_loop source strings profile pc' (out @ bs) = Some r"
      by (auto simp: specialize_loop.simps [of source _ _ pc] split: option.splits)
    have "r = (out @ bs) @ drop pc' source"
      by (rule "1.IH" [OF False s(1) refl "1.prems"(1) s(2)])
    with unbiased_step [OF "1.prems"(1) s(1)] specialize_step_forward [OF s(1)]
    show ?thesis by (simp add: drop_pieces)
  qed
qed

text \<open>
  A profile in which no branch is strongly biased specializes nothing: if the pass succeeds it
  returns the code it was given.
\<close>

theorem unbiased_profile_identity:
  assumes "unbiased profile" "apply_profile_optimization enabled source strings profile = Some r"
  shows "r = source"
  using assms specialize_unbiased [of profile source strings 0 "[]" r]
  by (auto simp: apply_profile_optimization_def split: if_splits)

theorem unbiased_profile_identity_witness:
  "apply_profile_optimization True [op_u8 PUSH_NULL, op_u8 JMP_IF_FALSE, 6, 0, 0, 0] []
     (new_profile\<lparr>branches := [(1, \<lparr>taken = 20, not_taken = 20\<rparr>)]\<rparr>) =
   Some [op_u8 PUSH_NULL, op_u8 JMP_IF_FALSE, 6, 0, 0, 0]"
proof -
  let ?code = "[op_u8 PUSH_NULL, op_u8 JMP_IF_FALSE, 6, 0, 0, 0]"
  let ?p = "new_profile\<lparr>branches := [(1, \<lparr>taken = 20, not_taken = 20\<rparr>)]\<rparr>"
  have u: "unbiased ?p" by code_simp
  have "apply_profile_optimization True ?code [] ?p \<noteq> None" by code_simp
  then obtain r where r: "apply_profile_optimization True ?code [] ?p = Some r" by blast
  then show ?thesis using unbiased_profile_identity [OF u r] by simp
qed

section \<open>Where jumps go astray\<close>

text \<open>
  The branch at 1 is never taken and shrinks from five bytes to one; the jump behind it is to the
  \<open>HALT\<close> at 12, which has moved to 8.
\<close>

definition halting_code :: "byte list" where
  "halting_code = op_u8 PUSH_NULL # append_u32 [op_u8 JMP_IF_FALSE] 11 @ append_u32 [op_u8 JMP] 12 @
     op_u8 PUSH_NULL # op_u8 HALT # replicate 8 (op_u8 PUSH_NULL)"

definition never_taken :: execution_profile where
  "never_taken = new_profile\<lparr>branches := [(1, \<lparr>taken = 0, not_taken = 40\<rparr>)]\<rparr>"


section \<open>The warm-started predictor\<close>

lemma trains_reachable: "predictor_reachable p \<Longrightarrow> predictor_reachable ((train pc b jump ^^ n) p)"
  by (induction n) (auto intro: predictor_reachable.trained)

lemma seed_loop_reachable:
  "predictor_reachable p \<Longrightarrow> seed_predictor_loop source strings pc p = Some q \<Longrightarrow> predictor_reachable q"
proof (induction source strings pc p rule: seed_predictor_loop.induct)
  case (1 source strings pc p)
  show ?case
  proof (cases "length source \<le> pc")
    case True
    with "1.prems" show ?thesis by (simp add: seed_predictor_loop.simps [of source])
  next
    case False
    note unf = "1.prems"(2) [unfolded seed_predictor_loop.simps [of source strings pc]]
    show ?thesis
    proof (cases "u8_op (source ! pc) \<in> {Some JMP_IF_FALSE, Some JMP_IF_TRUE}")
      case True
      with False unf obtain target pc' where t: "cur_u32 source (pc + 1) = Some (target, pc')"
        "seed_predictor_loop source strings pc' (if unat target < pc
           then (train (word_of_nat pc) True (ucast target) ^^ 4) p else p) = Some q"
        by (auto split: option.splits)
      show ?thesis
        by (rule "1.IH"(1) [OF False True t(1) refl _ t(2)]) (use "1.prems"(1) trains_reachable in simp)
    next
      case branch: False
      with False unf obtain op pc' where t: "skip_instruction source strings pc = Some (op, pc')"
        "seed_predictor_loop source strings pc' p = Some q"
        by (auto split: option.splits)
      show ?thesis
        by (rule "1.IH"(2) [OF False branch t(1) refl "1.prems"(1) t(2)])
    qed
  qed
qed

text \<open>
  Seeding a predictor from any code leaves it in bounds: the result is a state that training can
  reach, so every invariant of the predictor holds of it.
\<close>

theorem seeded_predictor_reachable:
  assumes "predictor_reachable p" "seed_predictor_from_bytecode source strings p = Some q"
  shows "predictor_reachable q"
  using assms by (auto simp: seed_predictor_from_bytecode_def intro: seed_loop_reachable)

theorem seeded_predictor_reachable_witness:
  "predictor_reachable (the (seed_predictor_from_bytecode [op_u8 PUSH_NULL, op_u8 JMP_IF_FALSE, 0, 0, 0, 0] [] new_predictor))"
proof -
  let ?r = "seed_predictor_from_bytecode [op_u8 PUSH_NULL, op_u8 JMP_IF_FALSE, 0, 0, 0, 0] [] new_predictor"
  have "?r = Some ((train 1 True 0 ^^ 4) new_predictor)"
    unfolding seed_predictor_from_bytecode_def
    by (simp add: seed_predictor_loop.simps skip_instruction_def cur_u8_def u8_op_def opcodes_def
        skip_operands_def cur_u32_def)
  then show ?thesis using seeded_predictor_reachable [OF predictor_reachable.start] by fastforce
qed

end
