(* ===== verification/Compile_Errors.thy ===== *)
theory Compile_Errors
  imports Munx_Prelude
begin

text \<open>
  The compile-time diagnostics of \<open>include/errors.hpp\<close>: the error codes, the context that collects
  diagnostics while a translation unit is compiled, and the reporting functions. \<open>fail_compile\<close>
  records and returns, so whatever calls it goes on; without an active context it aborts the process,
  which is \<open>None\<close> here.
\<close>

section \<open>The data\<close>

datatype error_code =
  CodeOk | CodeCompile | CodeRuntime | CodeDivisionByZero | CodeOverflow | CodeInvalidArgument
| CodeIo | CodeProtocol | CodeInternal

record munx_error =
  err_code :: error_code
  err_message :: string

definition error_success :: munx_error where
  "error_success = \<lparr>err_code = CodeOk, err_message = []\<rparr>"

definition error_ok :: "munx_error \<Rightarrow> bool" where
  "error_ok e \<longleftrightarrow> err_code e = CodeOk"

datatype diagnostic_severity = SeverityError | SeverityWarning

record diag_span =
  span_file :: string
  span_line :: int
  span_column :: int
  span_end_line :: int
  span_end_column :: int

record diagnostic =
  diag_severity :: diagnostic_severity
  diag_at :: diag_span
  diag_message :: string

record compile_context =
  ctx_err :: munx_error
  ctx_diagnostics :: "diagnostic list"
  ctx_collect_all :: bool

text \<open>The context as \<open>compile_context_scope\<close> leaves it on entry.\<close>

definition enter_scope :: "compile_context \<Rightarrow> compile_context" where
  "enter_scope ctx = ctx\<lparr>ctx_err := error_success, ctx_diagnostics := []\<rparr>"

definition ctx_failed :: "compile_context \<Rightarrow> bool" where
  "ctx_failed ctx \<longleftrightarrow> \<not> error_ok (ctx_err ctx)"

section \<open>Decimal numbers\<close>

text \<open>\<open>std::to_string\<close> of an integer: a minus sign for a negative number, then the decimal digits.\<close>

definition digit_char :: "nat \<Rightarrow> char" where
  "digit_char d = char_of (48 + d)"

fun decimal :: "nat \<Rightarrow> string" where
  "decimal n = (if n < 10 then [digit_char n] else decimal (n div 10) @ [digit_char (n mod 10)])"

declare decimal.simps [simp del]

definition to_string :: "int \<Rightarrow> string" where
  "to_string i = (if i < 0 then CHR ''-'' # decimal (nat (- i)) else decimal (nat i))"

section \<open>Reporting\<close>

text \<open>One call of \<open>compile_context::report\<close>: severity, span, text and code.\<close>

record report_args =
  rep_severity :: diagnostic_severity
  rep_file :: string
  rep_line :: int
  rep_column :: int
  rep_end_line :: int
  rep_end_column :: int
  rep_message :: string
  rep_code :: error_code

text \<open>The diagnostic that is stored, with the defaults for a missing end position.\<close>

definition report_item :: "report_args \<Rightarrow> diagnostic" where
  "report_item r =
     \<lparr>diag_severity = rep_severity r,
      diag_at =
        \<lparr>span_file = rep_file r, span_line = rep_line r, span_column = rep_column r,
         span_end_line = (if rep_end_line r \<noteq> 0 then rep_end_line r else rep_line r),
         span_end_column =
           (if rep_end_column r \<noteq> 0 then rep_end_column r
            else if rep_column r \<noteq> 0 then rep_column r + 1 else 0)\<rparr>,
      diag_message = rep_message r\<rparr>"

text \<open>The text kept as the context's error.\<close>

definition report_text :: "report_args \<Rightarrow> string" where
  "report_text r =
     (if rep_file r \<noteq> [] \<and> rep_line r \<noteq> 0
      then rep_file r @ '':'' @ to_string (rep_line r) @ '':'' @ to_string (rep_column r) @
        '': error: '' @ rep_message r
      else rep_message r)"

definition ctx_report :: "report_args \<Rightarrow> compile_context \<Rightarrow> compile_context" where
  "ctx_report r ctx =
     (if rep_severity r = SeverityError \<and> ctx_failed ctx \<and> \<not> ctx_collect_all ctx then ctx
      else
        (let ctx1 = ctx\<lparr>ctx_diagnostics := ctx_diagnostics ctx @ [report_item r]\<rparr>
         in if rep_severity r = SeverityError \<and> \<not> ctx_failed ctx1
            then ctx1\<lparr>ctx_err := \<lparr>err_code = rep_code r, err_message = report_text r\<rparr>\<rparr>
            else ctx1))"

definition plain_report :: "error_code \<Rightarrow> string \<Rightarrow> report_args" where
  "plain_report code msg =
     \<lparr>rep_severity = SeverityError, rep_file = [], rep_line = 0, rep_column = 0, rep_end_line = 0,
      rep_end_column = 0, rep_message = msg, rep_code = code\<rparr>"

definition ctx_fail :: "error_code \<Rightarrow> string \<Rightarrow> compile_context \<Rightarrow> compile_context" where
  "ctx_fail code msg ctx = ctx_report (plain_report code msg) ctx"

definition ctx_fail_compile :: "string \<Rightarrow> compile_context \<Rightarrow> compile_context" where
  "ctx_fail_compile msg ctx = ctx_fail CodeCompile msg ctx"

text \<open>
  The free functions act on the active context. \<open>None\<close> as argument is no active context: an error then
  aborts the process (\<open>None\<close> as result), a warning is only printed.
\<close>

definition fail_compile :: "string \<Rightarrow> compile_context option \<Rightarrow> compile_context option" where
  "fail_compile msg active = map_option (ctx_fail_compile msg) active"

definition span_report ::
  "diagnostic_severity \<Rightarrow> string \<Rightarrow> int \<Rightarrow> int \<Rightarrow> string \<Rightarrow> int \<Rightarrow> report_args" where
  "span_report sev file line column msg end_column =
     \<lparr>rep_severity = sev, rep_file = file, rep_line = line, rep_column = column,
      rep_end_line = line, rep_end_column = end_column, rep_message = msg, rep_code = CodeCompile\<rparr>"

definition fail_compile_at ::
  "string \<Rightarrow> int \<Rightarrow> int \<Rightarrow> string \<Rightarrow> int \<Rightarrow> compile_context option \<Rightarrow> compile_context option" where
  "fail_compile_at file line column msg end_column active =
     map_option (ctx_report (span_report SeverityError file line column msg end_column)) active"

definition warn_compile_at ::
  "string \<Rightarrow> int \<Rightarrow> int \<Rightarrow> string \<Rightarrow> int \<Rightarrow> compile_context option \<Rightarrow> compile_context option option" where
  "warn_compile_at file line column msg end_column active =
     Some (map_option (ctx_report (span_report SeverityWarning file line column msg end_column)) active)"

text \<open>\<open>run_compile_boundary\<close>: the body runs under a fresh context; its error is the result.\<close>

definition fresh_context :: compile_context where
  "fresh_context = \<lparr>ctx_err = error_success, ctx_diagnostics = [], ctx_collect_all = False\<rparr>"

definition run_compile_boundary :: "(compile_context \<Rightarrow> compile_context) \<Rightarrow> munx_error" where
  "run_compile_boundary body = ctx_err (body (enter_scope fresh_context))"

section \<open>What a run of reports leaves\<close>

text \<open>
  The specification: all warnings are kept; of the errors all are kept when \<open>collect_all\<close> is set,
  otherwise only the first, provided the context had none before.
\<close>

fun kept_reports :: "bool \<Rightarrow> bool \<Rightarrow> report_args list \<Rightarrow> report_args list" where
  "kept_reports collect failed [] = []"
| "kept_reports collect failed (r # rs) =
     (if rep_severity r = SeverityError
      then (if failed \<and> \<not> collect then [] else [r]) @ kept_reports collect True rs
      else r # kept_reports collect failed rs)"

fun first_error :: "report_args list \<Rightarrow> report_args option" where
  "first_error [] = None"
| "first_error (r # rs) = (if rep_severity r = SeverityError then Some r else first_error rs)"

lemma ctx_report_collect [simp]: "ctx_collect_all (ctx_report r ctx) = ctx_collect_all ctx"
  by (simp add: ctx_report_def Let_def)

lemma ctx_report_failed:
  "rep_code r \<noteq> CodeOk \<Longrightarrow>
   ctx_failed (ctx_report r ctx) = (ctx_failed ctx \<or> rep_severity r = SeverityError)"
  by (auto simp: ctx_report_def Let_def ctx_failed_def error_ok_def)

lemma ctx_report_diagnostics:
  "ctx_diagnostics (ctx_report r ctx) = ctx_diagnostics ctx @
     (if rep_severity r = SeverityError \<and> ctx_failed ctx \<and> \<not> ctx_collect_all ctx then [] else [report_item r])"
  by (simp add: ctx_report_def Let_def)

lemma ctx_report_err:
  "ctx_err (ctx_report r ctx) =
     (if rep_severity r = SeverityError \<and> \<not> ctx_failed ctx
      then \<lparr>err_code = rep_code r, err_message = report_text r\<rparr> else ctx_err ctx)"
  by (auto simp: ctx_report_def Let_def ctx_failed_def)

lemma ctx_failed_mono: "ctx_failed ctx \<Longrightarrow> ctx_failed (ctx_report r ctx)"
  by (auto simp: ctx_report_def Let_def ctx_failed_def error_ok_def)

text \<open>
  C25. A context that collects a sequence of reports keeps, in their order, every warning and of the
  errors the first only (all of them with \<open>collect_all\<close>); its error is the first error reported, and
  an error it already had is never replaced.
\<close>

theorem reports_keep_first_error:
  assumes "\<forall>r\<in>set rs. rep_code r \<noteq> CodeOk"
  shows "ctx_diagnostics (fold ctx_report rs ctx) =
      ctx_diagnostics ctx @ map report_item (kept_reports (ctx_collect_all ctx) (ctx_failed ctx) rs) \<and>
    ctx_err (fold ctx_report rs ctx) =
      (if ctx_failed ctx then ctx_err ctx
       else case first_error rs of None \<Rightarrow> ctx_err ctx
         | Some r \<Rightarrow> \<lparr>err_code = rep_code r, err_message = report_text r\<rparr>)"
  using assms
  by (induction rs arbitrary: ctx)
     (auto simp: ctx_report_failed ctx_report_diagnostics ctx_report_err split: option.split)

definition sample_reports :: "report_args list" where
  "sample_reports =
     [span_report SeverityWarning ''a.mx'' 1 2 ''w'' 0, span_report SeverityError ''a.mx'' 3 4 ''e'' 0,
      plain_report CodeCompile ''f'']"

theorem reports_keep_first_error_witness:
  "length (ctx_diagnostics (fold ctx_report sample_reports fresh_context)) = 2 \<and>
   err_message (ctx_err (fold ctx_report sample_reports fresh_context)) = ''a.mx:3:4: error: e''"
proof -
  have codes: "\<forall>r\<in>set sample_reports. rep_code r \<noteq> CodeOk"
    by (simp add: sample_reports_def span_report_def plain_report_def)
  note facts = reports_keep_first_error [OF codes, of fresh_context]
  show ?thesis
    unfolding facts [THEN conjunct1] facts [THEN conjunct2] by code_simp
qed

end
