(* ===== verification/Lexer.thy ===== *)
theory Lexer
  imports Compile_Errors
begin

text \<open>
  The lexer (\<open>include/lexer.hpp\<close>) with its tokens (\<open>include/token.hpp\<close>) and keywords
  (\<open>include/keywords.hpp\<close>): its state is a cursor with line and column, the place where the
  current token began, and the compile context that receives its errors. \<open>fail\<close> records an error and
  returns, so every routine below goes on after it exactly as the code does. Characters are classified
  as in the C locale.
\<close>

section \<open>Tokens and keywords\<close>

datatype (plugins only: code) token_type =
  SYMBOL | KEYWORD
| INT_LITERAL | FLOAT_LITERAL | STRING_LITERAL | CHAR_LITERAL | BOOL_LITERAL | NULL_LITERAL | REGEX_LITERAL
| LPAREN | RPAREN | LBRACE | RBRACE | LBRACKET | RBRACKET | COMMA | COLON | SEMICOLON | DOT | SCOPE
| ASSIGN | ADD_ASSIGN | EQ | NE | LT | GT | LE | GE | PLUS | MINUS | STAR | SLASH | PERCENT | BANG
| AMP | PIPE | CARET | TILDE | AND_AND | OR_OR | ARROW | PIPE_INSERT | PIPE_EXTRACT
| CHANNEL_INSERT | CHANNEL_EXTRACT | END

text \<open>
  \<open>value_variant\<close>. The \<open>long double\<close> alternative keeps the text that is handed to \<open>std::stold\<close>: the
  format of a \<open>long double\<close> differs between the platforms the program is built for.
\<close>

datatype payload = CharP char | IntP int | FloatP string | TextP string

record token =
  token_line :: int
  token_column :: int
  token_kind :: token_type
  token_value :: payload

definition munx_keywords :: "string list" where
  "munx_keywords =
     [''package'', ''load_package'', ''load_packages'', ''func'', ''lambda'', ''return'', ''if'', ''else'',
      ''loop'', ''break'', ''match'', ''case'', ''enum'', ''object'', ''trait'', ''constraint'', ''tuple'',
      ''alloc'', ''delete'', ''free'', ''lock'', ''acquire'', ''release'', ''join'', ''monitor'', ''trap'',
      ''cast'', ''simd'', ''fail'', ''map'', ''get'', ''insert'', ''env'', ''channel'', ''reflexpr'',
      ''members'', ''function_members'', ''meta_params'', ''params'', ''reflect_for'', ''construct'',
      ''typeid'', ''default'', ''of'', ''this_package'', ''likely'', ''unlikely'']"

definition is_type_name :: "string \<Rightarrow> bool" where
  "is_type_name name \<longleftrightarrow>
     name \<in> set [''int'', ''float'', ''bool'', ''string'', ''character'', ''void'', ''socket'', ''file'',
       ''term'', ''exception'']"

section \<open>The cursor\<close>

record lexer =
  lex_source :: string
  lex_keywords :: "string list"
  lex_path :: string
  lex_pos :: nat
  lex_line :: int
  lex_col :: int
  tok_line :: int
  tok_col :: int
  lex_context :: compile_context

definition new_lexer :: "string \<Rightarrow> string list \<Rightarrow> string \<Rightarrow> compile_context \<Rightarrow> lexer" where
  "new_lexer source kws path ctx =
     \<lparr>lex_source = source, lex_keywords = kws, lex_path = path, lex_pos = 0, lex_line = 1,
      lex_col = 1, tok_line = 1, tok_col = 1, lex_context = ctx\<rparr>"

definition eof :: "lexer \<Rightarrow> nat \<Rightarrow> bool" where
  "eof s off \<longleftrightarrow> length (lex_source s) \<le> lex_pos s + off"

definition peek :: "lexer \<Rightarrow> nat \<Rightarrow> char" where
  "peek s off = (if eof s off then CHR 0x00 else lex_source s ! (lex_pos s + off))"

text \<open>One turn of the loop in \<open>advance\<close>, and the loop.\<close>

definition advance1 :: "lexer \<Rightarrow> lexer" where
  "advance1 s =
     (if eof s 0 then s
      else if lex_source s ! lex_pos s = CHR 0x0A
      then s\<lparr>lex_line := lex_line s + 1, lex_col := 1, lex_pos := lex_pos s + 1\<rparr>
      else s\<lparr>lex_col := lex_col s + 1, lex_pos := lex_pos s + 1\<rparr>)"

definition advance :: "nat \<Rightarrow> lexer \<Rightarrow> lexer" where
  "advance n s = (advance1 ^^ n) s"

definition advance_no_newline :: "nat \<Rightarrow> lexer \<Rightarrow> lexer" where
  "advance_no_newline n s = s\<lparr>lex_pos := lex_pos s + n, lex_col := lex_col s + int n\<rparr>"

definition lex_fail :: "string \<Rightarrow> lexer \<Rightarrow> lexer" where
  "lex_fail msg s =
     s\<lparr>lex_context := ctx_fail_compile
        (lex_path s @ '':'' @ to_string (lex_line s) @ '':'' @ to_string (lex_col s) @ '': error: '' @ msg)
        (lex_context s)\<rparr>"

definition fail_if :: "bool \<Rightarrow> string \<Rightarrow> lexer \<Rightarrow> lexer" where
  "fail_if cond msg s = (if cond then lex_fail msg s else s)"

definition make :: "lexer \<Rightarrow> token_type \<Rightarrow> payload \<Rightarrow> token" where
  "make s kind value =
     \<lparr>token_line = tok_line s, token_column = tok_col s, token_kind = kind, token_value = value\<rparr>"

text \<open>\<open>substr\<close> of the source between two offsets.\<close>

definition slice :: "lexer \<Rightarrow> nat \<Rightarrow> nat \<Rightarrow> string" where
  "slice s i j = take (j - i) (drop i (lex_source s))"

section \<open>Scanning\<close>

definition in_range :: "char \<Rightarrow> char \<Rightarrow> char \<Rightarrow> bool" where
  "in_range lo hi c \<longleftrightarrow> (of_char lo :: nat) \<le> of_char c \<and> (of_char c :: nat) \<le> of_char hi"

definition is_digit :: "char \<Rightarrow> bool" where
  "is_digit c \<longleftrightarrow> in_range (CHR ''0'') (CHR ''9'') c"

definition is_alpha :: "char \<Rightarrow> bool" where
  "is_alpha c \<longleftrightarrow> in_range (CHR ''A'') (CHR ''Z'') c \<or> in_range (CHR ''a'') (CHR ''z'') c"

definition is_ident_start :: "char \<Rightarrow> bool" where
  "is_ident_start c \<longleftrightarrow> c = CHR ''_'' \<or> is_alpha c"

definition is_ident_cont :: "char \<Rightarrow> bool" where
  "is_ident_cont c \<longleftrightarrow> c = CHR ''_'' \<or> is_alpha c \<or> is_digit c"

definition is_space :: "char \<Rightarrow> bool" where
  "is_space c \<longleftrightarrow> c = CHR '' '' \<or> c = CHR 0x09 \<or> c = CHR 0x0D \<or> c = CHR 0x0A"

text \<open>
  The loops \<open>while (!eof() && P) advance();\<close>, where \<open>P\<close> looks at the next two characters, in the two
  forms of the code.
\<close>

lemma advance_simps [simp]:
  "lex_source (advance1 s) = lex_source s"
  "lex_source (advance_no_newline n s) = lex_source s"
  "lex_pos (advance_no_newline n s) = lex_pos s + n"
  "lex_source (lex_fail msg s) = lex_source s"
  "lex_pos (lex_fail msg s) = lex_pos s"
  "lex_source (fail_if b msg s) = lex_source s"
  "lex_pos (fail_if b msg s) = lex_pos s"
  by (simp_all add: advance1_def advance_no_newline_def lex_fail_def fail_if_def)

lemma advance1_pos: "\<not> eof s 0 \<Longrightarrow> lex_pos (advance1 s) = lex_pos s + 1"
  by (simp add: advance1_def)

lemma advance1_pos_le: "lex_pos s \<le> lex_pos (advance1 s)"
  by (simp add: advance1_def)

lemma advance_1 [simp]: "advance 1 s = advance1 s" "advance (Suc 0) s = advance1 s"
  by (simp_all add: advance_def)

function scan :: "(char \<Rightarrow> char \<Rightarrow> bool) \<Rightarrow> lexer \<Rightarrow> lexer" where
  "scan P s = (if \<not> eof s 0 \<and> P (peek s 0) (peek s 1) then scan P (advance 1 s) else s)"
  by pat_completeness auto

termination scan
  by (relation "measure (\<lambda>(P, s). length (lex_source s) - lex_pos s)") (auto simp: eof_def advance1_pos)

function scan_no_newline :: "(char \<Rightarrow> char \<Rightarrow> bool) \<Rightarrow> lexer \<Rightarrow> lexer" where
  "scan_no_newline P s =
     (if \<not> eof s 0 \<and> P (peek s 0) (peek s 1) then scan_no_newline P (advance_no_newline 1 s) else s)"
  by pat_completeness auto

termination scan_no_newline
  by (relation "measure (\<lambda>(P, s). length (lex_source s) - lex_pos s)") (auto simp: eof_def)

declare scan.simps [simp del] scan_no_newline.simps [simp del]

lemma scan_source [simp]: "lex_source (scan P s) = lex_source s"
  by (induction P s rule: scan.induct) (subst scan.simps, simp)

lemma scan_pos: "lex_pos s \<le> lex_pos (scan P s)"
proof (induction P s rule: scan.induct)
  case (1 P s)
  then show ?case
    using advance1_pos_le [of s] by (subst scan.simps) auto
qed

lemma scan_no_newline_source [simp]: "lex_source (scan_no_newline P s) = lex_source s"
  by (induction P s rule: scan_no_newline.induct) (subst scan_no_newline.simps, simp)

lemma scan_no_newline_pos: "lex_pos s \<le> lex_pos (scan_no_newline P s)"
proof (induction P s rule: scan_no_newline.induct)
  case (1 P s)
  then show ?case
    by (subst scan_no_newline.simps) auto
qed

text \<open>Whitespace and comments.\<close>

definition skip_line_comment :: "lexer \<Rightarrow> lexer" where
  "skip_line_comment s = scan_no_newline (\<lambda>c d. c \<noteq> CHR 0x0A) (advance_no_newline 2 s)"

definition skip_block_comment :: "lexer \<Rightarrow> lexer" where
  "skip_block_comment s =
     (let s1 = scan (\<lambda>c d. \<not> (c = CHR ''*'' \<and> d = CHR ''/'')) (advance_no_newline 2 s);
          s2 = fail_if (eof s1 0) ''unterminated block comment'' s1
      in advance_no_newline 2 s2)"

lemma skip_comment_simps [simp]:
  "lex_source (skip_line_comment s) = lex_source s"
  "lex_source (skip_block_comment s) = lex_source s"
  by (simp_all add: skip_line_comment_def skip_block_comment_def Let_def)

lemma skip_line_comment_pos: "lex_pos s + 2 \<le> lex_pos (skip_line_comment s)"
  using scan_no_newline_pos [of "advance_no_newline 2 s"] by (simp add: skip_line_comment_def)

lemma skip_block_comment_pos: "lex_pos s + 2 \<le> lex_pos (skip_block_comment s)"
proof -
  have "lex_pos s + 2 \<le> lex_pos (scan (\<lambda>c d. \<not> (c = CHR ''*'' \<and> d = CHR ''/'')) (advance_no_newline 2 s))"
    using scan_pos [of "advance_no_newline 2 s"] by simp
  then show ?thesis by (simp add: skip_block_comment_def Let_def)
qed

function skip_trivia :: "lexer \<Rightarrow> lexer" where
  "skip_trivia s =
     (if eof s 0 then s
      else if is_space (peek s 0) then skip_trivia (advance 1 s)
      else if peek s 0 = CHR ''/'' \<and> peek s 1 = CHR ''/'' then skip_trivia (skip_line_comment s)
      else if peek s 0 = CHR ''/'' \<and> peek s 1 = CHR ''*'' then skip_trivia (skip_block_comment s)
      else s)"
  by pat_completeness auto

termination skip_trivia
proof (relation "measure (\<lambda>s. length (lex_source s) - lex_pos s)", goal_cases)
  case (3 s)
  then show ?case using skip_line_comment_pos [of s] by (auto simp: eof_def)
next
  case (4 s)
  then show ?case using skip_block_comment_pos [of s] by (auto simp: eof_def)
qed (auto simp: eof_def advance1_pos)

declare skip_trivia.simps [simp del]

section \<open>Identifiers and numbers\<close>

definition lex_ident :: "lexer \<Rightarrow> token \<times> lexer" where
  "lex_ident s =
     (let s1 = scan_no_newline (\<lambda>c d. is_ident_cont c) s;
          text = slice s (lex_pos s) (lex_pos s1)
      in (if text = ''true'' \<or> text = ''false'' then make s1 BOOL_LITERAL (TextP text)
          else if text = ''null'' then make s1 NULL_LITERAL (TextP text)
          else if text \<in> set (lex_keywords s1) then make s1 KEYWORD (TextP text)
          else make s1 SYMBOL (TextP text), s1))"

function number_loop :: "bool \<Rightarrow> lexer \<Rightarrow> bool \<times> lexer" where
  "number_loop is_float s =
     (if eof s 0 then (is_float, s)
      else if is_digit (peek s 0) then number_loop is_float (advance_no_newline 1 s)
      else if peek s 0 = CHR ''.'' \<and> \<not> is_float \<and> is_digit (peek s 1)
        then number_loop True (advance_no_newline 1 s)
      else (is_float, s))"
  by pat_completeness auto

termination number_loop
  by (relation "measure (\<lambda>(f, s). length (lex_source s) - lex_pos s)") (auto simp: eof_def)

declare number_loop.simps [simp del]

definition digit_value :: "char \<Rightarrow> int" where
  "digit_value c = int (of_char c) - 48"

definition decimal_value :: "string \<Rightarrow> int" where
  "decimal_value ds = foldl (\<lambda>n c. 10 * n + digit_value c) 0 ds"

text \<open>
  \<open>std::from_chars\<close> on a run of digits: the number when it fits \<open>long long\<close>; otherwise the variable
  keeps its 0 and the error code is set.
\<close>

definition lex_number :: "lexer \<Rightarrow> token \<times> lexer" where
  "lex_number s =
     (let (is_float, s1) = number_loop False s;
          text = slice s (lex_pos s) (lex_pos s1)
      in if is_float then (make s1 FLOAT_LITERAL (FloatP text), s1)
         else if decimal_value text \<le> 9223372036854775807 then (make s1 INT_LITERAL (IntP (decimal_value text)), s1)
         else (make s1 INT_LITERAL (IntP 0), lex_fail ''integer literal out of range'' s1))"

section \<open>Escapes, strings, regular expressions and characters\<close>

definition lex_escape :: "lexer \<Rightarrow> char \<times> lexer" where
  "lex_escape s =
     (let s1 = advance_no_newline 1 s;
          s2 = fail_if (eof s1 0) ''unterminated escape sequence'' s1;
          c = peek s2 0;
          s3 = advance_no_newline 1 s2
      in if c = CHR ''n'' then (CHR 0x0A, s3)
         else if c = CHR ''r'' then (CHR 0x0D, s3)
         else if c = CHR ''t'' then (CHR 0x09, s3)
         else if c = CHR ''a'' then (CHR 0x07, s3)
         else if c = CHR 0x5C then (CHR 0x5C, s3)
         else if c = CHR 0x22 then (CHR 0x22, s3)
         else if c = CHR 0x27 then (CHR 0x27, s3)
         else (CHR 0x00, lex_fail ''unrecognized escape character'' s2))"

lemma lex_escape_simps [simp]:
  "lex_source (snd (lex_escape s)) = lex_source s"
  "lex_pos s < lex_pos (snd (lex_escape s))"
  by (auto simp: lex_escape_def Let_def)

function string_loop :: "string \<Rightarrow> lexer \<Rightarrow> string \<times> lexer" where
  "string_loop value s =
     (if eof s 0 \<or> peek s 0 = CHR 0x22 then (value, s)
      else if peek s 0 = CHR 0x5C
        then string_loop (value @ [fst (lex_escape s)]) (snd (lex_escape s))
      else
        (let s1 = scan (\<lambda>c d. c \<noteq> CHR 0x22 \<and> c \<noteq> CHR 0x5C) s
         in string_loop (value @ slice s (lex_pos s) (lex_pos s1)) s1))"
  by pat_completeness auto

lemma scan_progress: "\<not> eof s 0 \<Longrightarrow> P (peek s 0) (peek s 1) \<Longrightarrow> lex_pos s < lex_pos (scan P s)"
  using scan_pos [of "advance1 s" P] by (subst scan.simps) (simp add: advance1_pos)

termination string_loop
proof (relation "measure (\<lambda>(v, s). length (lex_source s) - lex_pos s)", goal_cases)
  case (2 acc s)
  then show ?case by (auto simp: eof_def not_le intro: diff_less_mono2)
next
  case (3 acc s s1)
  then have "lex_pos s < lex_pos s1"
    using scan_progress [of s "\<lambda>c d. c \<noteq> CHR 0x22 \<and> c \<noteq> CHR 0x5C"] by simp
  with 3 show ?case by (auto simp: eof_def)
qed simp

declare string_loop.simps [simp del]

definition lex_string :: "lexer \<Rightarrow> token \<times> lexer" where
  "lex_string s =
     (let (value, s1) = string_loop [] (advance_no_newline 1 s);
          s2 = fail_if (eof s1 0) ''unterminated string literal'' s1
      in (make s2 STRING_LITERAL (TextP value), advance_no_newline 1 s2))"

text \<open>
  \<open>source_.find\<close> from the body on. Without a closing quote the error is recorded and the code goes on
  with the offset \<open>npos\<close>: the body is the rest of the source, and the distance to \<open>npos\<close> is negative as
  a \<open>long long\<close>, so the following \<open>advance\<close> does nothing.
\<close>

definition find_quote :: "string \<Rightarrow> nat \<Rightarrow> nat option" where
  "find_quote src from =
     (let n = length (takeWhile (\<lambda>c. c \<noteq> CHR 0x22) (drop from src))
      in if from + n < length src then Some (from + n) else None)"

definition lex_regex :: "lexer \<Rightarrow> token \<times> lexer" where
  "lex_regex s =
     (let s1 = advance_no_newline 2 s; body_start = lex_pos s1
      in case find_quote (lex_source s1) body_start of
           None \<Rightarrow>
             (let s2 = lex_fail ''unterminated regex literal''
                    (advance (length (lex_source s1) - lex_pos s1) s1);
                  value = slice s2 body_start (length (lex_source s2))
              in (make s2 REGEX_LITERAL (TextP value), advance_no_newline 1 s2))
         | Some close \<Rightarrow>
             (let value = slice s1 body_start close; s2 = advance (close - lex_pos s1) s1
              in (make s2 REGEX_LITERAL (TextP value), advance_no_newline 1 s2)))"

definition char_body :: "lexer \<Rightarrow> char \<times> lexer" where
  "char_body s = (if peek s 0 = CHR 0x5C then lex_escape s else (peek s 0, advance 1 s))"

definition lex_char :: "lexer \<Rightarrow> token \<times> lexer" where
  "lex_char s =
     (let s1 = advance_no_newline 1 s;
          s2 = fail_if (eof s1 0) ''unterminated character literal'' s1;
          (value, s3) = char_body s2;
          s4 = fail_if (eof s3 0 \<or> peek s3 0 \<noteq> CHR 0x27)
                ''character literal must contain exactly one character'' s3
      in (make s4 CHAR_LITERAL (TextP [value]), advance_no_newline 1 s4))"

section \<open>Tokens\<close>

text \<open>A token of fixed text: the token and the state past its \<open>n\<close> characters.\<close>

definition char_token :: "lexer \<Rightarrow> token_type \<Rightarrow> token \<times> lexer" where
  "char_token s kind = (make s kind (CharP (peek s 0)), advance_no_newline 1 s)"

definition text_token :: "lexer \<Rightarrow> token_type \<Rightarrow> string \<Rightarrow> token \<times> lexer" where
  "text_token s kind text = (make s kind (TextP text), advance_no_newline (length text) s)"

text \<open>
  The switch of \<open>next_token\<close>. The default branch records the error and returns without consuming the
  character.
\<close>

definition unexpected_character :: "lexer \<Rightarrow> token \<times> lexer" where
  "unexpected_character s = (make s END (TextP []), lex_fail ''unexpected character'' s)"

definition lex_operator :: "lexer \<Rightarrow> token \<times> lexer" where
  "lex_operator s =
     (let c = peek s 0; d = peek s 1 in
      if c = CHR ''('' then char_token s LPAREN
      else if c = CHR '')'' then char_token s RPAREN
      else if c = CHR ''{'' then char_token s LBRACE
      else if c = CHR ''}'' then char_token s RBRACE
      else if c = CHR ''['' then char_token s LBRACKET
      else if c = CHR '']'' then char_token s RBRACKET
      else if c = CHR '','' then char_token s COMMA
      else if c = CHR '';'' then char_token s SEMICOLON
      else if c = CHR ''.'' then char_token s DOT
      else if c = CHR '':'' then
        (if d = CHR '':'' then text_token s SCOPE ''::''
         else if d = CHR ''='' \<and> peek s 2 = CHR ''>'' then text_token s CHANNEL_INSERT '':=>''
         else char_token s COLON)
      else if c = CHR ''+'' then
        (if d = CHR ''='' then text_token s ADD_ASSIGN ''+='' else char_token s PLUS)
      else if c = CHR ''-'' then
        (if d = CHR ''>'' then text_token s PIPE_INSERT ''->'' else char_token s MINUS)
      else if c = CHR ''*'' then char_token s STAR
      else if c = CHR ''/'' then char_token s SLASH
      else if c = CHR ''%'' then char_token s PERCENT
      else if c = CHR ''='' then
        (if d = CHR ''='' then text_token s EQ ''==''
         else if d = CHR ''>'' then text_token s ARROW ''=>''
         else text_token s ASSIGN ''='')
      else if c = CHR ''!'' then
        (if d = CHR ''='' then text_token s NE ''!='' else text_token s BANG ''!'')
      else if c = CHR ''<'' then
        (if d = CHR ''='' \<and> peek s 2 = CHR '':'' then text_token s CHANNEL_EXTRACT ''<=:''
         else if d = CHR ''='' then text_token s LE ''<=''
         else if d = CHR ''-'' then text_token s PIPE_EXTRACT ''<-''
         else text_token s LT ''<'')
      else if c = CHR ''>'' then
        (if d = CHR ''='' then text_token s GE ''>='' else text_token s GT ''>'')
      else if c = CHR ''&'' then
        (if d = CHR ''&'' then text_token s AND_AND ''&&'' else text_token s AMP ''&'')
      else if c = CHR ''|'' then
        (if d = CHR ''|'' then text_token s OR_OR ''||'' else text_token s PIPE ''|'')
      else if c = CHR ''^'' then text_token s CARET ''^''
      else if c = CHR ''~'' then text_token s TILDE ''~''
      else unexpected_character s)"

definition next_token :: "lexer \<Rightarrow> token \<times> lexer" where
  "next_token s =
     (if peek s 0 = CHR ''r'' \<and> peek s 1 = CHR 0x22 then lex_regex s
      else if is_ident_start (peek s 0) then lex_ident s
      else if is_digit (peek s 0) then lex_number s
      else if peek s 0 = CHR 0x22 then lex_string s
      else if peek s 0 = CHR 0x27 then lex_char s
      else lex_operator s)"

text \<open>
  The loop of \<open>tokenize\<close>: \<open>None\<close> is a run that never ends. \<open>start_token\<close> is what a turn does before it
  looks for the end of the source.
\<close>

definition start_token :: "lexer \<Rightarrow> lexer" where
  "start_token s = (let s1 = skip_trivia s in s1\<lparr>tok_line := lex_line s1, tok_col := lex_col s1\<rparr>)"

partial_function (option) tokenize_loop :: "lexer \<Rightarrow> (token list \<times> lexer) option" where
  "tokenize_loop s =
     (if eof (start_token s) 0
      then Some ([make (start_token s) END (CharP (CHR 0x00))], start_token s)
      else Option.bind (tokenize_loop (snd (next_token (start_token s))))
        (\<lambda>(tokens, s'). Some (fst (next_token (start_token s)) # tokens, s')))"

declare tokenize_loop.simps [code]

definition tokenize :: "string \<Rightarrow> string \<Rightarrow> compile_context \<Rightarrow> (token list \<times> lexer) option" where
  "tokenize path source ctx = tokenize_loop (new_lexer source munx_keywords path ctx)"

end
