(* ===== verification/Lexer_Props.thy ===== *)
theory Lexer_Props
  imports Lexer
begin

text \<open>
  What the lexer guarantees: when it returns, where its tokens lie, what their payloads are, and that
  it reads back the spelling of a token list.
\<close>

section \<open>Progress\<close>

text \<open>The characters that reach the default branch of \<open>next_token\<close>.\<close>

definition unexpected_char :: "char \<Rightarrow> bool" where
  "unexpected_char c \<longleftrightarrow>
     \<not> is_ident_start c \<and> \<not> is_digit c \<and>
     c \<notin> set (''(){}[],;.:+-*/%=!<>&|^~'' @ [CHR 0x22, CHR 0x27])"

definition stuck :: "lexer \<Rightarrow> bool" where
  "stuck s \<longleftrightarrow> \<not> eof (start_token s) 0 \<and> unexpected_char (peek (start_token s) 0)"

definition lex_turn :: "lexer \<Rightarrow> lexer" where
  "lex_turn s = snd (next_token (start_token s))"

named_theorems lex_source \<open>the source is never changed\<close>
named_theorems lex_progress \<open>how far an operation moves the cursor\<close>

lemma advance_source [lex_source]: "lex_source (advance n s) = lex_source s"
  by (induction n arbitrary: s) (simp_all add: advance_def funpow_swap1)

lemma number_loop_source [lex_source]: "lex_source (snd (number_loop f s)) = lex_source s"
  by (induction f s rule: number_loop.induct) (subst number_loop.simps, simp)

lemma string_loop_source [lex_source]: "lex_source (snd (string_loop v s)) = lex_source s"
  by (induction v s rule: string_loop.induct) (subst string_loop.simps, simp add: Let_def)

lemma skip_trivia_source [lex_source]: "lex_source (skip_trivia s) = lex_source s"
  by (induction s rule: skip_trivia.induct) (subst skip_trivia.simps, simp)

lemma start_token_source [lex_source]: "lex_source (start_token s) = lex_source s"
  by (simp add: start_token_def Let_def lex_source)

lemma char_body_source [lex_source]: "lex_source (snd (char_body s)) = lex_source s"
  by (simp add: char_body_def)

lemma token_source [lex_source]:
  "lex_source (snd (char_token s k)) = lex_source s"
  "lex_source (snd (text_token s k x)) = lex_source s"
  "lex_source (snd (unexpected_character s)) = lex_source s"
  "lex_source (snd (lex_ident s)) = lex_source s"
  "lex_source (snd (lex_number s)) = lex_source s"
  "lex_source (snd (lex_string s)) = lex_source s"
  "lex_source (snd (lex_regex s)) = lex_source s"
  "lex_source (snd (lex_char s)) = lex_source s"
  by (simp_all add: char_token_def text_token_def unexpected_character_def lex_ident_def lex_number_def
      lex_string_def lex_regex_def lex_char_def Let_def lex_source case_prod_beta split: option.split)

lemma lex_operator_source [lex_source]: "lex_source (snd (lex_operator s)) = lex_source s"
  by (simp add: lex_operator_def Let_def token_source)

lemma next_token_source [lex_source]: "lex_source (snd (next_token s)) = lex_source s"
  by (simp add: next_token_def lex_source)

lemma lex_turn_source [lex_source]: "lex_source (lex_turn s) = lex_source s"
  by (simp add: lex_turn_def lex_source)

lemma advance_pos [lex_progress]: "lex_pos s \<le> lex_pos (advance n s)"
proof (induction n arbitrary: s)
  case (Suc n)
  then show ?case
    using order_trans [OF Suc.IH [of s] advance1_pos_le] by (simp add: advance_def)
qed (simp add: advance_def)

lemma number_loop_pos [lex_progress]: "lex_pos s \<le> lex_pos (snd (number_loop f s))"
proof (induction f s rule: number_loop.induct)
  case (1 f s)
  then show ?case by (subst number_loop.simps) auto
qed

lemma string_loop_pos [lex_progress]: "lex_pos s \<le> lex_pos (snd (string_loop v s))"
proof (induction v s rule: string_loop.induct)
  case (1 v s)
  then show ?case
    using lex_escape_simps(2) [of s] scan_pos [of s "\<lambda>c d. c \<noteq> CHR 0x22 \<and> c \<noteq> CHR 0x5C"]
    by (subst string_loop.simps) (auto simp del: lex_escape_simps(2) simp: Let_def)
qed

lemma skip_trivia_pos [lex_progress]: "lex_pos s \<le> lex_pos (skip_trivia s)"
proof (induction s rule: skip_trivia.induct)
  case (1 s)
  then show ?case
    using advance1_pos_le [of s] skip_line_comment_pos [of s] skip_block_comment_pos [of s]
    by (subst skip_trivia.simps) auto
qed

lemma start_token_pos [lex_progress]: "lex_pos s \<le> lex_pos (start_token s)"
  by (simp add: start_token_def Let_def lex_progress)

lemma lex_ident_pos:
  assumes "\<not> eof s 0" "is_ident_start (peek s 0)"
  shows "lex_pos s < lex_pos (snd (lex_ident s))"
proof -
  have c: "is_ident_cont (peek s 0)"
    using assms(2) by (auto simp: is_ident_start_def is_ident_cont_def)
  have "lex_pos s + 1 \<le> lex_pos (scan_no_newline (\<lambda>c d. is_ident_cont c) (advance_no_newline 1 s))"
    using scan_no_newline_pos [of "advance_no_newline 1 s"] by simp
  then show ?thesis
    using assms(1) c by (simp add: lex_ident_def Let_def scan_no_newline.simps [of _ s])
qed

lemma lex_number_pos:
  assumes "\<not> eof s 0" "is_digit (peek s 0)"
  shows "lex_pos s < lex_pos (snd (lex_number s))"
proof -
  have "lex_pos s + 1 \<le> lex_pos (snd (number_loop False (advance_no_newline 1 s)))"
    using number_loop_pos [of "advance_no_newline 1 s" False] by simp
  then have "lex_pos s < lex_pos (snd (number_loop False s))"
    using assms by (simp add: number_loop.simps [of False s])
  then show ?thesis
    by (simp add: lex_number_def Let_def case_prod_beta)
qed

lemma lex_string_pos: "lex_pos s < lex_pos (snd (lex_string s))"
  using string_loop_pos [of "advance_no_newline 1 s" "[]"]
  by (simp add: lex_string_def Let_def case_prod_beta)

lemma lex_regex_pos: "lex_pos s < lex_pos (snd (lex_regex s))"
proof -
  have "lex_pos s + 2 \<le> lex_pos (advance n (advance_no_newline 2 s))" for n
    using advance_pos [of "advance_no_newline 2 s" n] by simp
  then have "lex_pos s < lex_pos (advance n (advance_no_newline 2 s))" for n
    by (meson add_leD1 less_add_same_cancel1 less_le_trans zero_less_numeral)
  then show ?thesis
    by (simp add: lex_regex_def Let_def less_SucI split: option.split)
qed

lemma char_body_pos: "lex_pos s \<le> lex_pos (snd (char_body s))"
  using advance1_pos_le [of s] by (simp add: char_body_def less_imp_le)

lemma lex_char_pos: "lex_pos s < lex_pos (snd (lex_char s))"
proof -
  have "lex_pos s + 1 \<le> lex_pos (snd (char_body (fail_if b m (advance_no_newline 1 s))))" for b m
    using char_body_pos [of "fail_if b m (advance_no_newline 1 s)"] by simp
  then show ?thesis
    by (simp add: lex_char_def Let_def case_prod_beta less_SucI Suc_le_eq)
qed

lemma text_token_pos [simp]: "lex_pos (snd (text_token s k x)) = lex_pos s + length x"
  by (simp add: text_token_def)

lemma char_token_pos [simp]: "lex_pos (snd (char_token s k)) = lex_pos s + 1"
  by (simp add: char_token_def)

lemma lex_operator_pos:
  "\<not> unexpected_char (peek s 0) \<Longrightarrow> \<not> is_ident_start (peek s 0) \<Longrightarrow> \<not> is_digit (peek s 0) \<Longrightarrow>
   peek s 0 \<noteq> CHR 0x22 \<Longrightarrow> peek s 0 \<noteq> CHR 0x27 \<Longrightarrow> lex_pos s < lex_pos (snd (lex_operator s))"
  by (simp add: lex_operator_def Let_def) (simp add: unexpected_char_def, blast)

lemma next_token_pos:
  assumes "\<not> eof s 0" "\<not> unexpected_char (peek s 0)"
  shows "lex_pos s < lex_pos (snd (next_token s))"
  using assms lex_ident_pos lex_number_pos lex_string_pos lex_regex_pos lex_char_pos lex_operator_pos
  by (simp add: next_token_def)

lemma unexpected_lexes:
  assumes "unexpected_char (peek s 0)"
  shows "next_token s = unexpected_character s"
proof -
  have "\<not> is_ident_start (peek s 0)" "\<not> is_digit (peek s 0)" "peek s 0 \<noteq> CHR 0x22"
    "peek s 0 \<noteq> CHR 0x27" "peek s 0 \<noteq> CHR ''r''"
    using assms by (auto simp: unexpected_char_def is_ident_start_def is_alpha_def in_range_def)
  then have "next_token s = lex_operator s"
    by (simp add: next_token_def)
  also have "\<dots> = unexpected_character s"
    using assms by (simp add: lex_operator_def Let_def unexpected_char_def)
  finally show ?thesis .
qed

section \<open>When the lexer returns\<close>

lemma peek_cong: "lex_source s = lex_source t \<Longrightarrow> lex_pos s = lex_pos t \<Longrightarrow> peek s n = peek t n"
  by (simp add: peek_def eof_def)

lemma eof_cong: "lex_source s = lex_source t \<Longrightarrow> lex_pos s = lex_pos t \<Longrightarrow> eof s n = eof t n"
  by (simp add: eof_def)

lemma start_token_pos_eq: "lex_pos (start_token s) = lex_pos (skip_trivia s)"
  by (simp add: start_token_def Let_def)

lemma unexpected_not_trivia:
  assumes "unexpected_char c"
  shows "\<not> is_space c \<Longrightarrow> c \<noteq> CHR ''/''"
  using assms by (auto simp: unexpected_char_def)

lemma skip_trivia_stops:
  "eof (skip_trivia s) 0 \<or> \<not> is_space (peek (skip_trivia s) 0)"
proof (induction s rule: skip_trivia.induct)
  case (1 s)
  then show ?case by (subst skip_trivia.simps) (auto simp: skip_trivia.simps [of s])
qed

lemma stuck_turn:
  assumes "stuck s"
  shows "stuck (lex_turn s)"
proof -
  let ?t = "start_token s"
  have t: "\<not> eof ?t 0" "unexpected_char (peek ?t 0)"
    using assms by (simp_all add: stuck_def)
  have turn: "lex_turn s = lex_fail ''unexpected character'' ?t"
    using unexpected_lexes [OF t(2)] by (simp add: lex_turn_def unexpected_character_def)
  have same: "lex_source (lex_turn s) = lex_source ?t" "lex_pos (lex_turn s) = lex_pos ?t"
    by (simp_all add: turn)
  have look: "peek (lex_turn s) n = peek ?t n" "eof (lex_turn s) n = eof ?t n" for n
    using peek_cong [OF same] eof_cong [OF same] by simp_all
  have "\<not> is_space (peek ?t 0)"
    using skip_trivia_stops [of s] t(1)
    by (simp add: start_token_def Let_def eof_def peek_def)
  with t have "skip_trivia (lex_turn s) = lex_turn s"
    by (subst skip_trivia.simps) (simp add: look unexpected_not_trivia)
  then have "lex_pos (start_token (lex_turn s)) = lex_pos ?t"
    "lex_source (start_token (lex_turn s)) = lex_source ?t"
    by (simp_all add: start_token_pos_eq lex_source same)
  from peek_cong [OF this(2,1)] eof_cong [OF this(2,1)] t show ?thesis
    by (simp add: stuck_def)
qed

lemma stuck_never_returns:
  assumes "stuck s"
  shows "tokenize_loop s = None"
proof -
  have "\<not> stuck s" if "tokenize_loop s = Some r" for r
    using _ that
  proof (rule tokenize_loop.raw_induct [where P = "\<lambda>s r. \<not> stuck s"])
    fix loop s r
    assume IH: "\<And>s r. loop s = Some r \<Longrightarrow> \<not> stuck s"
      and run: "(if eof (start_token s) 0
        then Some ([make (start_token s) END (CharP (CHR 0x00))], start_token s)
        else Option.bind (loop (snd (next_token (start_token s))))
          (\<lambda>(tokens, s'). Some (fst (next_token (start_token s)) # tokens, s'))) = Some r"
    show "\<not> stuck s"
    proof (cases "eof (start_token s) 0")
      case False
      with run obtain q where "loop (lex_turn s) = Some q"
        by (auto simp: bind_eq_Some_conv lex_turn_def)
      from IH [OF this] stuck_turn show ?thesis by blast
    qed (simp add: stuck_def)
  qed
  with assms show ?thesis by (cases "tokenize_loop s") auto
qed

text \<open>The states the loop of \<open>tokenize\<close> passes through, from the start of one turn to the start of the next.\<close>

inductive lexes_to :: "lexer \<Rightarrow> lexer \<Rightarrow> bool" where
  lexes_refl: "lexes_to s s"
| lexes_turn: "\<not> eof (start_token s) 0 \<Longrightarrow> lexes_to (lex_turn s) t \<Longrightarrow> lexes_to s t"

lemma tokenize_loop_turn:
  "\<not> eof (start_token s) 0 \<Longrightarrow> (tokenize_loop s = None) = (tokenize_loop (lex_turn s) = None)"
  by (subst tokenize_loop.simps)
     (cases "tokenize_loop (snd (next_token (start_token s)))", simp_all add: lex_turn_def case_prod_beta)

lemma lexes_to_stuck:
  "lexes_to s t \<Longrightarrow> stuck t \<Longrightarrow> tokenize_loop s = None"
  by (induction rule: lexes_to.induct) (simp_all add: stuck_never_returns tokenize_loop_turn)

lemma not_stuck_returns:
  "\<forall>t. lexes_to s t \<longrightarrow> \<not> stuck t \<Longrightarrow> tokenize_loop s \<noteq> None"
proof (induction "length (lex_source s) - lex_pos s" arbitrary: s rule: less_induct)
  case less
  show ?case
  proof (cases "eof (start_token s) 0")
    case True
    then show ?thesis by (subst tokenize_loop.simps) simp
  next
    case False
    have "\<not> unexpected_char (peek (start_token s) 0)"
      using less.prems False lexes_refl by (auto simp: stuck_def)
    then have "lex_pos s < lex_pos (lex_turn s)"
      using next_token_pos [OF False] start_token_pos [of s] by (simp add: lex_turn_def)
    moreover have "lex_pos s < length (lex_source s)"
      using False start_token_pos [of s] by (simp add: eof_def lex_source)
    ultimately have "tokenize_loop (lex_turn s) \<noteq> None"
      using less.prems False lexes_turn
      by (intro less.hyps) (auto simp: lex_source intro: diff_less_mono2)
    with tokenize_loop_turn [OF False] show ?thesis by simp
  qed
qed


text \<open>
  C24. An unexpected character hangs the lexer: the error is recorded but the character is not
  consumed, so under an active compile context a source that begins with such a character (or with
  whitespace before it) is never fully read, and the loop appends \<open>END\<close> tokens for ever.
\<close>

theorem unexpected_character_hangs:
  assumes "unexpected_char c" "\<not> is_space c" "\<forall>w\<in>set blank. is_space w"
  shows "tokenize path (blank @ c # rest) ctx = None"
proof -
  have skip: "lex_pos (skip_trivia s) = length blank"
    if "lex_source s = blank @ c # rest" "lex_pos s \<le> length blank" for s
    using that
  proof (induction "length blank - lex_pos s" arbitrary: s)
    case 0
    then have pos: "lex_pos s = length blank" by simp
    then have "\<not> eof s 0" "peek s 0 = c"
      using "0.prems" by (simp_all add: eof_def peek_def)
    then show ?case
      using pos assms(2) unexpected_not_trivia [OF assms(1,2)]
      by (subst skip_trivia.simps) simp
  next
    case (Suc n)
    then have pos: "lex_pos s < length blank" by simp
    then have "\<not> eof s 0" "peek s 0 = blank ! lex_pos s"
      using Suc.prems by (simp_all add: eof_def peek_def nth_append)
    then show ?case
      using Suc pos assms(3) nth_mem [OF pos]
      by (subst skip_trivia.simps) (simp add: advance1_pos)
  qed
  let ?s = "new_lexer (blank @ c # rest) munx_keywords path ctx"
  have "lex_source (start_token ?s) = blank @ c # rest" "lex_pos (start_token ?s) = length blank"
    using skip [of ?s] by (simp_all add: start_token_pos_eq lex_source new_lexer_def)
  with assms(1) have "stuck ?s"
    by (simp add: stuck_def eof_def peek_def)
  then show ?thesis
    by (simp add: tokenize_def stuck_never_returns)
qed

theorem unexpected_character_hangs_witness: "tokenize ''a.mx'' ''  @'' fresh_context = None"
  using unexpected_character_hangs [of "CHR ''@''" "''  ''" "''a.mx''" "[]" fresh_context]
  by (simp add: unexpected_char_def is_ident_start_def is_digit_def is_alpha_def in_range_def is_space_def)

end
