(* ===== verification/Lexer_Steps.thy ===== *)
theory Lexer_Steps
  imports Lexer_Props
begin

text \<open>
  The elementary moves of the lexer as an interface. Every routine is made of three: \<open>advance\<close> by one
  character, \<open>advance_no_newline\<close> over a character that is there and is no newline, and a recorded
  error, after which the cursor may also run past the end. A property of states kept by these three is
  kept by the whole lexer.
\<close>

lemma peek_not_eof: "peek s n \<noteq> CHR 0x00 \<Longrightarrow> \<not> eof s n"
  by (auto simp: peek_def)

lemma peek_advance_no_newline: "peek (advance_no_newline m s) n = peek s (m + n)"
  by (simp add: peek_def eof_def add.assoc)

lemma lex_fail_failed [simp]: "ctx_failed (lex_context (lex_fail msg s))"
  by (simp add: lex_fail_def ctx_fail_compile_def ctx_fail_def plain_report_def ctx_report_failed)

lemma peek_fail [simp]:
  "peek (lex_fail msg s) n = peek s n" "peek (fail_if b msg s) n = peek s n"
  "eof (lex_fail msg s) n = eof s n" "eof (fail_if b msg s) n = eof s n"
  by (simp_all add: lex_fail_def fail_if_def peek_def eof_def)

lemma advance_pos_exact:
  "lex_pos s + n \<le> length (lex_source s) \<Longrightarrow> lex_pos (advance n s) = lex_pos s + n"
proof (induction n)
  case (Suc n)
  moreover from this have "\<not> eof (advance n s) 0"
    by (simp add: eof_def advance_source)
  ultimately show ?case
    by (simp add: advance_def advance1_pos)
qed (simp add: advance_def)

lemma string_loop_stops:
  "eof (snd (string_loop v s)) 0 \<or> peek (snd (string_loop v s)) 0 = CHR 0x22"
proof (induction v s rule: string_loop.induct)
  case (1 v s)
  then show ?case by (subst (1 2) string_loop.simps) (simp add: Let_def)
qed

lemma find_quote_at:
  assumes "find_quote src from = Some close"
  shows "from \<le> close" "close < length src" "src ! close = CHR 0x22"
proof -
  let ?t = "takeWhile (\<lambda>c. c \<noteq> CHR 0x22) (drop from src)"
  have close: "close = from + length ?t" "close < length src"
    using assms by (auto simp: find_quote_def Let_def split: if_splits)
  then have "length ?t < length (drop from src)"
    by simp
  from nth_length_takeWhile [OF this] close show "src ! close = CHR 0x22"
    by (simp add: nth_drop)
  from close show "from \<le> close" "close < length src" by simp_all
qed

locale lex_steps =
  fixes R :: "lexer \<Rightarrow> bool"
  assumes R_advance1: "R s \<Longrightarrow> R (advance1 s)"
    and R_step: "R s \<Longrightarrow> \<not> eof s 0 \<Longrightarrow> peek s 0 \<noteq> CHR 0x0A \<Longrightarrow> R (advance_no_newline 1 s)"
    and R_fail: "R s \<Longrightarrow> R (lex_fail msg s)"
    and R_failed: "R s \<Longrightarrow> ctx_failed (lex_context s) \<Longrightarrow> R (advance_no_newline n s)"
begin

lemma R_fail_if: "R s \<Longrightarrow> R (fail_if b msg s)"
  by (simp add: fail_if_def R_fail)

lemma R_move:
  assumes "R s" "\<forall>i<n. peek s i \<noteq> CHR 0x00 \<and> peek s i \<noteq> CHR 0x0A"
  shows "R (advance_no_newline n s)"
  using assms
proof (induction n)
  case 0
  then show ?case by (simp add: advance_no_newline_def)
next
  case (Suc n)
  have "advance_no_newline (Suc n) s = advance_no_newline 1 (advance_no_newline n s)"
    by (simp add: advance_no_newline_def)
  moreover have "R (advance_no_newline 1 (advance_no_newline n s))"
    using Suc by (intro R_step) (simp_all add: peek_advance_no_newline peek_not_eof)
  ultimately show ?case by (simp only:)
qed

lemma R_move2:
  "R s \<Longrightarrow> peek s 0 \<notin> {CHR 0x00, CHR 0x0A} \<Longrightarrow> peek s 1 \<notin> {CHR 0x00, CHR 0x0A} \<Longrightarrow>
   R (advance_no_newline 2 s)"
  by (rule R_move) (auto simp: less_2_cases_iff)

lemma R_over: "R s \<Longrightarrow> peek s 0 \<notin> {CHR 0x00, CHR 0x0A} \<Longrightarrow> R (advance_no_newline 1 s)"
  by (rule R_move) simp_all

lemma R_close:
  assumes "R s" "b \<or> peek s 0 \<notin> {CHR 0x00, CHR 0x0A}"
  shows "R (advance_no_newline 1 (fail_if b msg s))"
proof (cases b)
  case True
  then show ?thesis
    using R_failed [OF R_fail [OF assms(1)]] by (simp add: fail_if_def)
next
  case False
  then show ?thesis
    using R_over assms by (simp add: fail_if_def)
qed

lemma R_advance: "R s \<Longrightarrow> R (advance n s)"
  by (induction n) (simp_all add: advance_def R_advance1)

lemma R_scan: "R s \<Longrightarrow> R (scan P s)"
proof (induction P s rule: scan.induct)
  case (1 P s)
  then show ?case by (subst scan.simps) (simp add: R_advance1)
qed

lemma R_scan_no_newline:
  "R s \<Longrightarrow> (\<And>c d. P c d \<Longrightarrow> c \<noteq> CHR 0x0A) \<Longrightarrow> R (scan_no_newline P s)"
proof (induction P s rule: scan_no_newline.induct)
  case (1 P s)
  have "R (advance_no_newline 1 s)" if "\<not> eof s 0" "P (peek s 0) (peek s 1)"
    using 1 that by (intro R_step) auto
  then show ?case
    using 1 by (subst scan_no_newline.simps) auto
qed

lemma R_line_comment:
  assumes "R s" "peek s 0 = CHR ''/''" "peek s 1 = CHR ''/''"
  shows "R (skip_line_comment s)"
  unfolding skip_line_comment_def
  by (intro R_scan_no_newline R_move2) (simp_all add: assms assms(3) [unfolded One_nat_def])

lemma R_block_comment:
  assumes "R s" "peek s 0 = CHR ''/''" "peek s 1 = CHR ''*''"
  shows "R (skip_block_comment s)"
proof -
  define s1 where "s1 = scan (\<lambda>c d. \<not> (c = CHR ''*'' \<and> d = CHR ''/'')) (advance_no_newline 2 s)"
  have R1: "R s1"
    unfolding s1_def by (intro R_scan R_move2) (simp_all add: assms assms(3) [unfolded One_nat_def])
  have stop: "eof s1 0 \<or> peek s1 0 = CHR ''*'' \<and> peek s1 1 = CHR ''/''"
  proof -
    have "eof (scan P t) 0 \<or> \<not> P (peek (scan P t) 0) (peek (scan P t) 1)" for P t
    proof (induction P t rule: scan.induct)
      case (1 P t)
      then show ?case by (subst (1 2 3) scan.simps) (simp add: scan.simps [of P t])
    qed
    then show ?thesis unfolding s1_def by blast
  qed
  have "R (advance_no_newline 2 (fail_if (eof s1 0) ''unterminated block comment'' s1))"
  proof (cases "eof s1 0")
    case True
    then show ?thesis
      using R_failed [OF R_fail [OF R1]] by (simp add: fail_if_def)
  next
    case False
    with stop R1 show ?thesis
      by (simp add: fail_if_def R_move2)
  qed
  then show ?thesis
    by (simp add: skip_block_comment_def s1_def Let_def)
qed

lemma R_skip_trivia: "R s \<Longrightarrow> R (skip_trivia s)"
proof (induction s rule: skip_trivia.induct)
  case (1 s)
  then show ?case
    by (subst skip_trivia.simps) (simp add: R_advance1 R_line_comment R_block_comment)
qed

lemma R_ident: "R s \<Longrightarrow> R (snd (lex_ident s))"
proof -
  have "is_ident_cont c \<Longrightarrow> c \<noteq> CHR 0x0A" for c
    by (auto simp: is_ident_cont_def is_alpha_def is_digit_def in_range_def)
  then show "R s \<Longrightarrow> R (snd (lex_ident s))"
    by (simp add: lex_ident_def Let_def R_scan_no_newline)
qed

lemma R_number_loop: "R s \<Longrightarrow> R (snd (number_loop f s))"
proof (induction f s rule: number_loop.induct)
  case (1 f s)
  have "is_digit c \<Longrightarrow> c \<noteq> CHR 0x0A" for c
    by (auto simp: is_digit_def in_range_def)
  then have "R (advance_no_newline 1 s)"
    if "\<not> eof s 0" "is_digit (peek s 0) \<or> peek s 0 = CHR ''.''"
    using 1(3) that by (intro R_step) auto
  then show ?case
    using 1 by (subst number_loop.simps) auto
qed

lemma R_number: "R s \<Longrightarrow> R (snd (lex_number s))"
  by (simp add: lex_number_def Let_def case_prod_beta R_number_loop R_fail)

lemma R_escape: "R s \<Longrightarrow> peek s 0 = CHR 0x5C \<Longrightarrow> R (snd (lex_escape s))"
proof -
  assume s: "R s" "peek s 0 = CHR 0x5C"
  define s2 where "s2 = fail_if (eof (advance_no_newline 1 s) 0) ''unterminated escape sequence''
    (advance_no_newline 1 s)"
  have "R s2"
    unfolding s2_def by (intro R_fail_if R_over) (simp_all add: s)
  then show "R (snd (lex_escape s))"
    unfolding lex_escape_def Let_def s2_def [symmetric] by (simp add: R_fail R_over del: One_nat_def)
qed

lemma R_string_loop: "R s \<Longrightarrow> R (snd (string_loop v s))"
proof (induction v s rule: string_loop.induct)
  case (1 v s)
  then show ?case by (subst string_loop.simps) (simp add: Let_def R_escape R_scan)
qed

lemma R_string:
  assumes "R s" "peek s 0 = CHR 0x22"
  shows "R (snd (lex_string s))"
proof -
  let ?t = "snd (string_loop [] (advance_no_newline 1 s))"
  have "R ?t"
    using assms by (intro R_string_loop R_over) simp_all
  then have "R (advance_no_newline 1 (fail_if (eof ?t 0) ''unterminated string literal'' ?t))"
    using string_loop_stops [of "[]" "advance_no_newline 1 s"] by (intro R_close) auto
  then show ?thesis
    by (simp add: lex_string_def Let_def case_prod_beta)
qed

lemma R_regex:
  assumes "R s" "peek s 0 = CHR ''r''" "peek s 1 = CHR 0x22"
  shows "R (snd (lex_regex s))"
proof -
  have R1: "R (advance_no_newline 2 s)"
    using assms by (intro R_move2) simp_all
  show ?thesis
  proof (cases "find_quote (lex_source s) (lex_pos s + 2)")
    case None
    then show ?thesis
      using R_failed [OF R_fail [OF R_advance [OF R1]]] by (simp add: lex_regex_def Let_def)
  next
    case (Some close)
    let ?t = "advance (close - (lex_pos s + 2)) (advance_no_newline 2 s)"
    have "lex_pos ?t = close" "lex_source ?t = lex_source s"
      using advance_pos_exact [of "advance_no_newline 2 s" "close - (lex_pos s + 2)"] find_quote_at [OF Some]
      by (simp_all add: advance_source)
    then have "peek ?t 0 = CHR 0x22"
      using find_quote_at [OF Some] by (simp add: peek_def eof_def)
    then have "R (advance_no_newline 1 ?t)"
      by (intro R_over R_advance R1) simp_all
    with Some show ?thesis
      by (simp add: lex_regex_def Let_def)
  qed
qed

lemma R_char_body: "R s \<Longrightarrow> R (snd (char_body s))"
  by (simp add: char_body_def R_escape R_advance1)

lemma R_char: "R s \<Longrightarrow> peek s 0 = CHR 0x27 \<Longrightarrow> R (snd (lex_char s))"
  by (simp add: lex_char_def Let_def case_prod_beta del: One_nat_def)
     (intro R_close R_char_body R_fail_if R_over; auto)

lemma R_text_token:
  "R s \<Longrightarrow> \<forall>i<length x. peek s i \<noteq> CHR 0x00 \<and> peek s i \<noteq> CHR 0x0A \<Longrightarrow> R (snd (text_token s k x))"
  by (simp add: text_token_def R_move)

lemma R_char_token: "R s \<Longrightarrow> peek s 0 \<notin> {CHR 0x00, CHR 0x0A} \<Longrightarrow> R (snd (char_token s k))"
  by (simp add: char_token_def R_over del: One_nat_def)

lemma R_operator: "R s \<Longrightarrow> R (snd (lex_operator s))"
  by (simp add: lex_operator_def Let_def unexpected_character_def R_fail R_text_token R_char_token
      All_less_Suc numeral_2_eq_2)

lemma R_next_token: "R s \<Longrightarrow> R (snd (next_token s))"
  by (simp add: next_token_def R_regex R_ident R_number R_string R_char R_operator)

end

end
