(* ===== verification/Lexer_Tokens.thy ===== *)
theory Lexer_Tokens
  imports Lexer_Steps
begin

text \<open>
  The tokens the lexer makes: the payload each kind carries, and where each token lies in the source.
\<close>

section \<open>Payloads\<close>

text \<open>
  What the parser relies on when it reads a token's value: the alternative of the variant and, where
  the kind fixes it, the text.
\<close>

definition is_identifier :: "string \<Rightarrow> bool" where
  "is_identifier x \<longleftrightarrow> x \<noteq> [] \<and> is_ident_start (hd x) \<and> list_all is_ident_cont x"

definition is_float_text :: "string \<Rightarrow> bool" where
  "is_float_text x \<longleftrightarrow>
     (let whole = takeWhile is_digit x; rest = dropWhile is_digit x
      in whole \<noteq> [] \<and> length rest \<ge> 2 \<and> hd rest = CHR ''.'' \<and> list_all is_digit (tl rest))"

definition fixed_payload :: "token_type \<Rightarrow> payload option" where
  "fixed_payload k = (case k of
     LPAREN \<Rightarrow> Some (CharP (CHR ''('')) | RPAREN \<Rightarrow> Some (CharP (CHR '')''))
   | LBRACE \<Rightarrow> Some (CharP (CHR ''{'')) | RBRACE \<Rightarrow> Some (CharP (CHR ''}''))
   | LBRACKET \<Rightarrow> Some (CharP (CHR ''['')) | RBRACKET \<Rightarrow> Some (CharP (CHR '']''))
   | COMMA \<Rightarrow> Some (CharP (CHR '','')) | COLON \<Rightarrow> Some (CharP (CHR '':''))
   | SEMICOLON \<Rightarrow> Some (CharP (CHR '';'')) | DOT \<Rightarrow> Some (CharP (CHR ''.''))
   | SCOPE \<Rightarrow> Some (TextP ''::'') | ASSIGN \<Rightarrow> Some (TextP ''='') | ADD_ASSIGN \<Rightarrow> Some (TextP ''+='')
   | EQ \<Rightarrow> Some (TextP ''=='') | NE \<Rightarrow> Some (TextP ''!='') | LT \<Rightarrow> Some (TextP ''<'')
   | GT \<Rightarrow> Some (TextP ''>'') | LE \<Rightarrow> Some (TextP ''<='') | GE \<Rightarrow> Some (TextP ''>='')
   | PLUS \<Rightarrow> Some (CharP (CHR ''+'')) | MINUS \<Rightarrow> Some (CharP (CHR ''-''))
   | STAR \<Rightarrow> Some (CharP (CHR ''*'')) | SLASH \<Rightarrow> Some (CharP (CHR ''/''))
   | PERCENT \<Rightarrow> Some (CharP (CHR ''%'')) | BANG \<Rightarrow> Some (TextP ''!'') | AMP \<Rightarrow> Some (TextP ''&'')
   | PIPE \<Rightarrow> Some (TextP ''|'') | CARET \<Rightarrow> Some (TextP ''^'') | TILDE \<Rightarrow> Some (TextP ''~'')
   | AND_AND \<Rightarrow> Some (TextP ''&&'') | OR_OR \<Rightarrow> Some (TextP ''||'') | ARROW \<Rightarrow> Some (TextP ''=>'')
   | PIPE_INSERT \<Rightarrow> Some (TextP ''->'') | PIPE_EXTRACT \<Rightarrow> Some (TextP ''<-'')
   | CHANNEL_INSERT \<Rightarrow> Some (TextP '':=>'') | CHANNEL_EXTRACT \<Rightarrow> Some (TextP ''<=:'')
   | NULL_LITERAL \<Rightarrow> Some (TextP ''null'')
   | _ \<Rightarrow> None)"

definition is_text :: "(string \<Rightarrow> bool) \<Rightarrow> payload \<Rightarrow> bool" where
  "is_text P v = (case v of TextP x \<Rightarrow> P x | _ \<Rightarrow> False)"

definition payload_ok :: "string list \<Rightarrow> token_type \<Rightarrow> payload \<Rightarrow> bool" where
  "payload_ok kws k v = (case k of
     SYMBOL \<Rightarrow> is_text (\<lambda>x. is_identifier x \<and> x \<notin> set kws \<and> x \<notin> {''true'', ''false'', ''null''}) v
   | KEYWORD \<Rightarrow> is_text (\<lambda>x. x \<in> set kws) v
   | INT_LITERAL \<Rightarrow> (case v of IntP i \<Rightarrow> 0 \<le> i \<and> i \<le> 9223372036854775807 | _ \<Rightarrow> False)
   | FLOAT_LITERAL \<Rightarrow> (case v of FloatP x \<Rightarrow> is_float_text x | _ \<Rightarrow> False)
   | STRING_LITERAL \<Rightarrow> is_text (\<lambda>x. True) v
   | REGEX_LITERAL \<Rightarrow> is_text (\<lambda>x. CHR 0x22 \<notin> set x) v
   | CHAR_LITERAL \<Rightarrow> is_text (\<lambda>x. length x = 1) v
   | BOOL_LITERAL \<Rightarrow> is_text (\<lambda>x. x \<in> {''true'', ''false''}) v
   | END \<Rightarrow> v = CharP (CHR 0x00) \<or> v = TextP []
   | _ \<Rightarrow> fixed_payload k = Some v)"

section \<open>What is left of the source\<close>

definition remaining :: "lexer \<Rightarrow> string" where
  "remaining s = drop (lex_pos s) (lex_source s)"

lemma eof_remaining: "eof s n \<longleftrightarrow> length (remaining s) \<le> n"
  by (auto simp: eof_def remaining_def)

lemma peek_remaining: "peek s n = (if n < length (remaining s) then remaining s ! n else CHR 0x00)"
  by (auto simp: peek_def eof_def remaining_def)

lemma remaining_advance_no_newline [simp]:
  "remaining (advance_no_newline n s) = drop n (remaining s)"
  by (simp add: remaining_def add.commute)

lemma remaining_advance1:
  assumes "remaining s = c # cs"
  shows "remaining (advance1 s) = cs"
proof -
  have "remaining (advance1 s) = drop 1 (remaining s)"
    using assms advance1_pos [of s] by (simp add: eof_remaining) (simp add: remaining_def drop_Suc drop_tl)
  then show ?thesis using assms by simp
qed

lemma remaining_Cons:
  assumes "remaining s = c # cs"
  shows "\<not> eof s 0" "peek s 0 = c" "remaining (advance1 s) = cs"
    "peek s 1 = (if cs = [] then CHR 0x00 else hd cs)"
    "peek s (Suc 0) = (if cs = [] then CHR 0x00 else hd cs)"
  using assms remaining_advance1 [OF assms]
  by (simp_all add: eof_remaining peek_remaining hd_conv_nth)

lemma remaining_Nil: "remaining s = [] \<Longrightarrow> eof s n" "remaining s = [] \<Longrightarrow> peek s n = CHR 0x00"
  by (auto simp: eof_remaining peek_remaining)

lemma slice_remaining: "slice s (lex_pos s) (lex_pos s + n) = take n (remaining s)"
  by (simp add: slice_def remaining_def)

lemma advance_no_newline_add [simp]:
  "advance_no_newline m (advance_no_newline n s) = advance_no_newline (n + m) s"
  by (simp add: advance_no_newline_def)

lemma advance_no_newline_0 [simp]: "advance_no_newline 0 s = s"
  by (simp add: advance_no_newline_def)

lemma scan_no_newline_run:
  "scan_no_newline (\<lambda>c d. P c) s = advance_no_newline (length (takeWhile P (remaining s))) s"
proof (induction "remaining s" arbitrary: s)
  case Nil
  then show ?case
    using remaining_Nil(1) [of s 0] by (subst scan_no_newline.simps) simp
next
  case (Cons c cs)
  note r = remaining_Cons [OF Cons.hyps(2) [symmetric]]
  have "cs = remaining (advance_no_newline 1 s)"
    using Cons.hyps(2) [symmetric] by simp
  from Cons.hyps(1) [OF this] show ?case
    by (subst scan_no_newline.simps) (simp add: r Cons.hyps(2) [symmetric])
qed

text \<open>Scanning with \<open>advance\<close> moves the cursor as far; context and keywords stay.\<close>

lemma advance1_context [simp]:
  "lex_context (advance1 s) = lex_context s" "lex_keywords (advance1 s) = lex_keywords s"
  by (simp_all add: advance1_def)

lemma advance_no_newline_context [simp]:
  "lex_context (advance_no_newline n s) = lex_context s"
  "lex_keywords (advance_no_newline n s) = lex_keywords s"
  by (simp_all add: advance_no_newline_def)

lemma scan_run:
  "lex_pos (scan (\<lambda>c d. P c) s) = lex_pos s + length (takeWhile P (remaining s)) \<and>
   lex_context (scan (\<lambda>c d. P c) s) = lex_context s \<and>
   lex_keywords (scan (\<lambda>c d. P c) s) = lex_keywords s"
proof (induction "remaining s" arbitrary: s)
  case Nil
  then show ?case
    using remaining_Nil(1) [of s 0] by (subst (1 2 3) scan.simps) simp
next
  case (Cons c cs)
  note r = remaining_Cons [OF Cons.hyps(2) [symmetric]]
  show ?case
    using Cons.hyps(1) [OF r(3) [symmetric]] r(3) advance1_pos [OF r(1)]
    by (subst (1 2 3) scan.simps) (simp add: r Cons.hyps(2) [symmetric])
qed

section \<open>Numbers\<close>

lemma number_loop_fraction:
  "number_loop True s = (True, advance_no_newline (length (takeWhile is_digit (remaining s))) s)"
proof (induction "remaining s" arbitrary: s)
  case Nil
  then show ?case
    using remaining_Nil(1) [of s 0] by (subst number_loop.simps) simp
next
  case (Cons c cs)
  note r = remaining_Cons [OF Cons.hyps(2) [symmetric]]
  have "cs = remaining (advance_no_newline 1 s)"
    using Cons.hyps(2) [symmetric] by simp
  from Cons.hyps(1) [OF this] show ?case
    by (subst number_loop.simps) (simp add: r Cons.hyps(2) [symmetric])
qed

text \<open>The extent of a number: its digits, and the fraction when a dot and a digit follow.\<close>

definition number_text :: "string \<Rightarrow> bool \<times> string" where
  "number_text x =
     (let whole = takeWhile is_digit x; rest = dropWhile is_digit x
      in if length rest \<ge> 2 \<and> hd rest = CHR ''.'' \<and> is_digit (rest ! 1)
         then (True, whole @ CHR ''.'' # takeWhile is_digit (tl rest))
         else (False, whole))"

lemma not_digit [simp]: "\<not> is_digit (CHR 0x00)" "\<not> is_digit (CHR ''.'')"
  by (simp_all add: is_digit_def in_range_def)

lemma number_loop_run:
  "number_loop False s =
     (fst (number_text (remaining s)), advance_no_newline (length (snd (number_text (remaining s)))) s)"
proof (induction "remaining s" arbitrary: s)
  case Nil
  then show ?case
    using remaining_Nil(1) [of s 0] by (subst number_loop.simps) (simp add: number_text_def)
next
  case (Cons c cs)
  note r = remaining_Cons [OF Cons.hyps(2) [symmetric]]
  have rest: "cs = remaining (advance_no_newline 1 s)"
    using Cons.hyps(2) [symmetric] by simp
  note rest1 = rest [symmetric]
  show ?case
  proof (cases "is_digit c")
    case True
    with Cons.hyps(1) [OF rest] show ?thesis
      by (subst number_loop.simps) (simp add: r Cons.hyps(2) [symmetric] number_text_def Let_def)
  next
    case False
    then show ?thesis
      by (subst number_loop.simps)
         (cases cs, auto simp: r Cons.hyps(2) [symmetric] number_text_def Let_def number_loop_fraction)
  qed
qed

section \<open>Words\<close>

lemma take_length_takeWhile: "take (length (takeWhile P xs)) xs = takeWhile P xs"
  by (simp add: takeWhile_eq_take [symmetric])

definition word_kind :: "string list \<Rightarrow> string \<Rightarrow> token_type" where
  "word_kind kws x =
     (if x = ''true'' \<or> x = ''false'' then BOOL_LITERAL else if x = ''null'' then NULL_LITERAL
      else if x \<in> set kws then KEYWORD else SYMBOL)"

lemma lex_ident_run:
  "lex_ident s =
     (let x = takeWhile is_ident_cont (remaining s)
      in (make s (word_kind (lex_keywords s) x) (TextP x), advance_no_newline (length x) s))"
proof -
  let ?x = "takeWhile is_ident_cont (remaining s)"
  have "slice s (lex_pos s) (lex_pos (advance_no_newline (length ?x) s)) = ?x"
    by (simp add: slice_remaining take_length_takeWhile)
  then show ?thesis
    by (simp only: lex_ident_def scan_no_newline_run Let_def)
       (simp add: word_kind_def make_def, simp add: advance_no_newline_def)
qed

lemma take_number_text: "take (length (snd (number_text x))) x = snd (number_text x)"
proof -
  define whole rest where "whole = takeWhile is_digit x" and "rest = dropWhile is_digit x"
  have nt: "snd (number_text x) =
      (if length rest \<ge> 2 \<and> hd rest = CHR ''.'' \<and> is_digit (rest ! 1)
       then whole @ CHR ''.'' # takeWhile is_digit (tl rest) else whole)"
    by (simp add: number_text_def Let_def whole_def rest_def)
  have "take (length (snd (number_text x))) (whole @ rest) = snd (number_text x)"
    unfolding nt by (cases rest) (auto simp: take_length_takeWhile)
  then show ?thesis by (simp add: whole_def rest_def)
qed

lemma lex_number_run:
  "lex_number s =
     (let (is_float, x) = number_text (remaining s); s1 = advance_no_newline (length x) s
      in if is_float then (make s FLOAT_LITERAL (FloatP x), s1)
         else if decimal_value x \<le> 9223372036854775807 then (make s INT_LITERAL (IntP (decimal_value x)), s1)
         else (make s INT_LITERAL (IntP 0), lex_fail ''integer literal out of range'' s1))"
  by (simp add: lex_number_def number_loop_run slice_remaining take_number_text Let_def case_prod_beta make_def)
     (simp add: advance_no_newline_def)

lemma lex_keywords_fail [simp]:
  "lex_keywords (lex_fail msg s) = lex_keywords s" "lex_keywords (fail_if b msg s) = lex_keywords s"
  by (simp_all add: lex_fail_def fail_if_def)

lemma advance_keywords [simp]: "lex_keywords (advance n s) = lex_keywords s"
  by (induction n) (simp_all add: advance_def)

lemma number_is_float:
  assumes "fst (number_text x)"
  shows "is_float_text (snd (number_text x)) \<or> takeWhile is_digit x = []"
proof -
  define whole rest where "whole = takeWhile is_digit x" and "rest = dropWhile is_digit x"
  have whole: "list_all is_digit whole"
    unfolding whole_def list_all_iff by (meson set_takeWhileD)
  from assms have r: "length rest \<ge> 2" "hd rest = CHR ''.''" "is_digit (rest ! 1)"
    by (auto simp: number_text_def Let_def rest_def split: if_splits)
  then obtain d ds where rest: "rest = CHR ''.'' # d # ds"
    by (cases rest; cases "tl rest") auto
  have "takeWhile is_digit (whole @ CHR ''.'' # d # xs) = whole" for xs
    using whole by (subst takeWhile_append2) (auto simp: list_all_iff)
  moreover have "dropWhile is_digit (whole @ CHR ''.'' # d # xs) = CHR ''.'' # d # xs" for xs
    using whole by (subst dropWhile_append2) (auto simp: list_all_iff)
  moreover have "snd (number_text x) = whole @ CHR ''.'' # d # takeWhile is_digit ds"
    using r rest by (simp add: number_text_def Let_def whole_def [symmetric] rest_def [symmetric])
  ultimately show ?thesis
    using r(3) rest by (auto simp: is_float_text_def whole_def list_all_iff dest: set_takeWhileD)
qed

lemma peek_hd: "\<not> eof s 0 \<Longrightarrow> remaining s \<noteq> [] \<and> peek s 0 = hd (remaining s)"
  by (auto simp: eof_remaining peek_remaining hd_conv_nth)

lemma lex_ident_payload:
  assumes "\<not> eof s 0" "is_ident_start (peek s 0)"
  shows "payload_ok (lex_keywords s) (token_kind (fst (lex_ident s))) (token_value (fst (lex_ident s)))"
proof -
  obtain c cs where r: "remaining s = c # cs" and c: "is_ident_start c"
    using peek_hd [OF assms(1)] assms(2) by (cases "remaining s") auto
  then have cont: "is_ident_cont c"
    by (auto simp: is_ident_start_def is_ident_cont_def)
  have "is_identifier (takeWhile is_ident_cont (remaining s))"
    using c cont r by (auto simp: is_identifier_def list_all_iff dest: set_takeWhileD)
  then show ?thesis
    by (simp add: lex_ident_run Let_def make_def word_kind_def payload_ok_def is_text_def fixed_payload_def)
qed

lemma digit_value_nonneg: "is_digit c \<Longrightarrow> 0 \<le> digit_value c"
proof -
  assume "is_digit c"
  then have "(of_char (CHR ''0'') :: nat) \<le> of_char c"
    by (simp only: is_digit_def in_range_def)
  then show ?thesis
    by (simp add: digit_value_def)
qed

lemma decimal_value_nonneg: "list_all is_digit x \<Longrightarrow> 0 \<le> decimal_value x"
proof -
  have "0 \<le> n \<Longrightarrow> list_all is_digit x \<Longrightarrow> 0 \<le> foldl (\<lambda>n c. 10 * n + digit_value c) n x" for n
    by (induction x arbitrary: n) (simp_all add: digit_value_nonneg)
  then show "list_all is_digit x \<Longrightarrow> 0 \<le> decimal_value x"
    by (simp add: decimal_value_def)
qed

lemma lex_number_payload:
  assumes "\<not> eof s 0" "is_digit (peek s 0)"
  shows "payload_ok kws (token_kind (fst (lex_number s))) (token_value (fst (lex_number s)))"
proof -
  have "takeWhile is_digit (remaining s) \<noteq> []"
    using peek_hd [OF assms(1)] assms(2) by (cases "remaining s") auto
  moreover have "list_all is_digit (snd (number_text x))" if "\<not> fst (number_text x)" for x
    using that by (auto simp: number_text_def Let_def list_all_iff dest: set_takeWhileD split: if_splits)
  ultimately show ?thesis
    using number_is_float [of "remaining s"] decimal_value_nonneg [of "snd (number_text (remaining s))"]
    by (simp add: lex_number_run Let_def case_prod_beta make_def payload_ok_def)
qed

lemma find_quote_Some:
  assumes "find_quote src from = Some close"
  shows "CHR 0x22 \<notin> set (take (close - from) (drop from src))"
proof -
  let ?t = "takeWhile (\<lambda>c. c \<noteq> CHR 0x22) (drop from src)"
  have "take (length ?t) (drop from src) = ?t"
    by (rule take_length_takeWhile)
  with assms show ?thesis
    by (auto simp: find_quote_def Let_def split: if_splits dest: set_takeWhileD)
qed

lemma find_quote_None:
  assumes "find_quote src from = None"
  shows "CHR 0x22 \<notin> set (drop from src)"
proof -
  let ?t = "takeWhile (\<lambda>c. c \<noteq> CHR 0x22) (drop from src)"
  have "length (drop from src) \<le> length ?t"
    using assms by (simp add: find_quote_def Let_def split: if_splits)
  then have "?t = drop from src"
    using take_length_takeWhile [of "\<lambda>c. c \<noteq> CHR 0x22" "drop from src"] by simp
  then show ?thesis
    by (metis set_takeWhileD)
qed

lemma lex_regex_payload:
  "payload_ok kws (token_kind (fst (lex_regex s))) (token_value (fst (lex_regex s)))"
proof (cases "find_quote (lex_source s) (Suc (Suc (lex_pos s)))")
  case None
  from find_quote_None [OF None] show ?thesis
    by (auto simp: lex_regex_def Let_def None make_def payload_ok_def is_text_def slice_def
        advance_source dest: in_set_takeD)
next
  case (Some close)
  from find_quote_Some [OF Some] show ?thesis
    by (simp add: lex_regex_def Let_def Some make_def payload_ok_def is_text_def slice_def)
qed

lemma lex_operator_payload:
  "payload_ok kws (token_kind (fst (lex_operator s))) (token_value (fst (lex_operator s)))"
  by (simp add: lex_operator_def Let_def char_token_def text_token_def unexpected_character_def make_def
      payload_ok_def fixed_payload_def)

lemma next_token_payload:
  assumes "\<not> eof s 0"
  shows "payload_ok (lex_keywords s) (token_kind (fst (next_token s))) (token_value (fst (next_token s)))"
  using assms
  by (auto simp: next_token_def lex_ident_payload lex_number_payload lex_regex_payload lex_operator_payload)
     (simp_all add: lex_string_def lex_char_def Let_def case_prod_beta make_def payload_ok_def is_text_def)

section \<open>The payloads of a run\<close>

text \<open>The keyword set is never changed, and a context that has an error keeps it.\<close>

interpretation kept: lex_steps "\<lambda>s. lex_keywords s = kws" for kws
  by unfold_locales simp_all

interpretation failing: lex_steps "\<lambda>s. ctx_failed (lex_context s)"
  by unfold_locales simp_all

lemma start_token_context:
  "lex_context (start_token s) = lex_context (skip_trivia s)"
  "lex_keywords (start_token s) = lex_keywords s"
  using kept.R_skip_trivia [of s "lex_keywords s"] by (simp_all add: start_token_def Let_def)

lemma lex_turn_keywords: "lex_keywords (lex_turn s) = lex_keywords s"
  using kept.R_next_token [OF start_token_context(2)] by (simp add: lex_turn_def)

lemma lex_turn_failing: "ctx_failed (lex_context s) \<Longrightarrow> ctx_failed (lex_context (lex_turn s))"
  by (simp add: lex_turn_def failing.R_next_token failing.R_skip_trivia start_token_context(1))

text \<open>
  Induction along a run of the loop: what holds of the last turn and is handed back from a turn to the
  one before it holds of the run.
\<close>

lemma tokenize_loop_cases:
  assumes "tokenize_loop s = Some (ts, s')"
  obtains (last) "eof (start_token s) 0" "s' = start_token s"
      "ts = [make (start_token s) END (CharP (CHR 0x00))]"
    | (turn) us where "\<not> eof (start_token s) 0" "\<not> unexpected_char (peek (start_token s) 0)"
      "tokenize_loop (lex_turn s) = Some (us, s')" "ts = fst (next_token (start_token s)) # us"
proof (cases "eof (start_token s) 0")
  case True
  with assms show ?thesis
    by (intro last) (auto simp: tokenize_loop.simps [of s])
next
  case False
  moreover have "\<not> unexpected_char (peek (start_token s) 0)"
    using False assms stuck_never_returns [of s] by (auto simp: stuck_def)
  ultimately show ?thesis
    using assms
    by (auto simp: tokenize_loop.simps [of s] lex_turn_def bind_eq_Some_conv intro!: turn)
qed

lemma tokenize_loop_induct [consumes 1, case_names last turn]:
  assumes "tokenize_loop s = Some (ts, s')"
    and last: "\<And>s. eof (start_token s) 0 \<Longrightarrow>
      P s [make (start_token s) END (CharP (CHR 0x00))] (start_token s)"
    and turn: "\<And>s us s'. \<not> eof (start_token s) 0 \<Longrightarrow> \<not> unexpected_char (peek (start_token s) 0) \<Longrightarrow>
      tokenize_loop (lex_turn s) = Some (us, s') \<Longrightarrow> P (lex_turn s) us s' \<Longrightarrow>
      P s (fst (next_token (start_token s)) # us) s'"
  shows "P s ts s'"
  using assms(1)
proof (induction ts arbitrary: s)
  case Nil
  then show ?case by (cases rule: tokenize_loop_cases) simp_all
next
  case (Cons t ts)
  from Cons.prems show ?case
  proof (cases rule: tokenize_loop_cases)
    case last': last
    then show ?thesis using last by simp
  next
    case (turn us)
    then show ?thesis using Cons.IH turn assms(3) by simp
  qed
qed

lemma tokens_payload:
  assumes "tokenize path source ctx = Some (tokens, s)"
  shows "\<forall>t\<in>set tokens. payload_ok munx_keywords (token_kind t) (token_value t)"
proof -
  have "\<forall>t\<in>set tokens. payload_ok (lex_keywords l) (token_kind t) (token_value t)"
    if "tokenize_loop l = Some (tokens, s)" for l
    using that
  proof (induction rule: tokenize_loop_induct)
    case (last l)
    then show ?case by (simp add: make_def payload_ok_def)
  next
    case (turn l us s)
    then show ?case
      using next_token_payload [OF turn(1)] by (simp add: lex_turn_keywords start_token_context)
  qed
  from this [of "new_lexer source munx_keywords path ctx"] assms show ?thesis
    by (simp add: tokenize_def new_lexer_def)
qed

text \<open>
  C23. Every token carries the payload of its kind: a symbol is an identifier that is neither a keyword
  nor a literal word, an integer is in the range of \<open>long long\<close> and not negative, a float has digits on
  both sides of its dot, a character literal is one character, a regular expression holds no quote, and
  every operator has its own text.
\<close>

theorem token_payloads:
  assumes "tokenize path source ctx = Some (tokens, s)"
  shows "\<forall>t\<in>set tokens. payload_ok munx_keywords (token_kind t) (token_value t)"
  using assms by (rule tokens_payload)

theorem token_payloads_witness:
  "\<exists>tokens s. tokenize ''a.mx'' ''x += r\"a\" 12'' fresh_context = Some (tokens, s) \<and>
     map token_kind tokens = [SYMBOL, ADD_ASSIGN, REGEX_LITERAL, INT_LITERAL, END] \<and>
     (\<forall>t\<in>set tokens. payload_ok munx_keywords (token_kind t) (token_value t))"
proof -
  have "map_option (\<lambda>(ts, s). map token_kind ts) (tokenize ''a.mx'' ''x += r\"a\" 12'' fresh_context) =
      Some [SYMBOL, ADD_ASSIGN, REGEX_LITERAL, INT_LITERAL, END]"
    by code_simp
  then obtain tokens s where run: "tokenize ''a.mx'' ''x += r\"a\" 12'' fresh_context = Some (tokens, s)"
    "map token_kind tokens = [SYMBOL, ADD_ASSIGN, REGEX_LITERAL, INT_LITERAL, END]"
    by auto
  from run token_payloads [OF run(1)] show ?thesis
    by (intro exI [of _ tokens] exI [of _ s] conjI)
qed

end
