(* ===== verification/Lexer_Positions.thy ===== *)
theory Lexer_Positions
  imports Lexer_Tokens
begin

text \<open>
  The coordinates of the tokens. \<open>line_at\<close> and \<open>col_at\<close> say what the 1-based line and column of an
  offset are; the lexer maintains them incrementally, in a loop that looks for newlines and in a fast
  path that does not.
\<close>

definition line_at :: "string \<Rightarrow> nat \<Rightarrow> int" where
  "line_at src p = 1 + int (count_list (take p src) (CHR 0x0A))"

definition col_at :: "string \<Rightarrow> nat \<Rightarrow> int" where
  "col_at src p = 1 + int (length (takeWhile (\<lambda>c. c \<noteq> CHR 0x0A) (rev (take p src))))"

lemma line_at_Suc:
  "p < length src \<Longrightarrow> line_at src (Suc p) = line_at src p + (if src ! p = CHR 0x0A then 1 else 0)"
  by (simp add: line_at_def take_Suc_conv_app_nth)

lemma col_at_Suc:
  "p < length src \<Longrightarrow> col_at src (Suc p) = (if src ! p = CHR 0x0A then 1 else col_at src p + 1)"
  by (simp add: col_at_def take_Suc_conv_app_nth)

text \<open>The cursor's coordinates are right as long as no error has been recorded.\<close>

definition placed :: "lexer \<Rightarrow> bool" where
  "placed s \<longleftrightarrow> ctx_failed (lex_context s) \<or>
     lex_pos s \<le> length (lex_source s) \<and> lex_line s = line_at (lex_source s) (lex_pos s) \<and>
     lex_col s = col_at (lex_source s) (lex_pos s)"

lemma placed_advance1: "placed s \<Longrightarrow> placed (advance1 s)"
  by (auto simp: placed_def advance1_def eof_def line_at_Suc col_at_Suc)

lemma placed_step:
  "placed s \<Longrightarrow> \<not> eof s 0 \<Longrightarrow> peek s 0 \<noteq> CHR 0x0A \<Longrightarrow> placed (advance_no_newline 1 s)"
  by (auto simp: placed_def advance_no_newline_def eof_def peek_def line_at_Suc col_at_Suc)

lemma placed_failed: "ctx_failed (lex_context s) \<Longrightarrow> placed s"
  by (simp add: placed_def)

interpretation placing: lex_steps placed
  by unfold_locales (fact placed_advance1 placed_step | simp add: placed_failed)+

text \<open>A token is stamped with the place where its turn began.\<close>

interpretation stamp: lex_steps "\<lambda>s. tok_line s = l \<and> tok_col s = c" for l c
  by unfold_locales (auto simp: advance1_def advance_no_newline_def lex_fail_def)

lemma token_stamp: "token_line (make s k v) = tok_line s" "token_column (make s k v) = tok_col s"
  by (simp_all add: make_def)

lemma next_token_stamp:
  assumes "\<not> eof s 0"
  shows "token_line (fst (next_token s)) = tok_line s \<and> token_column (fst (next_token s)) = tok_col s"
proof -
  have str: "tok_line (snd (string_loop [] (advance_no_newline 1 s))) = tok_line s \<and>
      tok_col (snd (string_loop [] (advance_no_newline 1 s))) = tok_col s"
    by (rule stamp.R_string_loop) (simp add: advance_no_newline_def)
  have chr: "tok_line (snd (char_body (fail_if b m (advance_no_newline 1 s)))) = tok_line s \<and>
      tok_col (snd (char_body (fail_if b m (advance_no_newline 1 s)))) = tok_col s" for b m
    by (rule stamp.R_char_body) (simp add: advance_no_newline_def fail_if_def lex_fail_def)
  have adv: "tok_line (advance n (advance_no_newline 2 s)) = tok_line s \<and>
      tok_col (advance n (advance_no_newline 2 s)) = tok_col s" for n
    by (rule stamp.R_advance) (simp add: advance_no_newline_def)
  show ?thesis
    using str chr adv
    by (auto simp: next_token_def lex_ident_run lex_number_run lex_string_def lex_regex_def lex_char_def
        lex_operator_def char_token_def text_token_def unexpected_character_def
        Let_def case_prod_beta token_stamp fail_if_def lex_fail_def split: option.split)
qed

lemma not_failed_turn:
  assumes "tokenize_loop s = Some (ts, s')" "\<not> ctx_failed (lex_context s')"
  shows "\<not> ctx_failed (lex_context (start_token s))"
  using assms
proof (induction rule: tokenize_loop_induct)
  case (turn s us s')
  have "\<not> ctx_failed (lex_context (lex_turn s))"
  proof
    assume "ctx_failed (lex_context (lex_turn s))"
    then have "ctx_failed (lex_context (start_token (lex_turn s)))"
      by (simp add: start_token_context(1) failing.R_skip_trivia)
    with turn.IH turn.prems show False by simp
  qed
  then show ?case
    using failing.R_next_token [of "start_token s"] by (auto simp: lex_turn_def)
qed simp

lemma placed_start: "placed s \<Longrightarrow> placed (start_token s)"
  using placing.R_skip_trivia [of s] by (simp add: placed_def start_token_def Let_def)



end
