(* ===== verification/Lexer_Roundtrip.thy ===== *)
theory Lexer_Roundtrip
  imports Lexer_Tokens
begin

text \<open>
  A printer for token lists and the proof that the lexer reads its output back: whatever tokens the
  lexer can produce, their spellings separated by blanks lex to the same tokens, without an error.
\<close>

section \<open>The printer\<close>

definition escape_char :: "char \<Rightarrow> string" where
  "escape_char c =
     (if c = CHR 0x0A then [CHR 0x5C, CHR ''n'']
      else if c = CHR 0x0D then [CHR 0x5C, CHR ''r'']
      else if c = CHR 0x09 then [CHR 0x5C, CHR ''t'']
      else if c = CHR 0x07 then [CHR 0x5C, CHR ''a'']
      else if c = CHR 0x5C then [CHR 0x5C, CHR 0x5C]
      else if c = CHR 0x22 then [CHR 0x5C, CHR 0x22]
      else if c = CHR 0x27 then [CHR 0x5C, CHR 0x27]
      else [c])"

fun payload_text :: "payload \<Rightarrow> string" where
  "payload_text (CharP c) = [c]"
| "payload_text (IntP i) = to_string i"
| "payload_text (FloatP x) = x"
| "payload_text (TextP x) = x"

definition spell_token :: "token_type \<Rightarrow> payload \<Rightarrow> string" where
  "spell_token k v = (case k of
     STRING_LITERAL \<Rightarrow> CHR 0x22 # concat (map escape_char (payload_text v)) @ [CHR 0x22]
   | CHAR_LITERAL \<Rightarrow> CHR 0x27 # concat (map escape_char (payload_text v)) @ [CHR 0x27]
   | REGEX_LITERAL \<Rightarrow> CHR ''r'' # CHR 0x22 # payload_text v @ [CHR 0x22]
   | _ \<Rightarrow> payload_text v)"

definition spell_tokens :: "(token_type \<times> payload) list \<Rightarrow> string" where
  "spell_tokens ts = concat (map (\<lambda>(k, v). spell_token k v @ '' '') ts)"

section \<open>Reading one token back\<close>

text \<open>\<open>reads s n k v\<close>: the next token of \<open>s\<close> has kind \<open>k\<close> and payload \<open>v\<close>, is \<open>n\<close> characters long, and no error is recorded.\<close>

definition reads :: "lexer \<Rightarrow> nat \<Rightarrow> token_type \<Rightarrow> payload \<Rightarrow> bool" where
  "reads s n k v \<longleftrightarrow>
     token_kind (fst (next_token s)) = k \<and> token_value (fst (next_token s)) = v \<and>
     lex_pos (snd (next_token s)) = lex_pos s + n \<and>
     lex_context (snd (next_token s)) = lex_context s"

lemma peek_prefix:
  "remaining s = xs @ ys \<Longrightarrow> n < length xs \<Longrightarrow> peek s n = xs ! n"
  by (simp add: peek_remaining nth_append)

lemma blank_not_cont [simp]: "\<not> is_ident_cont (CHR '' '')" "\<not> is_digit (CHR '' '')"
  by (simp_all add: is_ident_cont_def is_alpha_def is_digit_def in_range_def)

lemma quote_not_cont [simp]: "\<not> is_ident_cont (CHR 0x22)"
  by (simp add: is_ident_cont_def is_alpha_def is_digit_def in_range_def)

lemma ident_not_digit: "is_ident_start c \<Longrightarrow> \<not> is_digit c"
  by (auto simp: is_ident_start_def is_alpha_def is_digit_def in_range_def)

lemma reads_word:
  assumes "remaining s = x @ CHR '' '' # rest" "is_identifier x"
  shows "reads s (length x) (word_kind (lex_keywords s) x) (TextP x)"
proof -
  obtain c cs where x: "x = c # cs" and c: "is_ident_start c" and cs: "list_all is_ident_cont x"
    using assms(2) by (cases x) (auto simp: is_identifier_def)
  have "takeWhile is_ident_cont (remaining s) = x"
    using cs unfolding assms(1) by (subst takeWhile_append2) (auto simp: list_all_iff)
  moreover have "peek s 0 = c"
    using peek_prefix [OF assms(1), of 0] x by simp
  moreover have "peek s 1 \<noteq> CHR 0x22"
  proof (cases cs)
    case Nil
    then show ?thesis using assms(1) x by (simp add: peek_remaining)
  next
    case (Cons d ds)
    then have "peek s 1 = d" "is_ident_cont d"
      using assms(1) cs x by (simp_all add: peek_remaining)
    then show ?thesis by auto
  qed
  ultimately show ?thesis
    using c by (simp add: reads_def next_token_def lex_ident_run Let_def make_def)
qed

lemma reads_number:
  assumes "remaining s = x @ CHR '' '' # rest" "x \<noteq> []" "is_digit (hd x)"
    "number_text (x @ CHR '' '' # rest) = (f, x)" "f \<or> decimal_value x \<le> 9223372036854775807"
  shows "reads s (length x) (if f then FLOAT_LITERAL else INT_LITERAL) (if f then FloatP x else IntP (decimal_value x))"
proof -
  have p: "peek s 0 = hd x"
    using peek_prefix [OF assms(1), of 0] assms(2) by (simp add: hd_conv_nth)
  have "\<not> is_ident_start (hd x)" "hd x \<noteq> CHR ''r''"
    using assms(3) ident_not_digit [of "hd x"] by (auto simp: is_digit_def in_range_def)
  then show ?thesis
    using assms p by (auto simp: reads_def next_token_def lex_number_run Let_def make_def)
qed

lemma digit_char_simps:
  assumes "d < 10"
  shows "is_digit (digit_char d)" "digit_value (digit_char d) = int d"
proof -
  have "(of_char (digit_char d) :: nat) = 48 + d"
    using assms by (simp add: digit_char_def)
  moreover have "(of_char (CHR ''0'') :: nat) = 48" "(of_char (CHR ''9'') :: nat) = 57"
    by simp_all
  ultimately show "is_digit (digit_char d)" "digit_value (digit_char d) = int d"
    using assms by (simp_all only: is_digit_def in_range_def digit_value_def) simp_all
qed

lemma decimal_digits: "list_all is_digit (decimal n) \<and> decimal n \<noteq> [] \<and> decimal_value (decimal n) = int n"
proof (induction n rule: decimal.induct)
  case (1 n)
  show ?case
  proof (cases "n < 10")
    case True
    then show ?thesis
      by (simp add: decimal.simps [of n] digit_char_simps decimal_value_def)
  next
    case False
    with 1 have IH: "list_all is_digit (decimal (n div 10))" "decimal_value (decimal (n div 10)) = int (n div 10)"
      by simp_all
    have "10 * int (n div 10) + int (n mod 10) = int n"
      by (simp add: zdiv_int zmod_int)
    with IH False show ?thesis
      by (simp add: decimal.simps [of n] digit_char_simps decimal_value_def)
  qed
qed

lemma number_text_int:
  "list_all is_digit x \<Longrightarrow> number_text (x @ CHR '' '' # rest) = (False, x)"
  by (simp add: number_text_def Let_def list_all_iff takeWhile_append2 dropWhile_append2)

lemma number_text_float:
  assumes "is_float_text x"
  shows "number_text (x @ CHR '' '' # rest) = (True, x) \<and> x \<noteq> [] \<and> is_digit (hd x)"
proof -
  define whole tail where "whole = takeWhile is_digit x" and "tail = dropWhile is_digit x"
  have x: "x = whole @ tail" by (simp add: whole_def tail_def)
  have whole: "\<forall>c\<in>set whole. is_digit c"
    unfolding whole_def by (meson set_takeWhileD)
  from assms have w: "whole \<noteq> []" "length tail \<ge> 2" "hd tail = CHR ''.''" "list_all is_digit (tl tail)"
    by (simp_all add: is_float_text_def Let_def whole_def tail_def)
  then obtain d ds where tail: "tail = CHR ''.'' # d # ds" "is_digit d" "\<forall>c\<in>set ds. is_digit c"
    by (cases tail; cases "tl tail") (auto simp: list_all_iff)
  have "number_text ((whole @ tail) @ CHR '' '' # rest) = (True, whole @ tail)"
    using whole tail by (simp add: number_text_def Let_def takeWhile_append2 dropWhile_append2)
  then show ?thesis
    using x w(1) whole by (cases whole) auto
qed

section \<open>Escapes\<close>

definition plain_char :: "char \<Rightarrow> bool" where
  "plain_char c \<longleftrightarrow> c \<noteq> CHR 0x22 \<and> c \<noteq> CHR 0x5C"

definition escape_value :: "char \<Rightarrow> char option" where
  "escape_value d =
     (if d = CHR ''n'' then Some (CHR 0x0A) else if d = CHR ''r'' then Some (CHR 0x0D)
      else if d = CHR ''t'' then Some (CHR 0x09) else if d = CHR ''a'' then Some (CHR 0x07)
      else if d = CHR 0x5C \<or> d = CHR 0x22 \<or> d = CHR 0x27 then Some d else None)"

lemma lex_escape_run:
  assumes "remaining s = CHR 0x5C # d # cs" "escape_value d = Some c"
  shows "lex_escape s = (c, advance_no_newline 2 s)"
proof -
  have "\<not> eof (advance_no_newline 1 s) 0" "peek (advance_no_newline 1 s) 0 = d"
    using assms(1) by (simp_all add: eof_remaining peek_remaining)
  then show ?thesis
    using assms(2)
    by (auto simp: lex_escape_def Let_def fail_if_def escape_value_def numeral_2_eq_2 split: if_splits)
qed

lemma escape_cases:
  obtains (plain) "escape_char c = [c]" "plain_char c" "c \<noteq> CHR 0x27"
    | (escaped) d where "escape_char c = [CHR 0x5C, d]"
      "\<And>s cs. remaining s = CHR 0x5C # d # cs \<Longrightarrow> lex_escape s = (c, advance_no_newline 2 s)"
proof (cases "c \<in> {CHR 0x0A, CHR 0x0D, CHR 0x09, CHR 0x07, CHR 0x5C, CHR 0x22, CHR 0x27}")
  case True
  then obtain d where "escape_char c = [CHR 0x5C, d]" "escape_value d = Some c"
    by (auto simp: escape_char_def escape_value_def)
  with lex_escape_run show ?thesis by (intro escaped)
next
  case False
  then show ?thesis
    by (intro plain) (auto simp: escape_char_def plain_char_def)
qed

lemma string_loop_plain:
  assumes "remaining s = c # cs" "plain_char c"
  shows "string_loop v s = string_loop (v @ [c]) (advance1 s)"
proof -
  let ?P = "\<lambda>c d. c \<noteq> CHR 0x22 \<and> c \<noteq> CHR 0x5C" and ?t = "advance1 s"
  note r = remaining_Cons [OF assms(1)]
  have pos: "lex_pos ?t = lex_pos s + 1"
    by (rule advance1_pos [OF r(1)])
  have scan: "scan ?P s = scan ?P ?t"
    using assms(2) r by (simp add: scan.simps [of _ s] plain_char_def)
  have le: "lex_pos s + 1 \<le> lex_pos (scan ?P ?t)"
    using scan_pos [of ?t ?P] pos by simp
  then have "slice s (lex_pos s) (lex_pos (scan ?P ?t)) =
      c # slice ?t (lex_pos ?t) (lex_pos (scan ?P ?t))"
    using assms(1) pos r(3) by (simp add: slice_def remaining_def take_Cons' Suc_diff_le)
  moreover have "string_loop v s = string_loop (v @ slice s (lex_pos s) (lex_pos (scan ?P ?t))) (scan ?P ?t)"
    using assms(2) r by (subst string_loop.simps) (simp add: plain_char_def scan Let_def)
  moreover have "string_loop (v @ c # slice ?t (lex_pos ?t) (lex_pos (scan ?P ?t))) (scan ?P ?t) =
      string_loop (v @ [c]) ?t"
  proof (cases "\<not> eof ?t 0 \<and> ?P (peek ?t 0) (peek ?t 1)")
    case True
    then show ?thesis
      by (simp add: string_loop.simps [of "v @ [c]" ?t] Let_def)
  next
    case False
    then have "scan ?P ?t = ?t"
      by (subst scan.simps) auto
    then show ?thesis by (simp add: slice_def)
  qed
  ultimately show ?thesis by simp
qed

lemma string_loop_reads:
  assumes "remaining s = concat (map escape_char x) @ CHR 0x22 # rest"
  shows "fst (string_loop v s) = v @ x \<and>
    lex_pos (snd (string_loop v s)) = lex_pos s + length (concat (map escape_char x)) \<and>
    lex_context (snd (string_loop v s)) = lex_context s"
  using assms
proof (induction x arbitrary: v s)
  case Nil
  then show ?case
    using remaining_Cons(2) [of s] by (simp add: string_loop.simps [of v s])
next
  case (Cons c x)
  show ?case
  proof (cases c rule: escape_cases)
    case plain
    with Cons.prems have r: "remaining s = c # concat (map escape_char x) @ CHR 0x22 # rest"
      by simp
    show ?thesis
      using Cons.IH [OF remaining_advance1 [OF r], of "v @ [c]"] plain advance1_pos remaining_Cons(1) [OF r]
      by (simp add: string_loop_plain [OF r plain(2)])
  next
    case (escaped d)
    with Cons.prems have r: "remaining s = CHR 0x5C # d # concat (map escape_char x) @ CHR 0x22 # rest"
      by simp
    have "string_loop v s = string_loop (v @ [c]) (advance_no_newline 2 s)"
      using remaining_Cons(1,2) [OF r] by (simp add: string_loop.simps [of v s] escaped(2) [OF r])
    with Cons.IH [of "advance_no_newline 2 s" "v @ [c]"] r escaped(1) show ?thesis
      by simp
  qed
qed

lemma reads_string:
  assumes "remaining s = CHR 0x22 # concat (map escape_char x) @ CHR 0x22 # rest"
  shows "reads s (length (concat (map escape_char x)) + 2) STRING_LITERAL (TextP x)"
proof -
  let ?t = "advance_no_newline 1 s"
  have t: "remaining ?t = concat (map escape_char x) @ CHR 0x22 # rest"
    using assms by simp
  note loop = string_loop_reads [OF t, of "[]"]
  have "lex_pos (snd (string_loop [] ?t)) < length (lex_source s)"
  proof -
    have "length (remaining s) = length (concat (map escape_char x)) + 2 + length rest"
      using assms by simp
    moreover have "length (remaining s) = length (lex_source s) - lex_pos s"
      by (simp add: remaining_def)
    ultimately show ?thesis
      using loop by (simp del: length_concat)
  qed
  then have "\<not> eof (snd (string_loop [] ?t)) 0"
    by (simp add: eof_def lex_source)
  moreover have "\<not> is_ident_start (CHR 0x22)" "\<not> is_digit (CHR 0x22)"
    by (simp_all add: is_ident_start_def is_alpha_def is_digit_def in_range_def)
  ultimately show ?thesis
    using loop remaining_Cons(2) [OF assms]
    by (simp add: reads_def next_token_def lex_string_def Let_def case_prod_beta make_def fail_if_def
        del: One_nat_def length_concat)
qed

lemma reads_char:
  assumes "remaining s = CHR 0x27 # escape_char c @ CHR 0x27 # rest"
  shows "reads s (length (escape_char c) + 2) CHAR_LITERAL (TextP [c])"
proof -
  let ?t = "advance_no_newline 1 s"
  have t: "remaining ?t = escape_char c @ CHR 0x27 # rest"
    using assms by simp
  have body: "fst (char_body ?t) = c \<and> lex_context (snd (char_body ?t)) = lex_context s \<and>
      lex_pos (snd (char_body ?t)) = lex_pos s + 1 + length (escape_char c) \<and>
      remaining (snd (char_body ?t)) = CHR 0x27 # rest"
  proof (cases c rule: escape_cases)
    case plain
    with t have r: "remaining ?t = c # CHR 0x27 # rest" by simp
    show ?thesis
      using plain remaining_Cons [OF r] advance1_pos [of ?t] by (simp add: char_body_def plain_char_def)
  next
    case (escaped d)
    with t have r: "remaining ?t = CHR 0x5C # d # CHR 0x27 # rest" by simp
    show ?thesis
      using escaped(1) remaining_Cons(2) [OF r] assms escaped(2) [OF r] by (simp add: char_body_def)
  qed
  have "escape_char c \<noteq> []"
    by (simp add: escape_char_def)
  with t have "\<not> eof ?t 0"
    by (simp add: eof_remaining)
  moreover have "\<not> is_ident_start (CHR 0x27)" "\<not> is_digit (CHR 0x27)"
    by (simp_all add: is_ident_start_def is_alpha_def is_digit_def in_range_def)
  moreover have "\<not> eof (snd (char_body ?t)) 0" "peek (snd (char_body ?t)) 0 = CHR 0x27"
    using body remaining_Cons(1,2) by blast+
  ultimately show ?thesis
    using body remaining_Cons(2) [OF assms]
    by (simp add: reads_def next_token_def lex_char_def Let_def case_prod_beta make_def fail_if_def
        del: One_nat_def)
qed

section \<open>Regular expressions and operators\<close>

lemma reads_regex:
  assumes "remaining s = CHR ''r'' # CHR 0x22 # x @ CHR 0x22 # rest" "CHR 0x22 \<notin> set x"
  shows "reads s (length x + 3) REGEX_LITERAL (TextP x)"
proof -
  have body: "drop (lex_pos s + 2) (lex_source s) = x @ CHR 0x22 # rest"
    using arg_cong [OF assms(1), of "drop 2"] by (simp add: remaining_def add.commute)
  have "takeWhile (\<lambda>c. c \<noteq> CHR 0x22) (x @ CHR 0x22 # rest) = x"
    using assms(2) by (subst takeWhile_append2) auto
  moreover have "lex_pos s + 2 + length x < length (lex_source s)"
  proof -
    have "length (drop (lex_pos s + 2) (lex_source s)) = length x + Suc (length rest)"
      unfolding body by simp
    then show ?thesis by simp
  qed
  ultimately have "find_quote (lex_source s) (lex_pos s + 2) = Some (lex_pos s + 2 + length x)"
    by (simp add: find_quote_def Let_def body [simplified])
  moreover have "slice t (lex_pos s + 2) (lex_pos s + 2 + length x) = x" if "lex_source t = lex_source s" for t
    using body that by (simp add: slice_def)
  moreover have "lex_pos (advance (length x) (advance_no_newline 2 s)) = lex_pos s + 2 + length x"
    using \<open>lex_pos s + 2 + length x < length (lex_source s)\<close> by (subst advance_pos_exact) simp_all
  moreover have "lex_context (advance n t) = lex_context t" for n t
    by (induction n) (simp_all add: advance_def)
  ultimately show ?thesis
    using remaining_Cons(2) [OF assms(1)] remaining_Cons(4) [OF assms(1)]
    by (simp add: reads_def next_token_def lex_regex_def Let_def make_def)
qed

lemma reads_operator:
  assumes "fixed_payload k = Some v" "k \<noteq> NULL_LITERAL"
    "remaining s = payload_text v @ CHR '' '' # rest"
  shows "reads s (length (payload_text v)) k v"
proof -
  let ?x = "payload_text (the (fixed_payload k))"
  have v: "v = the (fixed_payload k)"
    using assms(1) by simp
  have "fixed_payload k = None \<or> ?x \<noteq> []"
    by (cases k) (simp_all add: fixed_payload_def)
  with assms(1) have "?x \<noteq> []" by simp
  then have look: "peek s 0 = ?x ! 0"
    "peek s (Suc 0) = (if length ?x = 1 then CHR '' '' else ?x ! 1)"
    "length ?x = 1 \<or> peek s 2 = (if length ?x = 2 then CHR '' '' else ?x ! 2)"
    using assms(3) unfolding v
    by (cases ?x; cases "tl ?x"; cases "tl (tl ?x)"; simp add: peek_remaining)+
  have start: "list_all (\<lambda>c. \<not> is_ident_start c \<and> \<not> is_digit c) ''(){}[],;.:+-*/%=!<>&|^~''"
    by code_simp
  have member: "fixed_payload k = None \<or> k = NULL_LITERAL \<or>
      ?x ! 0 \<in> set ''(){}[],;.:+-*/%=!<>&|^~''"
    by (cases k) (simp_all add: fixed_payload_def)
  have m: "?x ! 0 \<in> set ''(){}[],;.:+-*/%=!<>&|^~''"
    using member assms(1,2) by (elim disjE) simp_all
  from start m have c: "\<not> is_ident_start (?x ! 0)" "\<not> is_digit (?x ! 0)"
    unfolding list_all_iff by blast+
  from m have "?x ! 0 \<noteq> CHR ''r'' \<and> ?x ! 0 \<noteq> CHR 0x22 \<and> ?x ! 0 \<noteq> CHR 0x27"
    by (elim set_ConsD [THEN disjE]) auto
  with c have op: "next_token s = lex_operator s"
    by (simp add: next_token_def look(1))
  have "fixed_payload k = None \<or> k = NULL_LITERAL \<or>
      lex_operator s = (make s k (the (fixed_payload k)), advance_no_newline (length ?x) s)"
    using look
    by (cases k; simp add: fixed_payload_def lex_operator_def char_token_def text_token_def Let_def)
  then have "lex_operator s = (make s k v, advance_no_newline (length (payload_text v)) s)"
    using assms(1,2) by auto
  then show ?thesis
    unfolding reads_def op by (simp add: make_def)
qed

section \<open>The round trip\<close>

lemma keywords_are_words: "list_all is_identifier munx_keywords"
  by code_simp

lemma reads_keyword:
  assumes "x \<in> set munx_keywords" "lex_keywords s = munx_keywords" "remaining s = x @ CHR '' '' # rest"
  shows "reads s (length x) KEYWORD (TextP x)"
proof -
  have "list_all (\<lambda>x. is_identifier x \<and> word_kind munx_keywords x = KEYWORD) munx_keywords"
    by code_simp
  with assms(1) have "is_identifier x" "word_kind munx_keywords x = KEYWORD"
    unfolding list_all_iff by blast+
  with reads_word [OF assms(3)] assms(2) show ?thesis by simp
qed

lemma reads_spelled:
  assumes "payload_ok munx_keywords k v" "k \<noteq> END" "lex_keywords s = munx_keywords"
    "remaining s = spell_token k v @ CHR '' '' # rest"
  shows "reads s (length (spell_token k v)) k v"
proof -
  consider (symbol) x where "k = SYMBOL" "v = TextP x" "is_identifier x" "word_kind munx_keywords x = SYMBOL"
    | (keyword) x where "k = KEYWORD" "v = TextP x" "x \<in> set munx_keywords"
    | (int) i where "k = INT_LITERAL" "v = IntP i" "0 \<le> i" "i \<le> 9223372036854775807"
    | (float) x where "k = FLOAT_LITERAL" "v = FloatP x" "is_float_text x"
    | (string) x where "k = STRING_LITERAL" "v = TextP x"
    | (regex) x where "k = REGEX_LITERAL" "v = TextP x" "CHR 0x22 \<notin> set x"
    | (char) c where "k = CHAR_LITERAL" "v = TextP [c]"
    | (bool) x where "k = BOOL_LITERAL" "v = TextP x" "x = ''true'' \<or> x = ''false''"
    | (null) "k = NULL_LITERAL" "v = TextP ''null''"
    | (operator) "fixed_payload k = Some v" "k \<noteq> NULL_LITERAL" "spell_token k v = payload_text v"
    using assms(1,2)
    by (cases k; cases v; simp add: payload_ok_def is_text_def word_kind_def fixed_payload_def
        spell_token_def length_Suc_conv; blast)
  then show ?thesis
  proof cases
    case symbol
    then show ?thesis
      using reads_word [of s "x"] assms(3,4) by (simp add: spell_token_def)
  next
    case keyword
    then show ?thesis
      using reads_keyword [of "x" s] assms(3,4) by (simp add: spell_token_def)
  next
    case int
    let ?d = "decimal (nat i)"
    have "list_all is_digit ?d" "?d \<noteq> []" "decimal_value ?d = i"
      using decimal_digits [of "nat i"] int(3) by simp_all
    moreover from this(1,2) have "is_digit (hd ?d)" by (cases ?d) simp_all
    moreover have "spell_token k v = ?d"
      using int by (simp add: spell_token_def to_string_def)
    ultimately show ?thesis
      using reads_number [of s ?d rest False] assms(4) int by (simp add: number_text_int)
  next
    case float
    then show ?thesis
      using reads_number [of s "x" rest True] number_text_float [of "x" rest] assms(4)
      by (simp add: spell_token_def)
  next
    case string
    then show ?thesis
      using reads_string [of s "x"] assms(4) by (simp add: spell_token_def)
  next
    case regex
    then show ?thesis
      using reads_regex [of s "x"] assms(4) by (simp add: spell_token_def numeral_3_eq_3)
  next
    case char
    then show ?thesis
      using reads_char [of s c] assms(4) by (simp add: spell_token_def)
  next
    case bool
    moreover have "is_identifier ''true'' \<and> is_identifier ''false''"
      by code_simp
    ultimately show ?thesis
      using reads_word [of s "x"] assms(3,4) by (auto simp: spell_token_def word_kind_def)
  next
    case null
    moreover have "is_identifier ''null''"
      by code_simp
    ultimately show ?thesis
      using reads_word [of s "''null''"] assms(3,4) by (simp add: spell_token_def word_kind_def)
  next
    case operator
    then show ?thesis
      using reads_operator [OF operator(1,2)] assms(4) by simp
  qed
qed

lemma spelled_not_trivia:
  assumes "reads s (length (spell_token k v)) k v" "k \<noteq> END" "payload_ok munx_keywords k v"
    "remaining s = spell_token k v @ CHR '' '' # rest"
  shows "skip_trivia s = s" "\<not> eof s 0"
proof -
  show eof: "\<not> eof s 0"
    using assms(4) by (simp add: eof_remaining)
  have "\<not> is_space (peek s 0)"
  proof
    assume "is_space (peek s 0)"
    then have "unexpected_char (peek s 0)"
      by (auto simp: is_space_def unexpected_char_def is_ident_start_def is_alpha_def is_digit_def in_range_def)
    from unexpected_lexes [OF this] assms(1,2) show False
      by (simp add: reads_def unexpected_character_def make_def)
  qed
  moreover have "peek s 1 = CHR '' ''" if slash: "peek s 0 = CHR ''/''"
  proof -
    have "\<not> is_ident_start (CHR ''/'')" "\<not> is_digit (CHR ''/'')"
      by (simp_all add: is_ident_start_def is_alpha_def is_digit_def in_range_def)
    with slash have "next_token s = char_token s SLASH"
      by (simp add: next_token_def lex_operator_def Let_def)
    with assms(1) have "k = SLASH" "v = CharP (CHR ''/'')"
      using slash by (simp_all add: reads_def char_token_def make_def)
    with assms(4) show ?thesis
      by (simp add: peek_remaining spell_token_def)
  qed
  ultimately show "skip_trivia s = s"
    using eof by (subst skip_trivia.simps) auto
qed

lemma skip_blank:
  assumes "remaining s = CHR '' '' # r"
  shows "skip_trivia s = skip_trivia (advance1 s)"
  using remaining_Cons(1,2) [OF assms] by (subst skip_trivia.simps) (simp add: is_space_def)

lemma lex_spelled:
  assumes "\<forall>(k, v)\<in>set ts. payload_ok munx_keywords k v \<and> k \<noteq> END" "lex_keywords s = munx_keywords"
    "remaining s = spell_tokens ts"
  shows "\<exists>tokens s'. tokenize_loop s = Some (tokens, s') \<and>
    map (\<lambda>t. (token_kind t, token_value t)) tokens = ts @ [(END, CharP (CHR 0x00))] \<and>
    lex_context s' = lex_context s"
  using assms
proof (induction ts arbitrary: s)
  case Nil
  then have "skip_trivia s = s" "eof s 0"
    by (simp_all add: spell_tokens_def eof_remaining skip_trivia.simps [of s])
  then show ?case
    by (simp add: tokenize_loop.simps [of s] start_token_def make_def eof_def)
next
  case (Cons t ts)
  obtain k v where t: "t = (k, v)" by (cases t)
  let ?s = "start_token s"
  from Cons.prems(1) t have kv: "payload_ok munx_keywords k v" "k \<noteq> END" by auto
  have rem: "remaining s = spell_token k v @ CHR '' '' # spell_tokens ts"
    using Cons.prems(3) t by (simp add: spell_tokens_def)
  note trivia = spelled_not_trivia [OF reads_spelled [OF kv Cons.prems(2) rem] kv(2,1) rem]
  have start: "?s = s\<lparr>tok_line := lex_line s, tok_col := lex_col s\<rparr>"
    by (simp add: start_token_def Let_def trivia)
  have same: "remaining ?s = remaining s" "lex_keywords ?s = munx_keywords" "lex_context ?s = lex_context s"
    "\<not> eof ?s 0" "lex_source ?s = lex_source s" "lex_pos ?s = lex_pos s"
    using trivia(2) Cons.prems(2) by (simp_all add: start remaining_def eof_def)
  from reads_spelled [OF kv same(2)] rem same(1)
  have r: "reads ?s (length (spell_token k v)) k v" by simp
  let ?t = "lex_turn s"
  have blank: "remaining ?t = CHR '' '' # spell_tokens ts"
  proof -
    have "remaining ?t = drop (length (spell_token k v)) (remaining ?s)"
      using r by (simp add: lex_turn_def reads_def remaining_def lex_source add.commute)
    then show ?thesis using rem same(1) by simp
  qed
  have "tokenize_loop ?t = tokenize_loop (advance1 ?t)"
    by (simp add: tokenize_loop.simps [of ?t] tokenize_loop.simps [of "advance1 ?t"] start_token_def
        skip_blank [OF blank])
  moreover from Cons.IH [of "advance1 ?t"] Cons.prems(1,2)
  obtain tokens s' where "tokenize_loop (advance1 ?t) = Some (tokens, s')"
    "map (\<lambda>t. (token_kind t, token_value t)) tokens = ts @ [(END, CharP (CHR 0x00))]"
    "lex_context s' = lex_context ?t"
    using remaining_advance1 [OF blank] by (auto simp: lex_turn_keywords)
  ultimately show ?case
    using r same(3,4) t
    by (auto simp: tokenize_loop.simps [of s] lex_turn_def reads_def)
qed



end
