(* ===== verification/Native_Runtime.thy ===== *)
theory Native_Runtime
  imports Int64 Compile_Errors
begin

text \<open>
  The value runtime of natively compiled programs (\<open>native/runtime/munx_value.c\<close>, \<open>munx_print.c\<close>): tagged
  values and the operations the generated code calls. A call that aborts is \<open>Aborts\<close> with its
  message; signed overflow, which C leaves undefined, is \<open>Undefined\<close>. Allocation is taken to succeed.
  The arithmetic of \<open>double\<close> is the machine's and enters as a record of its operations.
\<close>

section \<open>Values\<close>

datatype 'f munx_value =
  RtNull | RtI64 u64 | RtF64 'f | RtBool bool | RtChar byte | RtString string | RtOther nat

datatype 'a outcome = Returns 'a | Aborts string | Undefined

fun bind_outcome :: "'a outcome \<Rightarrow> ('a \<Rightarrow> 'b outcome) \<Rightarrow> 'b outcome" where
  "bind_outcome (Returns x) f = f x"
| "bind_outcome (Aborts m) f = Aborts m"
| "bind_outcome Undefined f = Undefined"

record 'f float_ops =
  f_add :: "'f \<Rightarrow> 'f \<Rightarrow> 'f"
  f_sub :: "'f \<Rightarrow> 'f \<Rightarrow> 'f"
  f_mul :: "'f \<Rightarrow> 'f \<Rightarrow> 'f"
  f_div :: "'f \<Rightarrow> 'f \<Rightarrow> 'f"
  f_neg :: "'f \<Rightarrow> 'f"
  f_eq :: "'f \<Rightarrow> 'f \<Rightarrow> bool"
  f_lt :: "'f \<Rightarrow> 'f \<Rightarrow> bool"
  f_le :: "'f \<Rightarrow> 'f \<Rightarrow> bool"
  f_of_i64 :: "u64 \<Rightarrow> 'f"
  f_to_i64 :: "'f \<Rightarrow> u64 option"
  f_show :: "'f \<Rightarrow> string"

text \<open>A string value's buffer ends at its first NUL for every operation that reads it.\<close>

definition c_str :: "string \<Rightarrow> string" where
  "c_str x = takeWhile (\<lambda>c. c \<noteq> CHR 0x00) x"

definition munx_string_n :: "string \<Rightarrow> 'f munx_value" where
  "munx_string_n x = RtString x"

definition munx_string :: "string \<Rightarrow> 'f munx_value" where
  "munx_string x = munx_string_n (c_str x)"

fun is_f64 :: "'f munx_value \<Rightarrow> bool" where
  "is_f64 (RtF64 _) = True"
| "is_f64 _ = False"

fun is_num :: "'f munx_value \<Rightarrow> bool" where
  "is_num (RtI64 _) = True"
| "is_num (RtF64 _) = True"
| "is_num (RtBool _) = True"
| "is_num (RtChar _) = True"
| "is_num _ = False"

fun as_f64 :: "'f float_ops \<Rightarrow> 'f munx_value \<Rightarrow> 'f outcome" where
  "as_f64 fp (RtI64 n) = Returns (f_of_i64 fp n)"
| "as_f64 fp (RtF64 x) = Returns x"
| "as_f64 fp (RtBool b) = Returns (f_of_i64 fp (if b then 1 else 0))"
| "as_f64 fp (RtChar c) = Returns (f_of_i64 fp (ucast c))"
| "as_f64 fp _ = Aborts ''expected number''"

fun munx_as_i64 :: "'f float_ops \<Rightarrow> 'f munx_value \<Rightarrow> u64 outcome" where
  "munx_as_i64 fp (RtI64 n) = Returns n"
| "munx_as_i64 fp (RtF64 x) = (case f_to_i64 fp x of Some n \<Rightarrow> Returns n | None \<Rightarrow> Undefined)"
| "munx_as_i64 fp (RtBool b) = Returns (if b then 1 else 0)"
| "munx_as_i64 fp (RtChar c) = Returns (ucast c)"
| "munx_as_i64 fp _ = Aborts ''expected integer''"

fun munx_truthy :: "'f float_ops \<Rightarrow> 'f munx_value \<Rightarrow> bool" where
  "munx_truthy fp RtNull = False"
| "munx_truthy fp (RtBool b) = b"
| "munx_truthy fp (RtI64 n) = (n \<noteq> 0)"
| "munx_truthy fp (RtF64 x) = (\<not> f_eq fp x (f_of_i64 fp 0))"
| "munx_truthy fp (RtChar c) = (c \<noteq> 0)"
| "munx_truthy fp (RtString x) = (c_str x \<noteq> [])"
| "munx_truthy fp (RtOther t) = True"

section \<open>Arithmetic\<close>

text \<open>The string form of an operand of a concatenation.\<close>

fun concat_operand :: "'f munx_value \<Rightarrow> string outcome" where
  "concat_operand (RtString x) = Returns (c_str x)"
| "concat_operand (RtI64 n) = Returns (to_string (sint n))"
| "concat_operand _ = Aborts ''string concat type''"

fun is_string :: "'f munx_value \<Rightarrow> bool" where
  "is_string (RtString _) = True"
| "is_string _ = False"

definition int_op :: "(int \<Rightarrow> int \<Rightarrow> int) \<Rightarrow> u64 \<Rightarrow> u64 \<Rightarrow> u64 outcome" where
  "int_op f a b = (if in_int64 (f (sint a) (sint b)) then Returns (word_of_int (f (sint a) (sint b))) else Undefined)"

text \<open>
  The common shape of the arithmetic operations: on doubles when an operand is one, on integers
  otherwise. C does not fix in which order the two operands are converted; both orders abort with the
  same message.
\<close>

definition arith ::
  "'f float_ops \<Rightarrow> ('f \<Rightarrow> 'f \<Rightarrow> 'f munx_value outcome) \<Rightarrow> (u64 \<Rightarrow> u64 \<Rightarrow> 'f munx_value outcome) \<Rightarrow>
   'f munx_value \<Rightarrow> 'f munx_value \<Rightarrow> 'f munx_value outcome" where
  "arith fp on_f64 on_i64 a b =
     (if is_f64 a \<or> is_f64 b
      then bind_outcome (as_f64 fp a) (\<lambda>x. bind_outcome (as_f64 fp b) (on_f64 x))
      else bind_outcome (munx_as_i64 fp a) (\<lambda>m. bind_outcome (munx_as_i64 fp b) (on_i64 m)))"

definition ret_i64 :: "u64 outcome \<Rightarrow> 'f munx_value outcome" where
  "ret_i64 r = bind_outcome r (\<lambda>n. Returns (RtI64 n))"

definition munx_add :: "'f float_ops \<Rightarrow> 'f munx_value \<Rightarrow> 'f munx_value \<Rightarrow> 'f munx_value outcome" where
  "munx_add fp a b =
     (if is_string a \<or> is_string b
      then bind_outcome (concat_operand a) (\<lambda>x. bind_outcome (concat_operand b) (\<lambda>y. Returns (RtString (x @ y))))
      else arith fp (\<lambda>x y. Returns (RtF64 (f_add fp x y))) (\<lambda>m n. ret_i64 (int_op (+) m n)) a b)"

definition munx_sub :: "'f float_ops \<Rightarrow> 'f munx_value \<Rightarrow> 'f munx_value \<Rightarrow> 'f munx_value outcome" where
  "munx_sub fp = arith fp (\<lambda>x y. Returns (RtF64 (f_sub fp x y))) (\<lambda>m n. ret_i64 (int_op (-) m n))"

definition munx_mul :: "'f float_ops \<Rightarrow> 'f munx_value \<Rightarrow> 'f munx_value \<Rightarrow> 'f munx_value outcome" where
  "munx_mul fp = arith fp (\<lambda>x y. Returns (RtF64 (f_mul fp x y))) (\<lambda>m n. ret_i64 (int_op (*) m n))"

text \<open>Division converts the divisor first and aborts on zero; the smallest integer over -1 is undefined.\<close>

definition munx_div :: "'f float_ops \<Rightarrow> 'f munx_value \<Rightarrow> 'f munx_value \<Rightarrow> 'f munx_value outcome" where
  "munx_div fp a b =
     (if is_f64 a \<or> is_f64 b
      then bind_outcome (as_f64 fp b) (\<lambda>d.
        if f_eq fp d (f_of_i64 fp 0) then Aborts ''division by zero''
        else bind_outcome (as_f64 fp a) (\<lambda>x. Returns (RtF64 (f_div fp x d))))
      else bind_outcome (munx_as_i64 fp b) (\<lambda>d.
        if d = 0 then Aborts ''division by zero''
        else bind_outcome (munx_as_i64 fp a) (\<lambda>n.
          if div_defined n d then Returns (RtI64 (int_div n d)) else Undefined)))"

definition munx_mod :: "'f float_ops \<Rightarrow> 'f munx_value \<Rightarrow> 'f munx_value \<Rightarrow> 'f munx_value outcome" where
  "munx_mod fp a b =
     bind_outcome (munx_as_i64 fp b) (\<lambda>d.
       if d = 0 then Aborts ''modulo by zero''
       else bind_outcome (munx_as_i64 fp a) (\<lambda>n.
         if div_defined n d then Returns (RtI64 (int_mod n d)) else Undefined))"

definition munx_neg :: "'f float_ops \<Rightarrow> 'f munx_value \<Rightarrow> 'f munx_value outcome" where
  "munx_neg fp a =
     (case a of RtF64 x \<Rightarrow> Returns (RtF64 (f_neg fp x))
      | _ \<Rightarrow> bind_outcome (munx_as_i64 fp a) (\<lambda>n. ret_i64 (int_op (-) 0 n)))"

definition munx_not :: "'f float_ops \<Rightarrow> 'f munx_value \<Rightarrow> 'f munx_value outcome" where
  "munx_not fp a = Returns (RtBool (\<not> munx_truthy fp a))"

section \<open>Comparison\<close>

definition munx_eq :: "'f float_ops \<Rightarrow> 'f munx_value \<Rightarrow> 'f munx_value \<Rightarrow> 'f munx_value outcome" where
  "munx_eq fp a b =
     (case (a, b) of
        (RtString x, RtString y) \<Rightarrow> Returns (RtBool (c_str x = c_str y))
      | _ \<Rightarrow>
          if is_num a \<and> is_num b
          then arith fp (\<lambda>x y. Returns (RtBool (f_eq fp x y))) (\<lambda>m n. Returns (RtBool (m = n))) a b
          else Returns (RtBool (a = RtNull \<and> b = RtNull)))"

definition munx_ne :: "'f float_ops \<Rightarrow> 'f munx_value \<Rightarrow> 'f munx_value \<Rightarrow> 'f munx_value outcome" where
  "munx_ne fp a b = bind_outcome (munx_eq fp a b) (\<lambda>v. Returns (RtBool (\<not> munx_truthy fp v)))"

definition munx_lt :: "'f float_ops \<Rightarrow> 'f munx_value \<Rightarrow> 'f munx_value \<Rightarrow> 'f munx_value outcome" where
  "munx_lt fp = arith fp (\<lambda>x y. Returns (RtBool (f_lt fp x y))) (\<lambda>m n. Returns (RtBool (sint m < sint n)))"

definition munx_gt :: "'f float_ops \<Rightarrow> 'f munx_value \<Rightarrow> 'f munx_value \<Rightarrow> 'f munx_value outcome" where
  "munx_gt fp = arith fp (\<lambda>x y. Returns (RtBool (f_lt fp y x))) (\<lambda>m n. Returns (RtBool (sint n < sint m)))"

definition munx_le :: "'f float_ops \<Rightarrow> 'f munx_value \<Rightarrow> 'f munx_value \<Rightarrow> 'f munx_value outcome" where
  "munx_le fp = arith fp (\<lambda>x y. Returns (RtBool (f_le fp x y))) (\<lambda>m n. Returns (RtBool (sint m \<le> sint n)))"

definition munx_ge :: "'f float_ops \<Rightarrow> 'f munx_value \<Rightarrow> 'f munx_value \<Rightarrow> 'f munx_value outcome" where
  "munx_ge fp = arith fp (\<lambda>x y. Returns (RtBool (f_le fp y x))) (\<lambda>m n. Returns (RtBool (sint n \<le> sint m)))"

section \<open>Output and arguments\<close>

text \<open>What \<open>munx_print\<close> writes to the standard output.\<close>

fun munx_print :: "'f float_ops \<Rightarrow> 'f munx_value \<Rightarrow> string" where
  "munx_print fp RtNull = ''null''"
| "munx_print fp (RtI64 n) = to_string (sint n)"
| "munx_print fp (RtF64 x) = f_show fp x"
| "munx_print fp (RtBool b) = (if b then ''true'' else ''false'')"
| "munx_print fp (RtChar c) = [char_of_byte c]"
| "munx_print fp (RtString x) = c_str x"
| "munx_print fp (RtOther t) = ''<value>''"

definition munx_println :: string where
  "munx_println = [CHR 0x0A]"

text \<open>The program's arguments, as \<open>munx_set_argv\<close> left them.\<close>

definition munx_argv_len :: "string list \<Rightarrow> 'f munx_value" where
  "munx_argv_len argv = RtI64 (word_of_nat (length argv))"

definition munx_argv_get :: "'f float_ops \<Rightarrow> string list \<Rightarrow> 'f munx_value \<Rightarrow> 'f munx_value outcome" where
  "munx_argv_get fp argv index =
     bind_outcome (munx_as_i64 fp index) (\<lambda>i.
       if sint i < 0 \<or> int (length argv) \<le> sint i then Aborts ''argv index out of range''
       else Returns (munx_string (argv ! unat i)))"

end
