(* ===== verification/Mir.thy ===== *)
theory Mir
  imports Native_Runtime
begin

text \<open>
  The intermediate representation of the native compiler (\<open>native/mir.hpp\<close>) and its optimizer
  (\<open>native/mir_optimizer.hpp\<close>): constant folding, jump threading and dead code elimination. An
  instruction is its own value number: argument \<open>n\<close> is the value of the \<open>n\<close>-th instruction of the
  function. The 32-bit ids are natural numbers, with the casts from \<open>size_t\<close> written out. A folded
  operation that overflows is undefined behaviour of the compiler itself.
\<close>

section \<open>Instructions\<close>

datatype mir_type = TyI64 | TyF64 | TyB1 | TyValue | TyVoid

datatype (plugins only: code) mir_opcode =
  Op_const_i64 | Op_const_f64 | Op_const_bool | Op_const_null | Op_const_str
| Op_load_local | Op_store_local
| Op_add | Op_sub | Op_mul | Op_div | Op_mod | Op_neg | Op_not
| Op_eq | Op_ne | Op_lt | Op_gt | Op_le | Op_ge
| Op_print | Op_println | Op_call | Op_ret | Op_br | Op_cbr | Op_label

record instr =
  in_op :: mir_opcode
  in_ty :: mir_type
  in_i64 :: u64
  in_f64 :: u64
  in_bool :: bool
  in_local :: nat
  in_str :: nat
  in_target :: nat
  in_target_false :: nat
  in_hint :: nat
  in_callee :: string
  in_args :: "nat list"
  in_result :: u32

definition blank_instr :: instr where
  "blank_instr =
     \<lparr>in_op = Op_const_null, in_ty = TyValue, in_i64 = 0, in_f64 = 0, in_bool = False, in_local = 0,
      in_str = 0, in_target = 0, in_target_false = 0, in_hint = 0, in_callee = [], in_args = [],
      in_result = - 1\<rparr>"

record mir_function =
  fn_name :: string
  fn_is_entry_init :: bool
  fn_param_count :: nat
  fn_local_count :: nat
  fn_local_names :: "string list"
  fn_code :: "instr list"

record mir_module =
  mod_entry_package :: string
  mod_strings :: "string list"
  mod_functions :: "mir_function list"

definition u32_of :: "nat \<Rightarrow> nat" where
  "u32_of n = n mod 2 ^ 32"

lemma u32_of_code [code]: "u32_of n = nat (int n mod 4294967296)"
  by (simp add: u32_of_def nat_mod_distrib)

text \<open>\<open>module::intern\<close>: the index of a string, added at the end when it is new.\<close>

fun string_index :: "string list \<Rightarrow> string \<Rightarrow> nat \<Rightarrow> nat option" where
  "string_index [] x i = None"
| "string_index (y # ys) x i = (if y = x then Some i else string_index ys x (i + 1))"

definition intern :: "mir_module \<Rightarrow> string \<Rightarrow> nat \<times> mir_module" where
  "intern m x =
     (case string_index (mod_strings m) x 0 of
        Some i \<Rightarrow> (i, m)
      | None \<Rightarrow> (u32_of (length (mod_strings m)), m\<lparr>mod_strings := mod_strings m @ [x]\<rparr>))"

section \<open>Constant folding\<close>

definition is_const :: "instr \<Rightarrow> bool" where
  "is_const i \<longleftrightarrow> in_op i \<in> {Op_const_i64, Op_const_f64, Op_const_bool, Op_const_null, Op_const_str}"

definition const_i64 :: "u64 \<Rightarrow> instr" where
  "const_i64 n = blank_instr\<lparr>in_op := Op_const_i64, in_ty := TyValue, in_i64 := n\<rparr>"

definition const_bool :: "bool \<Rightarrow> instr" where
  "const_bool b = blank_instr\<lparr>in_op := Op_const_bool, in_ty := TyValue, in_bool := b\<rparr>"

definition fold_i64 :: "u64 outcome \<Rightarrow> instr option outcome" where
  "fold_i64 r = bind_outcome r (\<lambda>n. Returns (Some (const_i64 n)))"

text \<open>
  \<open>try_fold_binary\<close>: \<open>Returns None\<close> when it declines. The result is a fresh instruction with opcode,
  type and payload set.
\<close>

definition try_fold_binary :: "mir_opcode \<Rightarrow> instr \<Rightarrow> instr \<Rightarrow> instr option outcome" where
  "try_fold_binary op l r =
     (if in_op l = Op_const_i64 \<and> in_op r = Op_const_i64 then
        (let a = in_i64 l; b = in_i64 r in
         case op of
           Op_add \<Rightarrow> fold_i64 (int_op (+) a b)
         | Op_sub \<Rightarrow> fold_i64 (int_op (-) a b)
         | Op_mul \<Rightarrow> fold_i64 (int_op (*) a b)
         | Op_div \<Rightarrow> (if b = 0 then Returns None
                     else if div_defined a b then Returns (Some (const_i64 (int_div a b))) else Undefined)
         | Op_mod \<Rightarrow> (if b = 0 then Returns None
                     else if div_defined a b then Returns (Some (const_i64 (int_mod a b))) else Undefined)
         | Op_eq \<Rightarrow> Returns (Some (const_bool (a = b)))
         | Op_ne \<Rightarrow> Returns (Some (const_bool (a \<noteq> b)))
         | Op_lt \<Rightarrow> Returns (Some (const_bool (sint a < sint b)))
         | Op_gt \<Rightarrow> Returns (Some (const_bool (sint b < sint a)))
         | Op_le \<Rightarrow> Returns (Some (const_bool (sint a \<le> sint b)))
         | Op_ge \<Rightarrow> Returns (Some (const_bool (sint b \<le> sint a)))
         | _ \<Rightarrow> Returns None)
      else if in_op l = Op_const_bool \<and> in_op r = Op_const_bool \<and> (op = Op_eq \<or> op = Op_ne) then
        Returns (Some (const_bool (if op = Op_eq then in_bool l = in_bool r else in_bool l \<noteq> in_bool r)))
      else Returns None)"

text \<open>The argument \<open>k\<close> of an instruction with \<open>n\<close> arguments, when it is the number of an instruction.\<close>

definition arg_instr :: "instr list \<Rightarrow> instr \<Rightarrow> nat \<Rightarrow> nat \<Rightarrow> instr option" where
  "arg_instr code i n k =
     (if length (in_args i) = n \<and> in_args i ! k < length code then Some (code ! (in_args i ! k)) else None)"

definition binary_opcodes :: "mir_opcode list" where
  "binary_opcodes = [Op_add, Op_sub, Op_mul, Op_div, Op_mod, Op_eq, Op_ne, Op_lt, Op_gt, Op_le, Op_ge]"

text \<open>The body of the loop of \<open>const_fold_function\<close>: what instruction \<open>k\<close> becomes.\<close>

definition fold_instr :: "instr list \<Rightarrow> nat \<Rightarrow> instr outcome" where
  "fold_instr code k =
     (let i = code ! k in
      if in_op i = Op_neg then
        (case arg_instr code i 1 0 of
           Some a \<Rightarrow>
             if in_op a = Op_const_i64
             then bind_outcome (int_op (-) 0 (in_i64 a)) (\<lambda>n. Returns ((const_i64 n)\<lparr>in_result := word_of_nat k\<rparr>))
             else Returns i
         | None \<Rightarrow> Returns i)
      else if in_op i = Op_not then
        (case arg_instr code i 1 0 of
           Some a \<Rightarrow>
             Returns (if in_op a = Op_const_bool then (const_bool (\<not> in_bool a))\<lparr>in_result := word_of_nat k\<rparr> else i)
         | None \<Rightarrow> Returns i)
      else if in_op i \<in> set binary_opcodes then
        (case (arg_instr code i 2 0, arg_instr code i 2 1) of
           (Some l, Some r) \<Rightarrow>
             bind_outcome (try_fold_binary (in_op i) l r) (\<lambda>folded.
               case folded of Some f \<Rightarrow> Returns (f\<lparr>in_result := word_of_nat k\<rparr>) | None \<Rightarrow> Returns i)
         | _ \<Rightarrow> Returns i)
      else if in_op i = Op_cbr then
        (case arg_instr code i 1 0 of
           Some a \<Rightarrow>
             Returns (if in_op a = Op_const_bool
               then blank_instr\<lparr>in_op := Op_br,
                      in_target := (if in_bool a then in_target i else in_target_false i),
                      in_result := word_of_nat k\<rparr>
               else i)
         | None \<Rightarrow> Returns i)
      else Returns i)"

fun const_fold_loop :: "nat list \<Rightarrow> instr list \<Rightarrow> instr list outcome" where
  "const_fold_loop [] code = Returns code"
| "const_fold_loop (k # ks) code =
     bind_outcome (fold_instr code k) (\<lambda>i. const_fold_loop ks (code[k := i]))"

definition const_fold_function :: "instr list \<Rightarrow> instr list outcome" where
  "const_fold_function code = const_fold_loop [0..<length code] code"

section \<open>Jump threading\<close>

text \<open>The position of each label; a later label replaces an earlier one with the same id.\<close>

definition block_at :: "instr list \<Rightarrow> nat \<Rightarrow> nat option" where
  "block_at code =
     fold (\<lambda>i m. if in_op (code ! i) = Op_label then m(in_target (code ! i) \<mapsto> i) else m)
       [0..<length code] Map.empty"

function skip_labels :: "instr list \<Rightarrow> nat \<Rightarrow> nat" where
  "skip_labels code i =
     (if i < length code \<and> in_op (code ! i) = Op_label then skip_labels code (i + 1) else i)"
  by pat_completeness auto

termination skip_labels
  by (relation "measure (\<lambda>(code, i). length code - i)") auto

declare skip_labels.simps [simp del]

text \<open>\<open>resolve\<close>: follow blocks that only jump on, at most as often as the guard allows (32).\<close>

fun resolve :: "nat \<Rightarrow> instr list \<Rightarrow> (nat \<Rightarrow> nat option) \<Rightarrow> nat \<Rightarrow> nat" where
  "resolve 0 code blocks block = block"
| "resolve (Suc guard) code blocks block =
     (case blocks block of
        None \<Rightarrow> block
      | Some at \<Rightarrow>
          (let i = skip_labels code (at + 1)
           in if i < length code \<and> in_op (code ! i) = Op_br
              then resolve guard code blocks (in_target (code ! i)) else block))"

definition resolve_guard :: nat where "resolve_guard = 32"

text \<open>The loop rewrites the jumps in place: a later jump is resolved in code that is already threaded.\<close>

definition thread_instr :: "instr list \<Rightarrow> (nat \<Rightarrow> nat option) \<Rightarrow> instr \<Rightarrow> instr" where
  "thread_instr code blocks i =
     (if in_op i = Op_br then i\<lparr>in_target := resolve resolve_guard code blocks (in_target i)\<rparr>
      else if in_op i = Op_cbr then
        i\<lparr>in_target := resolve resolve_guard code blocks (in_target i),
          in_target_false := resolve resolve_guard code blocks (in_target_false i)\<rparr>
      else i)"

fun jump_thread_loop :: "(nat \<Rightarrow> nat option) \<Rightarrow> nat list \<Rightarrow> instr list \<Rightarrow> instr list" where
  "jump_thread_loop blocks [] code = code"
| "jump_thread_loop blocks (k # ks) code =
     jump_thread_loop blocks ks (code[k := thread_instr code blocks (code ! k)])"

definition jump_thread_function :: "instr list \<Rightarrow> instr list" where
  "jump_thread_function code = jump_thread_loop (block_at code) [0..<length code] code"

section \<open>Dead code\<close>

definition has_side_effect :: "mir_opcode \<Rightarrow> bool" where
  "has_side_effect op \<longleftrightarrow>
     op \<in> {Op_store_local, Op_print, Op_println, Op_call, Op_ret, Op_br, Op_cbr, Op_label}"

definition roots :: "instr list \<Rightarrow> nat set" where
  "roots code = (\<Union>i\<in>set code. if has_side_effect (in_op i) \<or> in_op i = Op_load_local then set (in_args i) else {})"

text \<open>One round of the marking loop: the arguments of what is marked.\<close>

definition mark_round :: "instr list \<Rightarrow> nat set \<Rightarrow> nat set" where
  "mark_round code used = used \<union> (\<Union>n\<in>used. if n < length code then set (in_args (code ! n)) else {})"

function mark_used :: "instr list \<Rightarrow> nat set \<Rightarrow> nat set" where
  "mark_used code used =
     (if mark_round code used = used then used else mark_used code (mark_round code used))"
  by pat_completeness auto

definition all_args :: "instr list \<Rightarrow> nat set" where
  "all_args code = (\<Union>i\<in>set code. set (in_args i))"

lemma mark_round_args: "mark_round code used \<subseteq> used \<union> all_args code"
  by (auto simp: mark_round_def all_args_def split: if_splits)

termination mark_used
proof (relation "measure (\<lambda>(code, used). card (all_args code - used))", goal_cases)
  case (2 code used)
  have "used \<subset> mark_round code used"
    using 2 by (auto simp: mark_round_def)
  then have "all_args code - mark_round code used \<subset> all_args code - used"
    using mark_round_args [of code used] by blast
  moreover have "finite (all_args code - used)"
    by (simp add: all_args_def)
  ultimately show ?case
    by (simp add: psubset_card_mono)
qed simp

declare mark_used.simps [simp del]

definition dead_instr :: "nat set \<Rightarrow> nat \<Rightarrow> instr \<Rightarrow> bool" where
  "dead_instr used k i \<longleftrightarrow>
     \<not> has_side_effect (in_op i) \<and> \<not> is_const i \<and> u32_of k \<notin> used \<and> in_op i \<noteq> Op_load_local"

definition clear_instr :: "instr \<Rightarrow> instr" where
  "clear_instr i = blank_instr\<lparr>in_op := Op_const_null, in_ty := TyValue, in_result := in_result i\<rparr>"

definition dce_function :: "instr list \<Rightarrow> instr list" where
  "dce_function code =
     (let used = mark_used code (roots code)
      in map (\<lambda>k. if dead_instr used k (code ! k) then clear_instr (code ! k) else code ! k) [0..<length code])"

section \<open>The optimizer\<close>

definition optimize_function :: "mir_function \<Rightarrow> mir_function outcome" where
  "optimize_function fn =
     bind_outcome (const_fold_function (fn_code fn)) (\<lambda>code.
       Returns (fn\<lparr>fn_code := dce_function (jump_thread_function code)\<rparr>))"

fun optimize_functions :: "mir_function list \<Rightarrow> mir_function list outcome" where
  "optimize_functions [] = Returns []"
| "optimize_functions (fn # fns) =
     bind_outcome (optimize_function fn) (\<lambda>fn'.
       bind_outcome (optimize_functions fns) (\<lambda>fns'. Returns (fn' # fns')))"

definition optimize_mir :: "mir_module \<Rightarrow> mir_module outcome" where
  "optimize_mir m =
     bind_outcome (optimize_functions (mod_functions m)) (\<lambda>fns. Returns (m\<lparr>mod_functions := fns\<rparr>))"

end
