(* ===== verification/Mir_Semantics.thy ===== *)
theory Mir_Semantics
  imports Mir
begin

text \<open>
  What a function of the intermediate representation means, as the code emitted for it executes
  (\<open>native/custom/c_emitter.hpp\<close>): values and locals start as null, each instruction assigns its own
  value, labels do nothing, jumps go to the instruction that carries the label. The operations are
  the runtime's. Calls and output act on a world that is a parameter.
\<close>

type_synonym rt_value = "u64 munx_value"

record 'w mir_env =
  env_fp :: "u64 float_ops"
  env_call :: "string \<Rightarrow> rt_value list \<Rightarrow> 'w \<Rightarrow> (rt_value \<times> 'w) outcome"
  env_print :: "string \<Rightarrow> 'w \<Rightarrow> 'w"
  env_string :: "nat \<Rightarrow> string"
  env_init :: bool

record 'w mir_state =
  st_pc :: nat
  st_vals :: "nat \<Rightarrow> rt_value"
  st_locals :: "nat \<Rightarrow> rt_value"
  st_world :: 'w

text \<open>One step either goes on in a state or ends the function.\<close>

datatype 'w step = Goes "'w mir_state" | Ends "(rt_value \<times> 'w) outcome"

definition start_state :: "(nat \<Rightarrow> rt_value) \<Rightarrow> 'w \<Rightarrow> 'w mir_state" where
  "start_state locals w = \<lparr>st_pc = 0, st_vals = (\<lambda>_. RtNull), st_locals = locals, st_world = w\<rparr>"

definition const_value :: "'w mir_env \<Rightarrow> instr \<Rightarrow> rt_value" where
  "const_value env i =
     (if in_op i = Op_const_i64 then RtI64 (in_i64 i)
      else if in_op i = Op_const_f64 then RtF64 (in_f64 i)
      else if in_op i = Op_const_bool then RtBool (in_bool i)
      else if in_op i = Op_const_str then munx_string (env_string env (in_str i))
      else RtNull)"

definition binary_value :: "'w mir_env \<Rightarrow> mir_opcode \<Rightarrow> rt_value \<Rightarrow> rt_value \<Rightarrow> rt_value outcome" where
  "binary_value env op a b =
     (let fp = env_fp env in
      case op of
        Op_add \<Rightarrow> munx_add fp a b | Op_sub \<Rightarrow> munx_sub fp a b | Op_mul \<Rightarrow> munx_mul fp a b
      | Op_div \<Rightarrow> munx_div fp a b | Op_mod \<Rightarrow> munx_mod fp a b
      | Op_eq \<Rightarrow> munx_eq fp a b | Op_ne \<Rightarrow> munx_ne fp a b | Op_lt \<Rightarrow> munx_lt fp a b
      | Op_gt \<Rightarrow> munx_gt fp a b | Op_le \<Rightarrow> munx_le fp a b | Op_ge \<Rightarrow> munx_ge fp a b
      | _ \<Rightarrow> Undefined)"

text \<open>The value of an instruction without effect on anything else; \<open>vs\<close> are its arguments.\<close>

definition pure_value :: "'w mir_env \<Rightarrow> instr \<Rightarrow> rt_value list \<Rightarrow> rt_value outcome" where
  "pure_value env i vs =
     (if is_const i then Returns (const_value env i)
      else if in_op i \<in> set binary_opcodes then
        (case vs of a # b # _ \<Rightarrow> binary_value env (in_op i) a b | _ \<Rightarrow> Undefined)
      else
        (case vs of
           a # _ \<Rightarrow> if in_op i = Op_neg then munx_neg (env_fp env) a else munx_not (env_fp env) a
         | [] \<Rightarrow> Undefined))"

definition next_state :: "'w mir_state \<Rightarrow> 'w mir_state" where
  "next_state s = s\<lparr>st_pc := st_pc s + 1\<rparr>"

definition set_value :: "rt_value \<Rightarrow> 'w mir_state \<Rightarrow> 'w mir_state" where
  "set_value v s = s\<lparr>st_vals := (st_vals s)(st_pc s := v), st_pc := st_pc s + 1\<rparr>"

text \<open>A jump to a label that does not exist is refused by every code generator.\<close>

definition jump_to :: "instr list \<Rightarrow> nat \<Rightarrow> 'w mir_state \<Rightarrow> 'w step" where
  "jump_to code block s =
     (case block_at code block of None \<Rightarrow> Ends Undefined | Some i \<Rightarrow> Goes (s\<lparr>st_pc := i\<rparr>))"

text \<open>Calls whose result is dropped by the emitted code.\<close>

definition call_is_void :: "instr \<Rightarrow> bool" where
  "call_is_void i \<longleftrightarrow>
     in_callee i \<noteq> ''munx_argv_len'' \<and> in_callee i \<noteq> ''munx_argv_get'' \<and>
     (in_ty i = TyVoid \<or>
      in_callee i \<in> {''munx_fail'', ''munx_sleep'', ''munx_pipe_insert'', ''munx_channel_insert''})"

definition exec_instr :: "'w mir_env \<Rightarrow> instr list \<Rightarrow> instr \<Rightarrow> 'w mir_state \<Rightarrow> 'w step" where
  "exec_instr env code i s =
     (let vs = map (st_vals s) (in_args i) in
      if in_op i = Op_label then Goes (next_state s)
      else if in_op i = Op_load_local then Goes (set_value (st_locals s (in_local i)) s)
      else if in_op i = Op_store_local then
        (case vs of [] \<Rightarrow> Ends Undefined
         | v # _ \<Rightarrow> Goes (next_state (s\<lparr>st_locals := (st_locals s)(in_local i := v)\<rparr>)))
      else if in_op i = Op_print then
        (case vs of [] \<Rightarrow> Ends Undefined
         | v # _ \<Rightarrow> Goes (next_state (s\<lparr>st_world := env_print env (munx_print (env_fp env) v) (st_world s)\<rparr>)))
      else if in_op i = Op_println then
        Goes (next_state (s\<lparr>st_world := env_print env munx_println (st_world s)\<rparr>))
      else if in_op i = Op_call then
        (case env_call env (in_callee i) vs (st_world s) of
           Returns (v, w) \<Rightarrow>
             Goes (if call_is_void i then next_state (s\<lparr>st_world := w\<rparr>) else set_value v (s\<lparr>st_world := w\<rparr>))
         | Aborts m \<Rightarrow> Ends (Aborts m)
         | Undefined \<Rightarrow> Ends Undefined)
      else if in_op i = Op_ret then
        Ends (Returns (if env_init env \<or> in_ty i = TyVoid \<or> vs = [] then RtNull else hd vs, st_world s))
      else if in_op i = Op_br then jump_to code (in_target i) s
      else if in_op i = Op_cbr then
        (case vs of [] \<Rightarrow> Ends Undefined
         | v # _ \<Rightarrow> jump_to code (if munx_truthy (env_fp env) v then in_target i else in_target_false i) s)
      else
        (case pure_value env i vs of
           Returns v \<Rightarrow> Goes (set_value v s)
         | Aborts m \<Rightarrow> Ends (Aborts m)
         | Undefined \<Rightarrow> Ends Undefined))"

definition mir_step :: "'w mir_env \<Rightarrow> instr list \<Rightarrow> 'w mir_state \<Rightarrow> 'w step" where
  "mir_step env code s =
     (if st_pc s < length code then exec_instr env code (code ! st_pc s) s
      else Ends (Returns (RtNull, st_world s)))"

text \<open>A run with a bound on its steps; \<open>None\<close> is a run that has not ended by then.\<close>

fun mir_run :: "nat \<Rightarrow> 'w mir_env \<Rightarrow> instr list \<Rightarrow> 'w mir_state \<Rightarrow> (rt_value \<times> 'w) outcome option" where
  "mir_run 0 env code s = None"
| "mir_run (Suc n) env code s =
     (case mir_step env code s of Goes s' \<Rightarrow> mir_run n env code s' | Ends r \<Rightarrow> Some r)"

definition ends_with :: "'w mir_env \<Rightarrow> instr list \<Rightarrow> 'w mir_state \<Rightarrow> (rt_value \<times> 'w) outcome \<Rightarrow> bool" where
  "ends_with env code s r \<longleftrightarrow> (\<exists>n. mir_run n env code s = Some r)"

text \<open>
  \<open>refines env old new\<close>: whatever \<open>old\<close> returns, \<open>new\<close> returns, with the same effect on the world.
\<close>

definition refines :: "'w mir_env \<Rightarrow> instr list \<Rightarrow> instr list \<Rightarrow> bool" where
  "refines env old new \<longleftrightarrow>
     (\<forall>locals w r. ends_with env old (start_state locals w) (Returns r) \<longrightarrow>
        ends_with env new (start_state locals w) (Returns r))"

text \<open>
  Well-formed code, as the builder produces it: every argument is the value of an earlier instruction
  with no label in between, so it has been computed on the way.
\<close>

definition reaches :: "instr list \<Rightarrow> nat \<Rightarrow> nat \<Rightarrow> bool" where
  "reaches code a k \<longleftrightarrow> a < k \<and> (\<forall>j. a < j \<and> j < k \<longrightarrow> in_op (code ! j) \<noteq> Op_label)"

definition wf_code :: "instr list \<Rightarrow> bool" where
  "wf_code code \<longleftrightarrow> length code < 2 ^ 32 \<and>
     (\<forall>k<length code. \<forall>a\<in>set (in_args (code ! k)). reaches code a k)"

text \<open>An optimization pass: it keeps code well formed and refines it.\<close>

locale mir_pass =
  fixes pass :: "instr list \<Rightarrow> instr list outcome"
  assumes pass_wf: "wf_code code \<Longrightarrow> pass code = Returns code' \<Longrightarrow> wf_code code'"
    and pass_refines: "wf_code code \<Longrightarrow> pass code = Returns code' \<Longrightarrow> refines (env :: 'w mir_env) code code'"
begin

lemma after:
  assumes "refines (env :: 'w mir_env) start code" "wf_code code" "pass code = Returns code'"
  shows "refines env start code' \<and> wf_code code'"
  using assms pass_wf pass_refines [of code code' env] by (auto simp: refines_def)

end

lemma refines_refl [simp]: "refines env code code"
  by (simp add: refines_def)

lemma refines_trans: "refines env a b \<Longrightarrow> refines env b c \<Longrightarrow> refines env a c"
  by (simp add: refines_def)

lemma ends_with_step:
  "ends_with env code s r \<longleftrightarrow>
    (case mir_step env code s of Goes s' \<Rightarrow> ends_with env code s' r | Ends r' \<Rightarrow> r' = r)"
proof -
  have "(\<exists>n. mir_run n env code s = Some r) \<longleftrightarrow> (\<exists>n. mir_run (Suc n) env code s = Some r)"
    by (metis mir_run.simps(1) not0_implies_Suc option.distinct(1))
  then show ?thesis
    by (auto simp: ends_with_def split: step.split)
qed

text \<open>
  Lockstep: when related states take related steps, runs that return are carried over.
\<close>

lemma lockstep:
  assumes start: "mir_run n env old s = Some (Returns r)" "R s t"
    and goes: "\<And>s t s'. R s t \<Longrightarrow> mir_step env old s = Goes s' \<Longrightarrow>
      \<exists>t'. mir_step env new t = Goes t' \<and> R s' t'"
    and ends: "\<And>s t r. R s t \<Longrightarrow> mir_step env old s = Ends (Returns r) \<Longrightarrow>
      mir_step env new t = Ends (Returns r)"
  shows "ends_with env new t (Returns r)"
  using start
proof (induction n arbitrary: s t)
  case (Suc n)
  show ?case
  proof (cases "mir_step env old s")
    case (Goes s')
    with goes [OF Suc.prems(2)] obtain t' where t': "mir_step env new t = Goes t'" "R s' t'" by blast
    from Suc.IH [OF _ t'(2)] Suc.prems(1) Goes t'(1) show ?thesis
      by (simp add: ends_with_step [of env new t])
  next
    case (Ends q)
    with Suc.prems ends show ?thesis
      by (simp add: ends_with_step [of env new t])
  qed
qed simp

end
