(* ===== verification/Mir_Optimizer.thy ===== *)
theory Mir_Optimizer
  imports Mir_Semantics
begin

text \<open>
  The three optimizations against the meaning of the code, each an instance of the pass interface: a
  function that returns does so with the same value and the same effects after it.
\<close>

section \<open>Replacing one instruction\<close>

text \<open>Code in which the same positions carry the same labels.\<close>

definition same_labels :: "instr list \<Rightarrow> instr list \<Rightarrow> bool" where
  "same_labels code code' \<longleftrightarrow> length code' = length code \<and>
     (\<forall>k<length code. (in_op (code' ! k) = Op_label \<longleftrightarrow> in_op (code ! k) = Op_label) \<and>
        (in_op (code ! k) = Op_label \<longrightarrow> in_target (code' ! k) = in_target (code ! k)))"

lemma same_labels_blocks: "same_labels code code' \<Longrightarrow> block_at code' = block_at code"
  unfolding block_at_def same_labels_def by (rule fold_cong) auto

lemma same_labels_jump: "same_labels code code' \<Longrightarrow> jump_to code' b s = jump_to code b s"
  by (simp add: jump_to_def same_labels_blocks)

lemma same_labels_refl [simp]: "same_labels code code"
  by (simp add: same_labels_def)

lemma same_labels_reaches:
  assumes "same_labels code code'" "k \<le> length code"
  shows "reaches code' a k \<longleftrightarrow> reaches code a k"
  using assms by (auto simp: same_labels_def reaches_def)

lemma same_labels_wf:
  assumes "same_labels code code'" "wf_code code"
    "\<And>k. k < length code \<Longrightarrow> set (in_args (code' ! k)) \<subseteq> set (in_args (code ! k))"
  shows "wf_code code'"
proof -
  have len: "length code' = length code"
    using assms(1) by (simp add: same_labels_def)
  have "reaches code' a k" if "k < length code" "a \<in> set (in_args (code' ! k))" for a k
    using assms(2,3) that same_labels_reaches [OF assms(1), of k a] by (auto simp: wf_code_def)
  with len assms(2) show ?thesis by (simp add: wf_code_def)
qed

lemma same_labels_update:
  assumes "k < length code" "in_op (code ! k) \<noteq> Op_label" "in_op i \<noteq> Op_label"
  shows "same_labels code (code[k := i])"
  using assms by (auto simp: same_labels_def nth_list_update)

lemma exec_same_labels:
  "same_labels code code' \<Longrightarrow> exec_instr env code' i s = exec_instr env code i s"
  by (simp add: exec_instr_def same_labels_jump Let_def cong: if_cong list.case_cong)

definition label_map_ok :: "instr list \<Rightarrow> (nat \<Rightarrow> nat option) \<Rightarrow> bool" where
  "label_map_ok code m \<longleftrightarrow>
     (\<forall>b i. m b = Some i \<longrightarrow> i < length code \<and> in_op (code ! i) = Op_label \<and> in_target (code ! i) = b)"

lemma label_map_ok_fold:
  assumes "\<forall>i\<in>set ks. i < length code" "label_map_ok code m"
  shows "label_map_ok code
    (fold (\<lambda>i m. if in_op (code ! i) = Op_label then m(in_target (code ! i) \<mapsto> i) else m) ks m)"
  using assms
proof (induction ks arbitrary: m)
  case (Cons k ks)
  have "label_map_ok code (m(in_target (code ! k) \<mapsto> k))" if "in_op (code ! k) = Op_label"
    using Cons.prems that unfolding label_map_ok_def by (metis fun_upd_apply list.set_intros(1) option.inject)
  with Cons show ?case by simp
qed simp

lemma block_at_label:
  assumes "block_at code b = Some i"
  shows "i < length code" "in_op (code ! i) = Op_label" "in_target (code ! i) = b"
proof -
  have "label_map_ok code (block_at code)"
    unfolding block_at_def by (rule label_map_ok_fold) (simp_all add: label_map_ok_def)
  with assms show "i < length code" "in_op (code ! i) = Op_label" "in_target (code ! i) = b"
    unfolding label_map_ok_def by blast+
qed

section \<open>Constant folding\<close>

text \<open>
  The constants before the current instruction, back to the last label, have been computed.
\<close>

definition consts_known :: "'w mir_env \<Rightarrow> instr list \<Rightarrow> 'w mir_state \<Rightarrow> bool" where
  "consts_known env code s \<longleftrightarrow>
     (\<forall>a. reaches code a (st_pc s) \<and> a < length code \<and> is_const (code ! a) \<and>
        (st_pc s < length code \<longrightarrow> in_op (code ! st_pc s) \<noteq> Op_label) \<longrightarrow>
        st_vals s a = const_value env (code ! a))"

lemma reaches_Suc:
  "reaches code a (Suc k) \<longleftrightarrow> a = k \<or> reaches code a k \<and> in_op (code ! k) \<noteq> Op_label"
  by (auto simp: reaches_def less_Suc_eq)

lemma jump_to_known:
  "jump_to code b s = Goes s' \<Longrightarrow> consts_known env code s'"
  by (auto simp: jump_to_def consts_known_def dest: block_at_label split: option.splits)

lemma const_not_label: "is_const i \<Longrightarrow> in_op i \<noteq> Op_label"
  by (auto simp: is_const_def)

lemma known_next:
  assumes "consts_known env code s" "\<not> is_const (code ! st_pc s)" "st_vals s' = st_vals s"
    "st_pc s' = Suc (st_pc s)" "st_pc s < length code"
  shows "consts_known env code s'"
  using assms by (auto simp: consts_known_def reaches_Suc)

lemma known_set:
  assumes "consts_known env code s" "is_const (code ! st_pc s) \<longrightarrow> v = const_value env (code ! st_pc s)"
    "st_vals s' = (st_vals s)(st_pc s := v)" "st_pc s' = Suc (st_pc s)" "st_pc s < length code"
  shows "consts_known env code s'"
  using assms by (auto simp: consts_known_def reaches_Suc reaches_def)

lemma exec_const:
  "is_const i \<Longrightarrow> exec_instr env code i s = Goes (set_value (const_value env i) s)"
  by (auto simp: is_const_def exec_instr_def pure_value_def Let_def)

lemma exec_known:
  assumes known: "consts_known env code s" and pc: "st_pc s < length code"
    and step: "exec_instr env code (code ! st_pc s) s = Goes s'"
  shows "consts_known env code s'"
proof (cases "is_const (code ! st_pc s)")
  case True
  with step show ?thesis
    by (intro known_set [OF known _ _ _ pc]) (auto simp: exec_const set_value_def)
next
  case False
  let ?i = "code ! st_pc s"
  consider (jump) "in_op ?i = Op_br \<or> in_op ?i = Op_cbr"
    | (next_) "s' = next_state (s\<lparr>st_locals := st_locals s', st_world := st_world s'\<rparr>)"
    | (set) v where "s' = set_value v (s\<lparr>st_world := st_world s'\<rparr>)"
  proof (cases "exec_instr env code ?i s")
    case (Goes s1)
    with step False have "(in_op ?i = Op_br \<or> in_op ?i = Op_cbr) \<or>
        s' = next_state (s\<lparr>st_locals := st_locals s', st_world := st_world s'\<rparr>) \<or>
        (\<exists>v. s' = set_value v (s\<lparr>st_world := st_world s'\<rparr>))"
      by (auto simp: exec_instr_def Let_def next_state_def set_value_def
          split: if_splits list.splits outcome.splits)
    then show thesis using that by blast
  qed (simp add: step)
  then show ?thesis
  proof cases
    case jump
    with step show ?thesis
      by (auto simp: exec_instr_def Let_def split: list.splits intro: jump_to_known)
  next
    case next_
    have "st_vals s' = st_vals s" "st_pc s' = Suc (st_pc s)"
      by (subst next_, simp add: next_state_def)+
    then show ?thesis using known_next [OF known False _ _ pc] by blast
  next
    case (set v)
    have "st_vals s' = (st_vals s)(st_pc s := v)" "st_pc s' = Suc (st_pc s)"
      by (subst set, simp add: set_value_def)+
    then show ?thesis using known_set [OF known _ _ _ pc] False by blast
  qed
qed

lemma bind_Returns: "bind_outcome x f = Returns y \<longleftrightarrow> (\<exists>z. x = Returns z \<and> f z = Returns y)"
  by (cases x) auto

lemma arg_known:
  assumes wf: "wf_code code" and pc: "k < length code" "st_pc s = k" "in_op (code ! k) \<noteq> Op_label"
    and known: "consts_known env code s"
    and arg: "arg_instr code (code ! k) n j = Some a" "j < n" "is_const a"
  shows "st_vals s (in_args (code ! k) ! j) = const_value env a"
proof -
  let ?x = "in_args (code ! k) ! j"
  have x: "length (in_args (code ! k)) = n" "?x < length code" "a = code ! ?x"
    using arg(1) by (auto simp: arg_instr_def split: if_splits)
  then have "reaches code ?x k"
    using wf pc(1) arg(2) by (auto simp: wf_code_def)
  with known x pc arg(3) show ?thesis
    by (simp add: consts_known_def)
qed

lemma args_1: "arg_instr code i 1 0 = Some a \<Longrightarrow> in_args i = [in_args i ! 0]"
  by (cases "in_args i") (auto simp: arg_instr_def split: if_splits)

lemma args_2: "arg_instr code i 2 0 = Some a \<Longrightarrow> in_args i = [in_args i ! 0, in_args i ! 1]"
  by (cases "in_args i"; cases "tl (in_args i)") (auto simp: arg_instr_def split: if_splits)

lemma exec_pure:
  assumes "in_op i \<in> {Op_neg, Op_not} \<union> set binary_opcodes"
  shows "exec_instr env code i s =
    (case pure_value env i (map (st_vals s) (in_args i)) of
       Returns v \<Rightarrow> Goes (set_value v s) | Aborts m \<Rightarrow> Ends (Aborts m) | Undefined \<Rightarrow> Ends Undefined)"
  using assms by (auto simp: exec_instr_def binary_opcodes_def Let_def)

lemma const_made [simp]:
  "is_const (const_i64 n)" "is_const (const_bool b)"
  "const_value env (const_i64 n) = RtI64 n" "const_value env (const_bool b) = RtBool b"
  "is_const (i\<lparr>in_result := r\<rparr>) = is_const i" "const_value env (i\<lparr>in_result := r\<rparr>) = const_value env i"
  by (simp_all add: is_const_def const_value_def const_i64_def const_bool_def)

lemma try_fold_value:
  assumes "try_fold_binary op l r = Returns (Some f)" "op \<in> set binary_opcodes"
  shows "is_const l \<and> is_const r \<and> is_const f \<and>
    binary_value env op (const_value env l) (const_value env r) = Returns (const_value env f)"
proof -
  consider (ints) "in_op l = Op_const_i64" "in_op r = Op_const_i64"
    | (bools) "in_op l = Op_const_bool" "in_op r = Op_const_bool" "op = Op_eq \<or> op = Op_ne"
    using assms(1) by (auto simp: try_fold_binary_def split: if_splits)
  then show ?thesis
  proof cases
    case ints
    then have "const_value env l = RtI64 (in_i64 l)" "const_value env r = RtI64 (in_i64 r)"
      "is_const l" "is_const r"
      by (simp_all add: const_value_def is_const_def)
    then show ?thesis
      using assms ints
      by (auto simp: binary_opcodes_def try_fold_binary_def binary_value_def Let_def fold_i64_def bind_Returns
          munx_add_def munx_sub_def munx_mul_def munx_div_def munx_mod_def munx_eq_def munx_ne_def
          munx_lt_def munx_gt_def munx_le_def munx_ge_def arith_def ret_i64_def split: if_splits)
  next
    case bools
    then have "const_value env l = RtBool (in_bool l)" "const_value env r = RtBool (in_bool r)"
      "is_const l" "is_const r"
      by (simp_all add: const_value_def is_const_def)
    then show ?thesis
      using assms bools
      by (auto simp: try_fold_binary_def binary_value_def Let_def munx_eq_def munx_ne_def arith_def
          split: if_splits)
  qed
qed

lemma fold_instr_sound:
  assumes wf: "wf_code code" and pc: "k < length code" "st_pc s = k" and known: "consts_known env code s"
    and fold: "fold_instr code k = Returns i"
  shows "exec_instr env code i s = exec_instr env code (code ! k) s"
proof -
  let ?i = "code ! k"
  note val = arg_known [OF wf pc _ known]
  consider (same) "i = ?i"
    | (neg) a n where "in_op ?i = Op_neg" "arg_instr code ?i 1 0 = Some a" "in_op a = Op_const_i64"
        "int_op (-) 0 (in_i64 a) = Returns n" "i = (const_i64 n)\<lparr>in_result := word_of_nat k\<rparr>"
    | (not) a where "in_op ?i = Op_not" "arg_instr code ?i 1 0 = Some a" "in_op a = Op_const_bool"
        "i = (const_bool (\<not> in_bool a))\<lparr>in_result := word_of_nat k\<rparr>"
    | (bin) l r f where "in_op ?i \<in> set binary_opcodes" "arg_instr code ?i 2 0 = Some l"
        "arg_instr code ?i 2 1 = Some r" "try_fold_binary (in_op ?i) l r = Returns (Some f)"
        "i = f\<lparr>in_result := word_of_nat k\<rparr>"
    | (cbr) a where "in_op ?i = Op_cbr" "arg_instr code ?i 1 0 = Some a" "in_op a = Op_const_bool"
        "i = blank_instr\<lparr>in_op := Op_br,
           in_target := (if in_bool a then in_target ?i else in_target_false ?i), in_result := word_of_nat k\<rparr>"
    using fold
    by (auto simp: fold_instr_def Let_def bind_Returns split: if_splits option.splits)
  then show ?thesis
  proof cases
    case same
    then show ?thesis by simp
  next
    case (neg a n)
    have "st_vals s (in_args ?i ! 0) = RtI64 (in_i64 a)"
      using val [OF _ neg(2)] neg(1,3) by (simp add: is_const_def const_value_def)
    moreover have "is_const i" "const_value env i = RtI64 n"
      by (simp_all add: neg(5))
    ultimately show ?thesis
      using neg(1,4)
      by (simp add: exec_const exec_pure [of ?i])
         (subst args_1 [OF neg(2)], simp add: pure_value_def is_const_def binary_opcodes_def munx_neg_def ret_i64_def)
  next
    case (not a)
    have "st_vals s (in_args ?i ! 0) = RtBool (in_bool a)"
      using val [OF _ not(2)] not(1,3) by (simp add: is_const_def const_value_def)
    moreover have "is_const i" "const_value env i = RtBool (\<not> in_bool a)"
      by (simp_all add: not(4))
    ultimately show ?thesis
      using not(1)
      by (simp add: exec_const exec_pure [of ?i])
         (subst args_1 [OF not(2)], simp add: pure_value_def is_const_def binary_opcodes_def munx_not_def)
  next
    case (bin l r f)
    have op: "in_op ?i \<noteq> Op_label" "\<not> is_const ?i"
      using bin(1) by (auto simp: binary_opcodes_def is_const_def)
    note f = try_fold_value [OF bin(4,1), of env]
    have "st_vals s (in_args ?i ! 0) = const_value env l" "st_vals s (in_args ?i ! 1) = const_value env r"
      using val [OF op(1) bin(2)] val [OF op(1) bin(3)] f by simp_all
    moreover have "is_const i" "const_value env i = const_value env f"
      using f by (simp_all add: bin(5))
    ultimately show ?thesis
      using bin(1) f op(2)
      by (simp add: exec_const exec_pure [of ?i])
         (subst args_2 [OF bin(2)], simp add: pure_value_def)
  next
    case (cbr a)
    have "st_vals s (in_args ?i ! 0) = RtBool (in_bool a)"
      using val [OF _ cbr(2)] cbr(1,3) by (simp add: is_const_def const_value_def)
    moreover obtain x where "in_args ?i = [x]"
      using args_1 [OF cbr(2)] by metis
    ultimately show ?thesis
      using cbr(1) by (simp add: exec_instr_def Let_def cbr(4))
  qed
qed

text \<open>What folding makes of an instruction: a constant or a jump without arguments, or nothing new.\<close>

lemma fold_instr_shape:
  assumes "fold_instr code k = Returns i"
  shows "i = code ! k \<or> in_op (code ! k) \<noteq> Op_label \<and> in_op i \<noteq> Op_label \<and> in_args i = []"
proof -
  have tf: "try_fold_binary op l r = Returns (Some f) \<Longrightarrow> in_op f \<noteq> Op_label \<and> in_args f = []" for op l r f
    by (auto simp: try_fold_binary_def Let_def fold_i64_def bind_Returns const_i64_def const_bool_def
        blank_instr_def split: if_splits mir_opcode.splits)
  show ?thesis
    using assms tf
    by (auto simp: fold_instr_def Let_def bind_Returns const_i64_def const_bool_def blank_instr_def
        binary_opcodes_def split: if_splits option.splits)
qed

lemma fold_step:
  assumes wf: "wf_code code" and k: "k < length code" and fold: "fold_instr code k = Returns i"
  shows "wf_code (code[k := i]) \<and> refines (env :: 'w mir_env) code (code[k := i])"
proof -
  let ?new = "code[k := i]"
  note shape = fold_instr_shape [OF fold]
  have labels: "same_labels code ?new"
    using shape same_labels_update [OF k, of i] by auto
  have "wf_code ?new"
    using shape k by (intro same_labels_wf [OF labels wf]) (auto simp: nth_list_update split: if_splits)
  moreover have "refines env code ?new"
    unfolding refines_def
  proof (intro allI impI)
    fix locals r and w :: 'w
    let ?s = "start_state locals w"
    assume "ends_with env code ?s (Returns r)"
    then obtain n where run: "mir_run n env code ?s = Some (Returns r)" by (auto simp: ends_with_def)
    have step: "mir_step env ?new s = mir_step env code s" if "consts_known env code s" for s
      using that fold_instr_sound [OF wf k _ that fold]
      by (cases "st_pc s = k") (simp_all add: mir_step_def k exec_same_labels [OF labels])
    show "ends_with env ?new ?s (Returns r)"
    proof (rule lockstep [OF run, where R = "\<lambda>s t. t = s \<and> consts_known env code s"])
      show "?s = ?s \<and> consts_known env code ?s"
        by (simp add: consts_known_def reaches_def start_state_def)
    next
      fix s t s'
      assume "t = s \<and> consts_known env code s" "mir_step env code s = Goes s'"
      then show "\<exists>t'. mir_step env ?new t = Goes t' \<and> t' = s' \<and> consts_known env code s'"
        using step exec_known [of env code s s'] by (auto simp: mir_step_def split: if_splits)
    next
      fix s t r
      assume "t = s \<and> consts_known env code s" "mir_step env code s = Ends (Returns r)"
      then show "mir_step env ?new t = Ends (Returns r)"
        using step by simp
    qed
  qed
  ultimately show ?thesis ..
qed

lemma const_fold_loop_sound:
  assumes "wf_code code" "\<forall>k\<in>set ks. k < length code" "const_fold_loop ks code = Returns code'"
  shows "wf_code code' \<and> refines env code code'"
  using assms
proof (induction ks arbitrary: code)
  case (Cons k ks)
  from Cons.prems(3) obtain i where i: "fold_instr code k = Returns i"
    "const_fold_loop ks (code[k := i]) = Returns code'"
    by (auto simp: bind_Returns)
  note step = fold_step [OF Cons.prems(1) _ i(1), of env]
  with Cons.IH [OF _ _ i(2)] Cons.prems(2) show ?case
    using refines_trans by fastforce
qed simp

interpretation const_folding: mir_pass const_fold_function
  by unfold_locales (use const_fold_loop_sound in \<open>force simp: const_fold_function_def\<close>)+

section \<open>Jump threading\<close>

text \<open>A step of the machine on outcomes: an ended run stays ended.\<close>

fun run_step :: "nat \<Rightarrow> 'w mir_env \<Rightarrow> instr list \<Rightarrow> 'w step \<Rightarrow> (rt_value \<times> 'w) outcome option" where
  "run_step n env code (Goes s) = mir_run n env code s"
| "run_step n env code (Ends r) = Some r"

fun follow :: "nat \<Rightarrow> 'w mir_env \<Rightarrow> instr list \<Rightarrow> 'w step \<Rightarrow> 'w step" where
  "follow 0 env code x = x"
| "follow (Suc n) env code (Goes s) = follow n env code (mir_step env code s)"
| "follow (Suc n) env code (Ends r) = Ends r"

lemma mir_run_step: "mir_run (Suc n) env code s = run_step n env code (mir_step env code s)"
  by (simp split: step.split)

lemma follow_run:
  "run_step n env code x = Some r \<Longrightarrow> \<exists>n'\<le>n. run_step n' env code (follow m env code x) = Some r"
proof (induction m env code x arbitrary: n rule: follow.induct)
  case (2 m env code s)
  then obtain n1 where n1: "n = Suc n1" by (cases n) auto
  with "2.prems" have "run_step n1 env code (mir_step env code s) = Some r"
    by (cases "mir_step env code s") simp_all
  from "2.IH" [OF this] obtain n' where "n' \<le> n1"
    "run_step n' env code (follow m env code (mir_step env code s)) = Some r" by blast
  with n1 show ?case by (intro exI [of _ n']) simp
qed auto

lemma follow_Ends [simp]: "follow n env code (Ends r) = Ends r"
  by (cases n) simp_all

lemma follow_add: "follow (m + n) env code x = follow n env code (follow m env code x)"
  by (induction m env code x rule: follow.induct) simp_all

lemma skip_labels_follow:
  "\<exists>m. follow m env code (Goes (s\<lparr>st_pc := i\<rparr>)) = Goes (s\<lparr>st_pc := skip_labels code i\<rparr>)"
proof (induction code i rule: skip_labels.induct)
  case (1 code i)
  show ?case
  proof (cases "i < length code \<and> in_op (code ! i) = Op_label")
    case True
    with 1 obtain m where "follow m env code (Goes (s\<lparr>st_pc := i + 1\<rparr>)) = Goes (s\<lparr>st_pc := skip_labels code (i + 1)\<rparr>)"
      by blast
    with True have "follow (Suc m) env code (Goes (s\<lparr>st_pc := i\<rparr>)) = Goes (s\<lparr>st_pc := skip_labels code i\<rparr>)"
      by (simp add: mir_step_def exec_instr_def next_state_def skip_labels.simps [of code i] Let_def)
    then show ?thesis ..
  next
    case False
    then show ?thesis by (intro exI [of _ 0]) (subst skip_labels.simps, auto)
  qed
qed

lemma resolve_follow:
  assumes "blocks = block_at code"
  shows "\<exists>m. follow m env code (jump_to code b s) = jump_to code (resolve g code blocks b) s"
proof (induction g arbitrary: b)
  case 0
  show ?case by (intro exI [of _ 0]) simp
next
  case (Suc g)
  show ?case
  proof (cases "blocks b")
    case None
    then show ?thesis by (intro exI [of _ 0]) simp
  next
    case (Some at)
    define i where "i = skip_labels code (at + 1)"
    show ?thesis
    proof (cases "i < length code \<and> in_op (code ! i) = Op_br")
      case True
      have at: "at < length code" "in_op (code ! at) = Op_label"
        using block_at_label [of code b at] Some assms by simp_all
      have jump: "jump_to code b s = Goes (s\<lparr>st_pc := at\<rparr>)"
        using Some assms by (simp add: jump_to_def)
      obtain m where m: "follow m env code (Goes (s\<lparr>st_pc := at + 1\<rparr>)) = Goes (s\<lparr>st_pc := i\<rparr>)"
        using skip_labels_follow unfolding i_def by blast
      have "follow (Suc m) env code (jump_to code b s) = Goes (s\<lparr>st_pc := i\<rparr>)"
        using m at by (simp add: jump mir_step_def exec_instr_def next_state_def Let_def)
      moreover have "follow 1 env code (Goes (s\<lparr>st_pc := i\<rparr>)) = jump_to code (in_target (code ! i)) s"
        using True by (simp add: mir_step_def exec_instr_def jump_to_def Let_def split: option.split)
      ultimately have "follow (Suc m + 1) env code (jump_to code b s) = jump_to code (in_target (code ! i)) s"
        by (simp only: follow_add)
      moreover from Suc.IH obtain m' where
        "follow m' env code (jump_to code (in_target (code ! i)) s) =
           jump_to code (resolve g code blocks (in_target (code ! i))) s"
        by blast
      ultimately have "follow (Suc m + 1 + m') env code (jump_to code b s) =
          jump_to code (resolve g code blocks (in_target (code ! i))) s"
        by (simp only: follow_add)
      moreover have "resolve (Suc g) code blocks b = resolve g code blocks (in_target (code ! i))"
        using True Some by (simp add: i_def Let_def)
      ultimately show ?thesis by metis
    next
      case False
      then have "resolve (Suc g) code blocks b = b"
        using Some by (auto simp: i_def Let_def)
      then show ?thesis by (intro exI [of _ 0]) simp
    qed
  qed
qed

lemma thread_instr_shape:
  "in_op (thread_instr code blocks i) = in_op i" "in_args (thread_instr code blocks i) = in_args i"
  "in_op i = Op_label \<Longrightarrow> thread_instr code blocks i = i"
  by (auto simp: thread_instr_def)

text \<open>A threaded jump arrives where the old jump arrives after a few more steps.\<close>

lemma thread_exec:
  assumes "blocks = block_at code"
  shows "\<exists>m. exec_instr env code (thread_instr code blocks i) s = follow m env code (exec_instr env code i s)"
proof (cases "in_op i = Op_br \<or> in_op i = Op_cbr")
  case True
  have to: "\<exists>m. jump_to code (resolve resolve_guard code blocks b) s = follow m env code (jump_to code b s)" for b
    using resolve_follow [OF assms] by metis
  from True show ?thesis
  proof
    assume "in_op i = Op_br"
    then show ?thesis
      using to [of "in_target i"] by (simp add: thread_instr_def exec_instr_def Let_def)
  next
    assume "in_op i = Op_cbr"
    then show ?thesis
      using to [of "in_target i"] to [of "in_target_false i"]
      by (cases "in_args i") (auto simp: thread_instr_def exec_instr_def Let_def)
  qed
next
  case False
  then show ?thesis
    by (intro exI [of _ 0]) (simp add: thread_instr_def)
qed

lemma thread_step:
  assumes wf: "wf_code code" and k: "k < length code"
  shows "wf_code (code[k := thread_instr code (block_at code) (code ! k)]) \<and>
    refines (env :: 'w mir_env) code (code[k := thread_instr code (block_at code) (code ! k)]) \<and>
    same_labels code (code[k := thread_instr code (block_at code) (code ! k)])"
proof -
  let ?i = "thread_instr code (block_at code) (code ! k)"
  let ?new = "code[k := ?i]"
  have labels: "same_labels code ?new"
    using k thread_instr_shape by (auto simp: same_labels_def nth_list_update)
  moreover have "wf_code ?new"
    using k by (intro same_labels_wf [OF labels wf]) (auto simp: nth_list_update thread_instr_shape split: if_splits)
  moreover have run: "mir_run n env code s = Some r \<Longrightarrow> ends_with env ?new s r" for n s r
  proof (induction n arbitrary: s rule: less_induct)
    case (less n)
    then obtain n1 where n: "n = Suc n1" by (cases n) auto
    have r: "run_step n1 env code (mir_step env code s) = Some r"
      using less.prems n by (cases "mir_step env code s") simp_all
    obtain m where m: "mir_step env ?new s = follow m env code (mir_step env code s)"
    proof (cases "st_pc s = k")
      case True
      then show ?thesis
        using k thread_exec [OF refl, of env code "code ! k" s] that
        by (auto simp: mir_step_def exec_same_labels [OF labels])
    next
      case False
      then show ?thesis
        using k that [of 0] by (auto simp: mir_step_def exec_same_labels [OF labels])
    qed
    from follow_run [OF r, of m] obtain n2 where n2: "n2 \<le> n1" "run_step n2 env code (mir_step env ?new s) = Some r"
      unfolding m by blast
    show ?case
    proof (cases "mir_step env ?new s")
      case (Goes t)
      with less.IH [of n2 t] n2 n show ?thesis
        by (simp add: ends_with_step [of env ?new s])
    next
      case (Ends q)
      with n2 show ?thesis
        by (simp add: ends_with_step [of env ?new s])
    qed
  qed
  then have "refines env code ?new"
    by (auto simp: refines_def ends_with_def [of env code])
  ultimately show ?thesis by blast
qed

lemma jump_thread_loop_sound:
  assumes "wf_code code" "\<forall>k\<in>set ks. k < length code" "blocks = block_at code"
  shows "wf_code (jump_thread_loop blocks ks code) \<and>
    refines (env :: 'w mir_env) code (jump_thread_loop blocks ks code)"
  using assms
proof (induction ks arbitrary: code)
  case (Cons k ks)
  let ?new = "code[k := thread_instr code (block_at code) (code ! k)]"
  have step: "wf_code ?new" "refines env code ?new" "same_labels code ?new"
    using thread_step [OF Cons.prems(1), of k env] Cons.prems(2) by simp_all
  have "wf_code (jump_thread_loop blocks ks ?new) \<and> refines env ?new (jump_thread_loop blocks ks ?new)"
    using Cons.prems(2,3) step same_labels_blocks [OF step(3)] by (intro Cons.IH) simp_all
  with step Cons.prems(3) show ?case
    using refines_trans by auto
qed simp

interpretation jump_threading: mir_pass "\<lambda>code. Returns (jump_thread_function code)"
  by unfold_locales (use jump_thread_loop_sound in \<open>force simp: jump_thread_function_def\<close>)+

section \<open>Dead code elimination\<close>

lemma mark_used_fixpoint:
  "used \<subseteq> mark_used code used \<and> mark_round code (mark_used code used) = mark_used code used"
proof (induction code used rule: mark_used.induct)
  case (1 code used)
  have "used \<subseteq> mark_round code used"
    by (auto simp: mark_round_def)
  with 1 show ?case
    by (subst (1 2 3) mark_used.simps) auto
qed

lemma used_closed:
  assumes "n \<in> mark_used code used" "n < length code" "a \<in> set (in_args (code ! n))"
  shows "a \<in> mark_used code used"
proof -
  have "a \<in> mark_round code (mark_used code used)"
    using assms by (auto simp: mark_round_def)
  then show ?thesis
    using mark_used_fixpoint [of used code] by simp
qed

lemma used_roots:
  assumes "k < length code" "has_side_effect (in_op (code ! k)) \<or> in_op (code ! k) = Op_load_local"
    "a \<in> set (in_args (code ! k))"
  shows "a \<in> mark_used code (roots code)"
proof -
  have "a \<in> roots code"
    using assms nth_mem [OF assms(1)] by (force simp: roots_def)
  then show ?thesis
    using mark_used_fixpoint by blast
qed

text \<open>States that agree on everything but the values nothing uses.\<close>

definition agree :: "nat set \<Rightarrow> 'w mir_state \<Rightarrow> 'w mir_state \<Rightarrow> bool" where
  "agree used s t \<longleftrightarrow> st_pc t = st_pc s \<and> st_locals t = st_locals s \<and> st_world t = st_world s \<and>
     (\<forall>n\<in>used. st_vals t n = st_vals s n)"

text \<open>An instruction whose arguments are all used does the same in states that agree.\<close>

fun agree_step :: "nat set \<Rightarrow> 'w step \<Rightarrow> 'w step \<Rightarrow> bool" where
  "agree_step used (Goes s) (Goes t) = agree used s t"
| "agree_step used (Ends q) (Ends r) = (q = r)"
| "agree_step used _ _ = False"

lemma agree_exec:
  assumes "agree used s t" "set (in_args i) \<subseteq> used \<or> is_const i"
  shows "agree_step used (exec_instr env code i s) (exec_instr env code i t)"
proof (cases "is_const i")
  case True
  then show ?thesis
    using assms(1) by (simp add: exec_const agree_def set_value_def)
next
  case False
  with assms have vs: "map (st_vals t) (in_args i) = map (st_vals s) (in_args i)"
    by (auto simp: agree_def)
  have jump: "agree_step used (jump_to code b s) (jump_to code b t)" for b
    using assms(1) by (simp add: jump_to_def agree_def split: option.split)
  show ?thesis
    unfolding exec_instr_def Let_def vs
    using assms(1) jump
    by (auto simp: agree_def next_state_def set_value_def split: list.split outcome.split)
qed

lemma dead_pure:
  assumes "dead_instr used k i"
  shows "in_op i \<in> {Op_neg, Op_not} \<union> set binary_opcodes"
  using assms
  by (cases "in_op i") (simp_all add: dead_instr_def has_side_effect_def is_const_def binary_opcodes_def)

lemma clear_instr_const [simp]:
  "is_const (clear_instr i)" "const_value env (clear_instr i) = RtNull" "in_args (clear_instr i) = []"
  by (simp_all add: clear_instr_def blank_instr_def is_const_def const_value_def)

lemma dce_sound:
  assumes wf: "wf_code code"
  shows "wf_code (dce_function code) \<and> refines (env :: 'w mir_env) code (dce_function code)"
proof -
  define used where "used = mark_used code (roots code)"
  let ?new = "dce_function code"
  have len: "length ?new = length code"
    by (simp add: dce_function_def Let_def)
  have nth: "?new ! k = (if dead_instr used k (code ! k) then clear_instr (code ! k) else code ! k)"
    if "k < length code" for k
    using that by (simp add: dce_function_def Let_def used_def)
  have labels: "same_labels code ?new"
    using len nth by (auto simp: same_labels_def const_not_label dead_instr_def has_side_effect_def)
  have small: "u32_of k = k" if "k < length code" for k
    using wf that by (simp add: wf_code_def u32_of_def)
  have "wf_code ?new"
    using nth by (intro same_labels_wf [OF labels wf]) simp
  moreover have "refines env code ?new"
    unfolding refines_def
  proof (intro allI impI)
    fix locals r and w :: 'w
    let ?s = "start_state locals w"
    assume "ends_with env code ?s (Returns r)"
    then obtain n where run: "mir_run n env code ?s = Some (Returns r)" by (auto simp: ends_with_def)
    have live: "agree_step used (mir_step env code s) (mir_step env ?new t)"
      if "agree used s t" "st_pc s < length code" "\<not> dead_instr used (st_pc s) (code ! st_pc s)" for s t
    proof -
      let ?i = "code ! st_pc s"
      have "set (in_args ?i) \<subseteq> used \<or> is_const ?i"
        using that(2,3) used_roots [OF that(2)] used_closed [OF _ that(2)] small [OF that(2)]
        by (auto simp: dead_instr_def used_def)
      from agree_exec [OF that(1) this, of env code] that(1,2) nth [OF that(2)] that(3) len show ?thesis
        by (simp add: mir_step_def exec_same_labels [OF labels] agree_def)
    qed
    have dead: "\<exists>v. mir_step env ?new t = Goes (set_value RtNull t) \<and>
        (mir_step env code s = Goes (set_value v s) \<or> (\<forall>q. mir_step env code s \<noteq> Goes q) \<and>
          (\<forall>r. mir_step env code s \<noteq> Ends (Returns r)))"
      if "agree used s t" "st_pc s < length code" "dead_instr used (st_pc s) (code ! st_pc s)" for s t
      using that nth [OF that(2)] len exec_pure [OF dead_pure [OF that(3)], of env code s]
      by (auto simp: mir_step_def agree_def exec_const split: outcome.splits)
    have stay: "agree used (set_value v s) (set_value RtNull t)"
      if "agree used s t" "st_pc s < length code" "dead_instr used (st_pc s) (code ! st_pc s)" for s t v
      using that small [OF that(2)] by (auto simp: agree_def set_value_def dead_instr_def)
    show "ends_with env ?new ?s (Returns r)"
    proof (rule lockstep [OF run, where R = "agree used"])
      show "agree used ?s ?s" by (simp add: agree_def)
    next
      fix s t s'
      assume R: "agree used s t" and step: "mir_step env code s = Goes s'"
      then have pc: "st_pc s < length code" by (auto simp: mir_step_def split: if_splits)
      show "\<exists>t'. mir_step env ?new t = Goes t' \<and> agree used s' t'"
      proof (cases "dead_instr used (st_pc s) (code ! st_pc s)")
        case True
        with dead [OF R pc] stay [OF R pc] step show ?thesis by force
      next
        case False
        with live [OF R pc] step show ?thesis
          by (cases "mir_step env ?new t") simp_all
      qed
    next
      fix s t r
      assume R: "agree used s t" and step: "mir_step env code s = Ends (Returns r)"
      show "mir_step env ?new t = Ends (Returns r)"
      proof (cases "st_pc s < length code")
        case True
        then show ?thesis
          using dead [OF R True] live [OF R True] step
          by (cases "dead_instr used (st_pc s) (code ! st_pc s)"; cases "mir_step env ?new t") force+
      next
        case False
        with R step len show ?thesis by (simp add: mir_step_def agree_def)
      qed
    qed
  qed
  ultimately show ?thesis ..
qed

interpretation dead_code: mir_pass "\<lambda>code. Returns (dce_function code)"
  by unfold_locales (use dce_sound in force)+

section \<open>The optimizer\<close>

lemma optimize_function_refines:
  assumes "wf_code (fn_code fn)" "optimize_function fn = Returns fn'"
  shows "refines (env :: 'w mir_env) (fn_code fn) (fn_code fn') \<and> wf_code (fn_code fn') \<and>
    fn' = fn\<lparr>fn_code := fn_code fn'\<rparr>"
proof -
  from assms(2) obtain code where code: "const_fold_function (fn_code fn) = Returns code"
    "fn' = fn\<lparr>fn_code := dce_function (jump_thread_function code)\<rparr>"
    by (auto simp: optimize_function_def bind_Returns)
  note folded = const_folding.after [OF refines_refl assms(1) code(1), of env]
  note threaded = jump_threading.after [OF folded [THEN conjunct1] folded [THEN conjunct2] refl]
  from dead_code.after [OF threaded [THEN conjunct1] threaded [THEN conjunct2] refl] code(2)
  show ?thesis by simp
qed


definition mir_instr :: "mir_opcode \<Rightarrow> nat list \<Rightarrow> instr" where
  "mir_instr op args = blank_instr\<lparr>in_op := op, in_args := args\<rparr>"

definition sample_code :: "instr list" where
  "sample_code =
     [mir_instr Op_label [], const_i64 2, const_i64 3, mir_instr Op_add [1, 2], mir_instr Op_print [3],
      (mir_instr Op_br [])\<lparr>in_target := 1\<rparr>, (mir_instr Op_label [])\<lparr>in_target := 1\<rparr>,
      (mir_instr Op_br [])\<lparr>in_target := 2\<rparr>, (mir_instr Op_label [])\<lparr>in_target := 2\<rparr>,
      mir_instr Op_ret []]"

definition sample_module :: mir_module where
  "sample_module =
     \<lparr>mod_entry_package = [], mod_strings = [],
      mod_functions = [\<lparr>fn_name = ''munx_init_a'', fn_is_entry_init = True, fn_param_count = 0,
        fn_local_count = 0, fn_local_names = [], fn_code = sample_code\<rparr>]\<rparr>"


section \<open>What the optimizer gets wrong\<close>

text \<open>
  Constant folding is undefined exactly where the folded operation leaves the 64-bit range: sum,
  difference or product out of range, or the smallest integer divided by -1, for which the compiler
  itself executes the division.
\<close>

theorem folding_undefined_iff:
  "try_fold_binary op l r = Undefined \<longleftrightarrow>
     in_op l = Op_const_i64 \<and> in_op r = Op_const_i64 \<and>
     (op = Op_add \<and> \<not> in_int64 (sint (in_i64 l) + sint (in_i64 r)) \<or>
      op = Op_sub \<and> \<not> in_int64 (sint (in_i64 l) - sint (in_i64 r)) \<or>
      op = Op_mul \<and> \<not> in_int64 (sint (in_i64 l) * sint (in_i64 r)) \<or>
      (op = Op_div \<or> op = Op_mod) \<and> sint (in_i64 l) = int64_min \<and> in_i64 r = - 1)"
proof -
  have "sint b = - 1 \<longleftrightarrow> b = - 1" for b :: u64
    by (metis signed_minus_1 signed_word_eqI)
  then show ?thesis
    by (cases op)
       (auto simp: try_fold_binary_def Let_def fold_i64_def int_op_def div_defined_def split: if_splits)
qed

text \<open>
  C34. Dead code elimination drops faults: a division by zero whose result is not used aborts the
  program before the optimizer and is gone after it.
\<close>

definition unused_division :: "instr list" where
  "unused_division =
     [mir_instr Op_label [], const_i64 1, const_i64 0, mir_instr Op_div [1, 2], mir_instr Op_ret []]"

theorem dead_code_drops_abort:
  "ends_with env unused_division (start_state locals w) (Aborts ''division by zero'') \<and>
   const_fold_function unused_division = Returns unused_division \<and>
   ends_with env (dce_function unused_division) (start_state locals w) (Returns (RtNull, w))"
proof -
  have fold: "const_fold_function unused_division = Returns unused_division"
    by code_simp
  have dce: "dce_function unused_division = unused_division[3 := clear_instr (unused_division ! 3)]"
    by code_simp
  have "mir_run 4 env unused_division (start_state locals w) = Some (Aborts ''division by zero'')"
    by (simp add: unused_division_def mir_instr_def blank_instr_def const_i64_def start_state_def numeral_eq_Suc
        mir_step_def exec_instr_def Let_def next_state_def set_value_def pure_value_def is_const_def
        const_value_def binary_opcodes_def binary_value_def munx_div_def)
  moreover have "mir_run 5 env (dce_function unused_division) (start_state locals w) = Some (Returns (RtNull, w))"
    unfolding dce
    by (simp add: unused_division_def mir_instr_def blank_instr_def const_i64_def start_state_def numeral_eq_Suc
        mir_step_def exec_instr_def Let_def next_state_def set_value_def pure_value_def is_const_def
        const_value_def clear_instr_def)
  ultimately show ?thesis
    using fold unfolding ends_with_def by blast
qed

end
