(* ===== verification/X64.thy ===== *)
theory X64
  imports Wire
begin

text \<open>
  The object image the native code generator fills (\<open>native/asm/object_builder.hpp\<close>,
  \<open>native/asm/target.hpp\<close>) and the x86-64 assembler that appends to it (\<open>native/asm/x64.hpp\<close>).
  An \<open>int32_t\<close> is a 32-bit word read by \<open>sint\<close>; the casts of \<open>text().size()\<close> to 32 bits are written
  out.
\<close>

section \<open>Targets\<close>

datatype cpu_arch = ArchX86_64 | ArchAarch64
datatype object_format = FormatElf64 | FormatMacho64 | FormatCoff64

definition arch_name :: "cpu_arch \<Rightarrow> string" where
  "arch_name a = (case a of ArchX86_64 \<Rightarrow> ''x86_64'' | ArchAarch64 \<Rightarrow> ''aarch64'')"

definition format_name :: "object_format \<Rightarrow> string" where
  "format_name f = (case f of FormatElf64 \<Rightarrow> ''elf64'' | FormatMacho64 \<Rightarrow> ''macho64'' | FormatCoff64 \<Rightarrow> ''coff64'')"

definition parse_arch :: "string \<Rightarrow> cpu_arch option" where
  "parse_arch s =
     (if s = ''x86_64'' \<or> s = ''x64'' \<or> s = ''amd64'' then Some ArchX86_64
      else if s = ''aarch64'' \<or> s = ''arm64'' then Some ArchAarch64
      else None)"

definition parse_format :: "string \<Rightarrow> object_format option" where
  "parse_format s =
     (if s = ''elf'' \<or> s = ''elf64'' then Some FormatElf64
      else if s = ''macho'' \<or> s = ''macho64'' \<or> s = ''mach-o'' then Some FormatMacho64
      else if s = ''pe'' \<or> s = ''coff'' \<or> s = ''coff64'' then Some FormatCoff64
      else None)"

section \<open>The image\<close>

datatype reloc_kind =
  X86_64_PC32 | X86_64_64 | X86_64_PLT32
| AARCH64_CALL26 | AARCH64_ABS64 | AARCH64_ADR_PREL_PG_HI21 | AARCH64_ADD_ABS_LO12_NC

datatype symbol_bind = BindLocal | BindGlobal | BindUndefined

record reloc =
  rel_offset :: nat
  rel_kind :: reloc_kind
  rel_symbol :: string
  rel_addend :: int

record obj_symbol =
  sym_name :: string
  sym_bind :: symbol_bind
  sym_is_text :: bool
  sym_value :: nat
  sym_size :: nat

record object_image =
  img_arch :: cpu_arch
  img_format :: object_format
  img_text :: "byte list"
  img_rodata :: "byte list"
  img_symbols :: "obj_symbol list"
  img_relocs :: "reloc list"

definition new_image :: "cpu_arch \<Rightarrow> object_format \<Rightarrow> object_image" where
  "new_image arch fmt =
     \<lparr>img_arch = arch, img_format = fmt, img_text = [], img_rodata = [], img_symbols = [], img_relocs = []\<rparr>"

definition u32_cast :: "nat \<Rightarrow> nat" where
  "u32_cast n = n mod 2 ^ 32"

definition text_size :: "object_image \<Rightarrow> nat" where
  "text_size img = u32_cast (length (img_text img))"

definition add_symbol :: "obj_symbol \<Rightarrow> object_image \<Rightarrow> object_image" where
  "add_symbol s img = img\<lparr>img_symbols := img_symbols img @ [s]\<rparr>"

definition define_text_symbol :: "string \<Rightarrow> nat \<Rightarrow> nat \<Rightarrow> bool \<Rightarrow> object_image \<Rightarrow> object_image" where
  "define_text_symbol name offset len is_global img =
     add_symbol \<lparr>sym_name = name, sym_bind = (if is_global then BindGlobal else BindLocal),
       sym_is_text = True, sym_value = offset, sym_size = len\<rparr> img"

definition need_undef :: "string \<Rightarrow> object_image \<Rightarrow> object_image" where
  "need_undef name img =
     (if \<exists>s\<in>set (img_symbols img). sym_name s = name then img
      else add_symbol \<lparr>sym_name = name, sym_bind = BindUndefined, sym_is_text = True, sym_value = 0,
        sym_size = 0\<rparr> img)"

definition add_reloc :: "nat \<Rightarrow> reloc_kind \<Rightarrow> string \<Rightarrow> int \<Rightarrow> bool \<Rightarrow> object_image \<Rightarrow> object_image" where
  "add_reloc offset kind name addend external img =
     (let img1 = (if external then need_undef name img else img)
      in img1\<lparr>img_relocs := img_relocs img1 @
           [\<lparr>rel_offset = offset, rel_kind = kind, rel_symbol = name, rel_addend = addend\<rparr>]\<rparr>)"

section \<open>Bytes of instructions\<close>

datatype (plugins only: code) reg =
  RAX | RCX | RDX | RBX | RSP | RBP | RSI | RDI | R8 | R9 | R10 | R11 | R12 | R13 | R14 | R15

definition reg_u8 :: "reg \<Rightarrow> byte" where
  "reg_u8 r = (case r of RAX \<Rightarrow> 0 | RCX \<Rightarrow> 1 | RDX \<Rightarrow> 2 | RBX \<Rightarrow> 3 | RSP \<Rightarrow> 4 | RBP \<Rightarrow> 5 | RSI \<Rightarrow> 6 | RDI \<Rightarrow> 7
     | R8 \<Rightarrow> 8 | R9 \<Rightarrow> 9 | R10 \<Rightarrow> 10 | R11 \<Rightarrow> 11 | R12 \<Rightarrow> 12 | R13 \<Rightarrow> 13 | R14 \<Rightarrow> 14 | R15 \<Rightarrow> 15)"

definition high_reg :: "byte \<Rightarrow> bool" where
  "high_reg r \<longleftrightarrow> r AND 8 \<noteq> 0"

definition emit_u8 :: "byte \<Rightarrow> object_image \<Rightarrow> object_image" where
  "emit_u8 b img = img\<lparr>img_text := img_text img @ [b]\<rparr>"

definition emit_u32 :: "u32 \<Rightarrow> object_image \<Rightarrow> object_image" where
  "emit_u32 v img =
     emit_u8 (ucast (drop_bit 24 v)) (emit_u8 (ucast (drop_bit 16 v))
       (emit_u8 (ucast (drop_bit 8 v)) (emit_u8 (ucast v) img)))"

definition emit_u64 :: "u64 \<Rightarrow> object_image \<Rightarrow> object_image" where
  "emit_u64 v img = emit_u32 (ucast (drop_bit 32 v)) (emit_u32 (ucast v) img)"

text \<open>\<open>rex\<close> emits the prefix only when it is needed; its first test is implied by the second.\<close>

definition rex :: "bool \<Rightarrow> byte \<Rightarrow> byte \<Rightarrow> object_image \<Rightarrow> object_image" where
  "rex w r rm img =
     (if w \<or> high_reg r \<or> high_reg rm
      then emit_u8 (0x40 OR (if w then 8 else 0) OR (if high_reg r then 4 else 0) OR (if high_reg rm then 1 else 0)) img
      else img)"

definition rex_w :: "byte \<Rightarrow> byte \<Rightarrow> object_image \<Rightarrow> object_image" where
  "rex_w r rm img = emit_u8 (0x48 OR (if high_reg r then 4 else 0) OR (if high_reg rm then 1 else 0)) img"

definition modrm :: "byte \<Rightarrow> byte \<Rightarrow> byte \<Rightarrow> object_image \<Rightarrow> object_image" where
  "modrm m r rm img = emit_u8 (push_bit 6 m OR push_bit 3 (r AND 7) OR (rm AND 7)) img"

section \<open>Instructions\<close>

definition x64_push :: "reg \<Rightarrow> object_image \<Rightarrow> object_image" where
  "x64_push r img =
     emit_u8 (0x50 + (reg_u8 r AND 7)) (if high_reg (reg_u8 r) then emit_u8 0x41 img else img)"

definition x64_pop :: "reg \<Rightarrow> object_image \<Rightarrow> object_image" where
  "x64_pop r img =
     emit_u8 (0x58 + (reg_u8 r AND 7)) (if high_reg (reg_u8 r) then emit_u8 0x41 img else img)"

definition mov_rr :: "reg \<Rightarrow> reg \<Rightarrow> object_image \<Rightarrow> object_image" where
  "mov_rr dst src img =
     modrm 3 (reg_u8 src) (reg_u8 dst) (emit_u8 0x89 (rex_w (reg_u8 src) (reg_u8 dst) img))"

definition mov_ri64 :: "reg \<Rightarrow> u64 \<Rightarrow> object_image \<Rightarrow> object_image" where
  "mov_ri64 dst imm img =
     emit_u64 imm (emit_u8 (0xB8 + (reg_u8 dst AND 7))
       (emit_u8 (0x48 OR (if high_reg (reg_u8 dst) then 1 else 0)) img))"

definition mov_ri32 :: "reg \<Rightarrow> u32 \<Rightarrow> object_image \<Rightarrow> object_image" where
  "mov_ri32 dst imm img =
     emit_u32 imm (modrm 3 0 (reg_u8 dst) (emit_u8 0xC7 (rex_w 0 (reg_u8 dst) img)))"

definition xor_rr :: "reg \<Rightarrow> object_image \<Rightarrow> object_image" where
  "xor_rr r img =
     (if high_reg (reg_u8 r) then modrm 3 (reg_u8 r) (reg_u8 r) (emit_u8 0x31 (emit_u8 0x45 img))
      else modrm 3 (reg_u8 r) (reg_u8 r) (emit_u8 0x31 img))"

definition xor_eax :: "object_image \<Rightarrow> object_image" where
  "xor_eax img = emit_u8 0xC0 (emit_u8 0x31 img)"

definition sub_rsp :: "u32 \<Rightarrow> object_image \<Rightarrow> object_image" where
  "sub_rsp imm img = emit_u32 imm (modrm 3 5 (reg_u8 RSP) (emit_u8 0x81 (rex_w 0 (reg_u8 RSP) img)))"

definition add_rsp :: "u32 \<Rightarrow> object_image \<Rightarrow> object_image" where
  "add_rsp imm img = emit_u32 imm (modrm 3 0 (reg_u8 RSP) (emit_u8 0x81 (rex_w 0 (reg_u8 RSP) img)))"

text \<open>The operand \<open>disp(%rbp)\<close>: one byte of displacement where it fits, four otherwise.\<close>

definition rbp_operand :: "byte \<Rightarrow> u32 \<Rightarrow> object_image \<Rightarrow> object_image" where
  "rbp_operand r disp img =
     (if -128 \<le> sint disp \<and> sint disp \<le> 127
      then emit_u8 (ucast disp) (modrm 1 r (reg_u8 RBP) img)
      else emit_u32 disp (modrm 2 r (reg_u8 RBP) img))"

definition lea_rbp :: "reg \<Rightarrow> u32 \<Rightarrow> object_image \<Rightarrow> object_image" where
  "lea_rbp dst disp img =
     rbp_operand (reg_u8 dst) disp (emit_u8 0x8D (rex_w (reg_u8 dst) (reg_u8 RBP) img))"

definition store64_rbp :: "reg \<Rightarrow> u32 \<Rightarrow> object_image \<Rightarrow> object_image" where
  "store64_rbp src disp img =
     rbp_operand (reg_u8 src) disp (emit_u8 0x89 (rex_w (reg_u8 src) (reg_u8 RBP) img))"

definition load64_rbp :: "reg \<Rightarrow> u32 \<Rightarrow> object_image \<Rightarrow> object_image" where
  "load64_rbp dst disp img =
     rbp_operand (reg_u8 dst) disp (emit_u8 0x8B (rex_w (reg_u8 dst) (reg_u8 RBP) img))"

definition load8z_rbp :: "reg \<Rightarrow> u32 \<Rightarrow> object_image \<Rightarrow> object_image" where
  "load8z_rbp dst disp img =
     rbp_operand (reg_u8 dst) disp (emit_u8 0xB6 (emit_u8 0x0F
       (if high_reg (reg_u8 dst) then emit_u8 (0x40 OR 0x04) img else img)))"

definition store8_al_rbp :: "u32 \<Rightarrow> object_image \<Rightarrow> object_image" where
  "store8_al_rbp disp img = rbp_operand (reg_u8 RAX) disp (emit_u8 0x88 img)"

definition store8i_rbp :: "u32 \<Rightarrow> byte \<Rightarrow> object_image \<Rightarrow> object_image" where
  "store8i_rbp disp imm img = emit_u8 imm (rbp_operand 0 disp (emit_u8 0xC6 img))"

definition store64i_rbp :: "u32 \<Rightarrow> u32 \<Rightarrow> object_image \<Rightarrow> object_image" where
  "store64i_rbp disp imm img =
     emit_u32 imm (rbp_operand 0 disp (emit_u8 0xC7 (rex_w 0 (reg_u8 RBP) img)))"

definition test_al :: "object_image \<Rightarrow> object_image" where
  "test_al img = emit_u8 0xC0 (emit_u8 0x84 img)"

definition x64_ret :: "object_image \<Rightarrow> object_image" where
  "x64_ret img = emit_u8 0xC3 img"

definition x64_nop :: "object_image \<Rightarrow> object_image" where
  "x64_nop img = emit_u8 0x90 img"

section \<open>Jumps, calls and addresses\<close>

text \<open>The jumps return the offset of their displacement, which is patched later.\<close>

definition jmp_rel32 :: "object_image \<Rightarrow> nat \<times> object_image" where
  "jmp_rel32 img = (let img1 = emit_u8 0xE9 img in (text_size img1, emit_u32 0 img1))"

definition jcc_rel32 :: "byte \<Rightarrow> object_image \<Rightarrow> nat \<times> object_image" where
  "jcc_rel32 cc img = (let img1 = emit_u8 cc (emit_u8 0x0F img) in (text_size img1, emit_u32 0 img1))"

definition je_rel32 :: "object_image \<Rightarrow> nat \<times> object_image" where
  "je_rel32 = jcc_rel32 0x84"

definition jne_rel32 :: "object_image \<Rightarrow> nat \<times> object_image" where
  "jne_rel32 = jcc_rel32 0x85"

definition patch_rel32 :: "nat \<Rightarrow> nat \<Rightarrow> object_image \<Rightarrow> object_image" where
  "patch_rel32 disp_off target img =
     (let r = word_of_nat target - word_of_nat (disp_off + 4) :: u32
      in img\<lparr>img_text := (img_text img)
           [disp_off := ucast r, disp_off + 1 := ucast (drop_bit 8 r),
            disp_off + 2 := ucast (drop_bit 16 r), disp_off + 3 := ucast (drop_bit 24 r)]\<rparr>)"

definition call_plt :: "string \<Rightarrow> object_image \<Rightarrow> object_image" where
  "call_plt name img =
     (let img1 = emit_u8 0xE8 img in add_reloc (text_size img1) X86_64_PLT32 name (-4) True (emit_u32 0 img1))"

definition call_local :: "string \<Rightarrow> object_image \<Rightarrow> object_image" where
  "call_local name img =
     (let img1 = emit_u8 0xE8 img in add_reloc (text_size img1) X86_64_PC32 name (-4) False (emit_u32 0 img1))"

definition lea_rip_symbol :: "reg \<Rightarrow> string \<Rightarrow> object_image \<Rightarrow> object_image" where
  "lea_rip_symbol dst name img =
     (let img1 = emit_u8 (0x05 OR push_bit 3 (reg_u8 dst AND 7))
        (emit_u8 0x8D (emit_u8 (0x48 OR (if high_reg (reg_u8 dst) then 4 else 0)) img))
      in add_reloc (text_size img1) X86_64_PC32 name (-4) False (emit_u32 0 img1))"

end
