(* ===== verification/X64_Decode.thy ===== *)
theory X64_Decode
  imports X64
begin

text \<open>
  A reference reading of the instruction format: prefix, opcode, ModRM byte, displacement and
  immediate, decoded independently of the assembler for the instructions it can emit. Every
  instruction the assembler appends decodes to itself, whatever follows it.
\<close>

section \<open>Instructions\<close>

datatype (plugins only: code) insn =
  I_push reg | I_pop reg | I_mov_rr reg reg | I_mov_ri64 reg u64 | I_mov_ri32 reg u32 | I_xor_rr reg
| I_sub_rsp u32 | I_add_rsp u32 | I_lea_rbp reg u32 | I_store64 reg u32 | I_load64 reg u32
| I_load8z reg u32 | I_store8_al u32 | I_store8i u32 byte | I_store64i u32 u32 | I_test_al
| I_jmp u32 | I_jcc byte u32 | I_call u32 | I_ret | I_nop | I_lea_rip reg u32

text \<open>What the assembler does for an instruction; displacements of jumps, calls and addresses are left zero.\<close>

definition x64_emit :: "insn \<Rightarrow> object_image \<Rightarrow> object_image" where
  "x64_emit i = (case i of
     I_push r \<Rightarrow> x64_push r | I_pop r \<Rightarrow> x64_pop r | I_mov_rr d s \<Rightarrow> mov_rr d s
   | I_mov_ri64 r v \<Rightarrow> mov_ri64 r v | I_mov_ri32 r v \<Rightarrow> mov_ri32 r v | I_xor_rr r \<Rightarrow> xor_rr r
   | I_sub_rsp v \<Rightarrow> sub_rsp v | I_add_rsp v \<Rightarrow> add_rsp v | I_lea_rbp r d \<Rightarrow> lea_rbp r d
   | I_store64 r d \<Rightarrow> store64_rbp r d | I_load64 r d \<Rightarrow> load64_rbp r d | I_load8z r d \<Rightarrow> load8z_rbp r d
   | I_store8_al d \<Rightarrow> store8_al_rbp d | I_store8i d v \<Rightarrow> store8i_rbp d v | I_store64i d v \<Rightarrow> store64i_rbp d v
   | I_test_al \<Rightarrow> test_al | I_jmp d \<Rightarrow> (\<lambda>img. snd (jmp_rel32 img)) | I_jcc c d \<Rightarrow> (\<lambda>img. snd (jcc_rel32 c img))
   | I_call d \<Rightarrow> call_local '''' | I_ret \<Rightarrow> x64_ret | I_nop \<Rightarrow> x64_nop
   | I_lea_rip r d \<Rightarrow> lea_rip_symbol r '''')"

section \<open>The decoder\<close>

definition all_regs :: "reg list" where
  "all_regs = [RAX, RCX, RDX, RBX, RSP, RBP, RSI, RDI, R8, R9, R10, R11, R12, R13, R14, R15]"

definition reg_at :: "bool \<Rightarrow> byte \<Rightarrow> reg" where
  "reg_at high low = all_regs ! (unat low + (if high then 8 else 0))"

definition take_u8 :: "byte list \<Rightarrow> (byte \<times> byte list) option" where
  "take_u8 bs = (case bs of [] \<Rightarrow> None | b # rest \<Rightarrow> Some (b, rest))"

definition take_u32 :: "byte list \<Rightarrow> (u32 \<times> byte list) option" where
  "take_u32 bs = (if length bs < 4 then None else Some (le_word (take 4 bs), drop 4 bs))"

definition take_u64 :: "byte list \<Rightarrow> (u64 \<times> byte list) option" where
  "take_u64 bs = (if length bs < 8 then None else Some (le_word (take 8 bs), drop 8 bs))"

text \<open>The prefix bits W, R and B, all clear without a prefix.\<close>

definition decode_rex :: "byte list \<Rightarrow> (bool \<times> bool \<times> bool) \<times> byte list" where
  "decode_rex bs = (case bs of
     b # rest \<Rightarrow> if b AND 0xF0 = 0x40 then ((bit b 3, bit b 2, bit b 0), rest) else ((False, False, False), bs)
   | [] \<Rightarrow> ((False, False, False), bs))"

datatype operand = OnReg reg | OnRbp u32 | OnRip u32

text \<open>The ModRM byte: the register field and the operand it names, with its displacement.\<close>

definition decode_modrm :: "bool \<Rightarrow> byte list \<Rightarrow> (byte \<times> operand \<times> byte list) option" where
  "decode_modrm high bs = Option.bind (take_u8 bs) (\<lambda>(b, rest).
     let m = drop_bit 6 b; r = drop_bit 3 b AND 7; rm = b AND 7 in
     if m = 3 then Some (r, OnReg (reg_at high rm), rest)
     else if rm \<noteq> 5 \<or> (m \<noteq> 0 \<and> high) then None
     else if m = 1 then Option.bind (take_u8 rest) (\<lambda>(d, rest1). Some (r, OnRbp (scast d), rest1))
     else if m = 2 then Option.bind (take_u32 rest) (\<lambda>(d, rest1). Some (r, OnRbp d, rest1))
     else Option.bind (take_u32 rest) (\<lambda>(d, rest1). Some (r, OnRip d, rest1)))"

definition decode_opcode :: "bool \<Rightarrow> bool \<Rightarrow> bool \<Rightarrow> byte \<Rightarrow> byte list \<Rightarrow> (insn \<times> byte list) option" where
  "decode_opcode w r b op rest =
     (if op AND 0xF8 = 0x50 then Some (I_push (reg_at b (op AND 7)), rest)
      else if op AND 0xF8 = 0x58 then Some (I_pop (reg_at b (op AND 7)), rest)
      else if op AND 0xF8 = 0xB8 \<and> w then
        Option.bind (take_u64 rest) (\<lambda>(v, rest1). Some (I_mov_ri64 (reg_at b (op AND 7)) v, rest1))
      else if op = 0x89 \<and> w then Option.bind (decode_modrm b rest) (\<lambda>(g, x, rest1). case x of
          OnReg d \<Rightarrow> Some (I_mov_rr d (reg_at r g), rest1)
        | OnRbp d \<Rightarrow> Some (I_store64 (reg_at r g) d, rest1)
        | OnRip d \<Rightarrow> None)
      else if op = 0x8B \<and> w then Option.bind (decode_modrm b rest) (\<lambda>(g, x, rest1). case x of
          OnRbp d \<Rightarrow> Some (I_load64 (reg_at r g) d, rest1) | _ \<Rightarrow> None)
      else if op = 0x8D \<and> w then Option.bind (decode_modrm b rest) (\<lambda>(g, x, rest1). case x of
          OnRbp d \<Rightarrow> Some (I_lea_rbp (reg_at r g) d, rest1)
        | OnRip d \<Rightarrow> Some (I_lea_rip (reg_at r g) d, rest1)
        | OnReg d \<Rightarrow> None)
      else if op = 0xC7 \<and> w then Option.bind (decode_modrm b rest) (\<lambda>(g, x, rest1).
        Option.bind (take_u32 rest1) (\<lambda>(v, rest2). if g \<noteq> 0 then None else case x of
          OnReg d \<Rightarrow> Some (I_mov_ri32 d v, rest2)
        | OnRbp d \<Rightarrow> Some (I_store64i d v, rest2)
        | OnRip d \<Rightarrow> None))
      else if op = 0xC6 then Option.bind (decode_modrm b rest) (\<lambda>(g, x, rest1).
        Option.bind (take_u8 rest1) (\<lambda>(v, rest2). if g \<noteq> 0 then None else case x of
          OnRbp d \<Rightarrow> Some (I_store8i d v, rest2) | _ \<Rightarrow> None))
      else if op = 0x81 \<and> w then Option.bind (decode_modrm b rest) (\<lambda>(g, x, rest1).
        Option.bind (take_u32 rest1) (\<lambda>(v, rest2).
          if x \<noteq> OnReg RSP then None
          else if g = 5 then Some (I_sub_rsp v, rest2)
          else if g = 0 then Some (I_add_rsp v, rest2) else None))
      else if op = 0x31 then Option.bind (decode_modrm b rest) (\<lambda>(g, x, rest1).
        if x = OnReg (reg_at r g) then Some (I_xor_rr (reg_at r g), rest1) else None)
      else if op = 0x88 then Option.bind (decode_modrm b rest) (\<lambda>(g, x, rest1). case x of
          OnRbp d \<Rightarrow> if g = 0 then Some (I_store8_al d, rest1) else None | _ \<Rightarrow> None)
      else if op = 0x84 then Option.bind (take_u8 rest) (\<lambda>(m, rest1).
        if m = 0xC0 then Some (I_test_al, rest1) else None)
      else if op = 0xE9 then Option.bind (take_u32 rest) (\<lambda>(d, rest1). Some (I_jmp d, rest1))
      else if op = 0xE8 then Option.bind (take_u32 rest) (\<lambda>(d, rest1). Some (I_call d, rest1))
      else if op = 0xC3 then Some (I_ret, rest)
      else if op = 0x90 then Some (I_nop, rest)
      else if op = 0x0F then Option.bind (take_u8 rest) (\<lambda>(op2, rest1).
        if op2 = 0xB6 then Option.bind (decode_modrm b rest1) (\<lambda>(g, x, rest2). case x of
            OnRbp d \<Rightarrow> Some (I_load8z (reg_at r g) d, rest2) | _ \<Rightarrow> None)
        else if op2 AND 0xF0 = 0x80 then
          Option.bind (take_u32 rest1) (\<lambda>(d, rest2). Some (I_jcc op2 d, rest2))
        else None)
      else None)"

definition decode_insn :: "byte list \<Rightarrow> (insn \<times> byte list) option" where
  "decode_insn bs =
     (let ((w, r, b), bs1) = decode_rex bs
      in Option.bind (take_u8 bs1) (\<lambda>(op, rest). decode_opcode w r b op rest))"

section \<open>Bytes the assembler appends\<close>

lemma text_emit_u8 [simp]: "img_text (emit_u8 b img) = img_text img @ [b]"
  by (simp add: emit_u8_def)

lemma text_emit_u32 [simp]: "img_text (emit_u32 v img) = img_text img @ le_bytes 4 v"
  by (simp add: emit_u32_def le_bytes_def upt_rec numeral_nat)

lemma text_add_reloc [simp]: "img_text (add_reloc off k n a e img) = img_text img"
  by (simp add: add_reloc_def Let_def need_undef_def add_symbol_def)

lemma text_emit_u64 [simp]: "img_text (emit_u64 v img) = img_text img @ le_bytes 8 v"
proof -
  have "le_bytes 4 (ucast v :: u32) @ le_bytes 4 (ucast (drop_bit 32 v) :: u32) = le_bytes 8 v"
  proof (rule nth_equalityI)
    fix i assume "i < length (le_bytes 4 (ucast v :: u32) @ le_bytes 4 (ucast (drop_bit 32 v) :: u32))"
    then have i: "i < 8" by simp
    show "(le_bytes 4 (ucast v :: u32) @ le_bytes 4 (ucast (drop_bit 32 v) :: u32)) ! i = le_bytes 8 v ! i"
    proof (cases "i < 4")
      case True
      then show ?thesis
        by (auto simp: le_bytes_def nth_append intro!: bit_word_eqI simp: bit_simps)
    next
      case False
      then obtain j where "i = 4 + j" "j < 4" using i by (metis add_less_cancel_left le_Suc_ex not_less numeral_Bit0)
      then show ?thesis
        by (auto simp: le_bytes_def nth_append intro!: bit_word_eqI simp: bit_simps algebra_simps)
    qed
  qed simp
  then show ?thesis by (simp add: emit_u64_def)
qed

lemma take_u32_le [simp]: "take_u32 (le_bytes 4 v @ rest) = Some (v, rest)"
  by (simp add: take_u32_def le_word_le_bytes)

lemma take_u64_le [simp]: "take_u64 (le_bytes 8 v @ rest) = Some (v, rest)"
  by (simp add: take_u64_def le_word_le_bytes)

lemma take_u8_Cons [simp]: "take_u8 (b # rest) = Some (b, rest)"
  by (simp add: take_u8_def)

lemma reg_at_code [simp]: "reg_at (high_reg (reg_u8 r)) (reg_u8 r AND 7) = r"
  by (cases r) (simp_all add: reg_at_def reg_u8_def high_reg_def all_regs_def)

lemma and_7_cases: "(x :: byte) AND 7 \<in> {0, 1, 2, 3, 4, 5, 6, 7}"
proof -
  have "x AND 7 = take_bit 3 x"
    by (simp add: take_bit_eq_mask mask_eq_exp_minus_1)
  then have "unat (x AND 7) = unat x mod 8"
    by (simp add: unsigned_take_bit_eq) (simp add: take_bit_eq_mod)
  then have "unat (x AND 7) \<in> {0, 1, 2, 3, 4, 5, 6, 7}"
    by (auto; presburger)
  then show ?thesis
    by (auto dest!: word_of_nat_eq_iff [THEN iffD2] arg_cong [where f = "word_of_nat :: nat \<Rightarrow> byte"])
qed

lemma modrm_fields:
  fixes r rm :: byte
  assumes "m \<in> {0, 1, 2, 3 :: byte}"
  shows "drop_bit 6 (push_bit 6 m OR push_bit 3 (r AND 7) OR (rm AND 7)) = m"
    "drop_bit 3 (push_bit 6 m OR push_bit 3 (r AND 7) OR (rm AND 7)) AND 7 = r AND 7"
    "(push_bit 6 m OR push_bit 3 (r AND 7) OR (rm AND 7)) AND 7 = rm AND 7"
proof -
  have "drop_bit 6 (push_bit 6 m OR push_bit 3 a OR b) = m \<and>
      drop_bit 3 (push_bit 6 m OR push_bit 3 a OR b) AND 7 = a \<and>
      (push_bit 6 m OR push_bit 3 a OR b) AND 7 = b"
    if "a \<in> {0, 1, 2, 3, 4, 5, 6, 7}" "b \<in> {0, 1, 2, 3, 4, 5, 6, 7}" for a b :: byte
    using assms that by (elim insertE emptyE) simp_all
  from this [OF and_7_cases and_7_cases] show
    "drop_bit 6 (push_bit 6 m OR push_bit 3 (r AND 7) OR (rm AND 7)) = m"
    "drop_bit 3 (push_bit 6 m OR push_bit 3 (r AND 7) OR (rm AND 7)) AND 7 = r AND 7"
    "(push_bit 6 m OR push_bit 3 (r AND 7) OR (rm AND 7)) AND 7 = rm AND 7"
    by blast+
qed


lemma rex_shape:
  "(0x40 OR (if w then 8 else 0) OR (if r then 4 else 0) OR (if b then 1 else 0) :: byte) AND 0xF0 = 0x40"
  "bit (0x40 OR (if w then 8 else 0) OR (if r then 4 else 0) OR (if b then 1 else 0) :: byte) 3 = w"
  "bit (0x40 OR (if w then 8 else 0) OR (if r then 4 else 0) OR (if b then 1 else 0) :: byte) 2 = r"
  "bit (0x40 OR (if w then 8 else 0) OR (if r then 4 else 0) OR (if b then 1 else 0) :: byte) 0 = b"
  by (cases w; cases r; cases b; simp add: bit_iff_odd_drop_bit)+

lemma disp8:
  fixes d :: u32
  assumes "-128 \<le> sint d" "sint d \<le> 127"
  shows "scast (ucast d :: byte) = d"
proof -
  have "sint d \<in> {-128..127}" using assms by simp
  then have "signed_take_bit 7 (sint d) = sint d"
    by (simp add: signed_take_bit_int_eq_self)
  moreover have "sint (ucast d :: byte) = signed_take_bit 7 (sint d)"
    by (rule bit_eqI) (auto simp: bit_simps min_def)
  ultimately have "sint (ucast d :: byte) = sint d" by simp
  then show ?thesis by (simp add: scast_eq)
qed

section \<open>Instructions decode to themselves\<close>

definition rex_byte :: "bool \<Rightarrow> bool \<Rightarrow> bool \<Rightarrow> byte" where
  "rex_byte w r b = 0x40 OR (if w then 8 else 0) OR (if r then 4 else 0) OR (if b then 1 else 0)"

definition modrm_byte :: "byte \<Rightarrow> byte \<Rightarrow> byte \<Rightarrow> byte" where
  "modrm_byte m r rm = push_bit 6 m OR push_bit 3 (r AND 7) OR (rm AND 7)"

definition rbp_bytes :: "byte \<Rightarrow> u32 \<Rightarrow> byte list" where
  "rbp_bytes r d = (if -128 \<le> sint d \<and> sint d \<le> 127 then [modrm_byte 1 r (reg_u8 RBP), ucast d]
     else modrm_byte 2 r (reg_u8 RBP) # le_bytes 4 d)"

lemma modrm_byte_fields [simp]:
  "drop_bit 6 (modrm_byte 0 r rm) = 0" "drop_bit 6 (modrm_byte 1 r rm) = 1"
  "drop_bit 6 (modrm_byte 2 r rm) = 2" "drop_bit 6 (modrm_byte 3 r rm) = 3"
  "drop_bit 3 (modrm_byte 0 r rm) AND 7 = r AND 7" "drop_bit 3 (modrm_byte 1 r rm) AND 7 = r AND 7"
  "drop_bit 3 (modrm_byte 2 r rm) AND 7 = r AND 7" "drop_bit 3 (modrm_byte 3 r rm) AND 7 = r AND 7"
  "modrm_byte 0 r rm AND 7 = rm AND 7" "modrm_byte 1 r rm AND 7 = rm AND 7"
  "modrm_byte 2 r rm AND 7 = rm AND 7" "modrm_byte 3 r rm AND 7 = rm AND 7"
  unfolding modrm_byte_def by (rule modrm_fields; simp)+

lemma text_modrm [simp]: "img_text (modrm m r rm img) = img_text img @ [modrm_byte m r rm]"
  by (simp add: modrm_def modrm_byte_def)

lemma text_rex_w [simp]: "img_text (rex_w r rm img) = img_text img @ [rex_byte True (high_reg r) (high_reg rm)]"
  by (simp add: rex_w_def rex_byte_def)

lemma text_rbp_operand [simp]: "img_text (rbp_operand r d img) = img_text img @ rbp_bytes r d"
  by (simp add: rbp_operand_def rbp_bytes_def)

lemma rex_bytes:
  "(0x48 OR (if b then 1 else 0) :: byte) = rex_byte True False b"
  "(0x48 OR (if b then 4 else 0) :: byte) = rex_byte True b False"
  "(0x41 :: byte) = rex_byte False False True"
  "(0x44 :: byte) = rex_byte False True False"
  "(0x45 :: byte) = rex_byte False True True"
  by (simp_all add: rex_byte_def)

lemma decode_rex_byte [simp]: "decode_rex (rex_byte w r b # rest) = ((w, r, b), rest)"
  unfolding decode_rex_def rex_byte_def by (simp only: list.case rex_shape simp_thms if_True)

lemma reg_RBP [simp]: "high_reg (reg_u8 RBP) = False" "reg_u8 RBP AND 7 = 5"
  by (simp_all add: reg_u8_def high_reg_def)

lemma reg_RAX [simp]: "reg_u8 RAX AND 7 = 0"
  by (simp add: reg_u8_def)

lemma reg_RSP [simp]: "high_reg (reg_u8 RSP) = False"
  by (simp add: reg_u8_def high_reg_def)

lemma reg_at_low [simp]: "reg_at False (reg_u8 RSP AND 7) = RSP"
  using reg_at_code [of RSP] by simp

lemma high_reg_0 [simp]: "high_reg 0 = False"
  by (simp add: high_reg_def)

lemma decode_modrm_reg [simp]:
  "decode_modrm high (modrm_byte 3 r rm # rest) = Some (r AND 7, OnReg (reg_at high (rm AND 7)), rest)"
  by (simp add: decode_modrm_def Let_def)

lemma decode_modrm_rbp [simp]:
  "decode_modrm False (rbp_bytes r d @ rest) = Some (r AND 7, OnRbp d, rest)"
  by (simp add: decode_modrm_def rbp_bytes_def Let_def disp8)

lemma decode_modrm_rip [simp]:
  "decode_modrm False (modrm_byte 0 r 5 # le_bytes 4 d @ rest) = Some (r AND 7, OnRip d, rest)"
  by (simp add: decode_modrm_def Let_def)

lemma opcode_with_reg:
  "(0x50 + (reg_u8 r AND 7)) AND 0xF8 = 0x50" "(0x50 + (reg_u8 r AND 7)) AND 7 = reg_u8 r AND 7"
  "(0x50 + (reg_u8 r AND 7)) AND 0xF0 \<noteq> 0x40"
  "(0x58 + (reg_u8 r AND 7)) AND 0xF8 = 0x58" "(0x58 + (reg_u8 r AND 7)) AND 7 = reg_u8 r AND 7"
  "(0x58 + (reg_u8 r AND 7)) AND 0xF0 \<noteq> 0x40"
  "(0xB8 + (reg_u8 r AND 7)) AND 0xF8 = 0xB8" "(0xB8 + (reg_u8 r AND 7)) AND 7 = reg_u8 r AND 7"
  by (cases r; simp add: reg_u8_def)+

lemma reg_u8_pop: "high_reg (reg_u8 r) \<Longrightarrow> reg_at True (reg_u8 r AND 7) = r"
  "\<not> high_reg (reg_u8 r) \<Longrightarrow> reg_at False (reg_u8 r AND 7) = r"
  using reg_at_code [of r] by simp_all

lemma decode_prefixed:
  "decode_insn (rex_byte w r b # op # rest) = decode_opcode w r b op rest"
  by (simp add: decode_insn_def)

lemma decode_plain:
  "op AND 0xF0 \<noteq> 0x40 \<Longrightarrow> decode_insn (op # rest) = decode_opcode False False False op rest"
  by (simp add: decode_insn_def decode_rex_def)

text \<open>The bytes of an instruction, gathered from the assembler's steps.\<close>

definition insn_bytes :: "insn \<Rightarrow> byte list" where
  "insn_bytes i = (case i of
     I_push r \<Rightarrow> (if high_reg (reg_u8 r) then [rex_byte False False True] else []) @ [0x50 + (reg_u8 r AND 7)]
   | I_pop r \<Rightarrow> (if high_reg (reg_u8 r) then [rex_byte False False True] else []) @ [0x58 + (reg_u8 r AND 7)]
   | I_mov_rr d s \<Rightarrow> [rex_byte True (high_reg (reg_u8 s)) (high_reg (reg_u8 d)), 0x89,
       modrm_byte 3 (reg_u8 s) (reg_u8 d)]
   | I_mov_ri64 r v \<Rightarrow> [rex_byte True False (high_reg (reg_u8 r)), 0xB8 + (reg_u8 r AND 7)] @ le_bytes 8 v
   | I_mov_ri32 r v \<Rightarrow> [rex_byte True False (high_reg (reg_u8 r)), 0xC7, modrm_byte 3 0 (reg_u8 r)] @ le_bytes 4 v
   | I_xor_rr r \<Rightarrow> (if high_reg (reg_u8 r) then [rex_byte False True True] else []) @
       [0x31, modrm_byte 3 (reg_u8 r) (reg_u8 r)]
   | I_sub_rsp v \<Rightarrow> [rex_byte True False False, 0x81, modrm_byte 3 5 (reg_u8 RSP)] @ le_bytes 4 v
   | I_add_rsp v \<Rightarrow> [rex_byte True False False, 0x81, modrm_byte 3 0 (reg_u8 RSP)] @ le_bytes 4 v
   | I_lea_rbp r d \<Rightarrow> [rex_byte True (high_reg (reg_u8 r)) False, 0x8D] @ rbp_bytes (reg_u8 r) d
   | I_store64 r d \<Rightarrow> [rex_byte True (high_reg (reg_u8 r)) False, 0x89] @ rbp_bytes (reg_u8 r) d
   | I_load64 r d \<Rightarrow> [rex_byte True (high_reg (reg_u8 r)) False, 0x8B] @ rbp_bytes (reg_u8 r) d
   | I_load8z r d \<Rightarrow> (if high_reg (reg_u8 r) then [rex_byte False True False] else []) @
       [0x0F, 0xB6] @ rbp_bytes (reg_u8 r) d
   | I_store8_al d \<Rightarrow> [0x88] @ rbp_bytes (reg_u8 RAX) d
   | I_store8i d v \<Rightarrow> [0xC6] @ rbp_bytes 0 d @ [v]
   | I_store64i d v \<Rightarrow> [rex_byte True False False, 0xC7] @ rbp_bytes 0 d @ le_bytes 4 v
   | I_test_al \<Rightarrow> [0x84, 0xC0]
   | I_jmp d \<Rightarrow> 0xE9 # le_bytes 4 (0 :: u32)
   | I_jcc c d \<Rightarrow> [0x0F, c] @ le_bytes 4 (0 :: u32)
   | I_call d \<Rightarrow> 0xE8 # le_bytes 4 (0 :: u32)
   | I_ret \<Rightarrow> [0xC3]
   | I_nop \<Rightarrow> [0x90]
   | I_lea_rip r d \<Rightarrow> [rex_byte True (high_reg (reg_u8 r)) False, 0x8D, modrm_byte 0 (reg_u8 r) 5] @
       le_bytes 4 (0 :: u32))"

lemma lea_rip_modrm: "(0x05 OR push_bit 3 (reg_u8 r AND 7) :: byte) = modrm_byte 0 (reg_u8 r) 5"
  by (simp add: modrm_byte_def or.commute)

lemma text_x64_emit [simp]: "img_text (x64_emit i img) = img_text img @ insn_bytes i"
proof (cases i)
  case (I_mov_ri64 r v)
  then show ?thesis using rex_bytes(1) [of "high_reg (reg_u8 r)"]
    by (simp add: x64_emit_def insn_bytes_def mov_ri64_def del: if_distrib)
next
  case (I_lea_rip r v)
  then show ?thesis using rex_bytes(2) [of "high_reg (reg_u8 r)"]
    by (simp add: x64_emit_def insn_bytes_def lea_rip_symbol_def Let_def lea_rip_modrm [simplified])
qed (simp_all add: x64_emit_def insn_bytes_def x64_push_def x64_pop_def mov_rr_def mov_ri32_def xor_rr_def
    sub_rsp_def add_rsp_def lea_rbp_def store64_rbp_def load64_rbp_def load8z_rbp_def store8_al_rbp_def
    store8i_rbp_def store64i_rbp_def test_al_def jmp_rel32_def jcc_rel32_def call_local_def x64_ret_def
    x64_nop_def Let_def rex_bytes)

definition unlinked :: "insn \<Rightarrow> insn" where
  "unlinked i = (case i of I_jmp d \<Rightarrow> I_jmp 0 | I_jcc c d \<Rightarrow> I_jcc c 0 | I_call d \<Rightarrow> I_call 0
     | I_lea_rip r d \<Rightarrow> I_lea_rip r 0 | _ \<Rightarrow> i)"

definition encodable :: "insn \<Rightarrow> bool" where
  "encodable i = (case i of I_jcc c d \<Rightarrow> c AND 0xF0 = 0x80 | _ \<Rightarrow> True)"

lemma decode_insn_bytes:
  assumes "encodable i"
  shows "decode_insn (insn_bytes i @ rest) = Some (unlinked i, rest)"
proof (cases i)
  case (I_jcc c d)
  with assms have "c AND 0xF0 = 0x80" by (simp add: encodable_def)
  moreover from this have "c \<noteq> 0xB6" by auto
  ultimately show ?thesis using I_jcc
    by (simp add: insn_bytes_def unlinked_def decode_plain decode_opcode_def)
qed (simp_all add: insn_bytes_def unlinked_def decode_prefixed decode_plain decode_opcode_def opcode_with_reg
    reg_u8_pop)

section \<open>Whole programs\<close>

fun disassemble :: "nat \<Rightarrow> byte list \<Rightarrow> insn list option" where
  "disassemble n [] = Some []"
| "disassemble 0 (b # bs) = None"
| "disassemble (Suc n) (b # bs) = Option.bind (decode_insn (b # bs))
     (\<lambda>(i, rest). map_option ((#) i) (disassemble n rest))"

lemma insn_bytes_nonempty: "encodable i \<Longrightarrow> insn_bytes i \<noteq> []"
  using decode_insn_bytes [of i "[]"] by (auto simp: decode_insn_def decode_rex_def take_u8_def)

lemma disassemble_step:
  "encodable i \<Longrightarrow> disassemble (Suc n) (insn_bytes i @ rest) = map_option ((#) (unlinked i)) (disassemble n rest)"
  using insn_bytes_nonempty [of i] decode_insn_bytes [of i rest]
  by (cases "insn_bytes i") auto

lemma disassemble_bytes:
  "list_all encodable is \<Longrightarrow> disassemble (length is) (concat (map insn_bytes is)) = Some (map unlinked is)"
  by (induction "is") (simp_all add: disassemble_step)

lemma text_fold_emit:
  "img_text (fold x64_emit is img) = img_text img @ concat (map insn_bytes is)"
  by (induction "is" arbitrary: img) simp_all

text \<open>
  C8. Whatever sequence of instructions the assembler appends to an empty image, reading the text back by the
  instruction format gives that sequence: operands, displacements and immediates included, with the
  still unlinked displacements of jumps, calls and addresses zero. The condition of a conditional
  jump must be one of the sixteen second opcode bytes.
\<close>

theorem assembled_code_reads_back:
  assumes "list_all encodable is"
  shows "disassemble (length is) (img_text (fold x64_emit is (new_image arch fmt))) = Some (map unlinked is)"
  using disassemble_bytes [OF assms] by (simp add: text_fold_emit new_image_def)

theorem assembled_code_reads_back_witness:
  "disassemble 4 (img_text (fold x64_emit [I_push RBP, I_load64 R12 (-16), I_jcc 0x84 7, I_mov_ri64 R9 (2 ^ 40)]
     (new_image ArchX86_64 FormatElf64))) =
   Some [I_push RBP, I_load64 R12 (-16), I_jcc 0x84 0, I_mov_ri64 R9 (2 ^ 40)]"
  using assembled_code_reads_back
    [of "[I_push RBP, I_load64 R12 (-16), I_jcc 0x84 7, I_mov_ri64 R9 (2 ^ 40)]" ArchX86_64 FormatElf64]
  by (simp add: encodable_def unlinked_def numeral_nat)

section \<open>Patched jumps\<close>

lemma patch_rel32_text:
  fixes v :: u32
  assumes "img_text img = pre @ le_bytes 4 v @ bs"
  shows "img_text (patch_rel32 (length pre) target img) =
    pre @ le_bytes 4 (word_of_nat target - word_of_nat (length pre + 4) :: u32) @ bs"
proof -
  have le: "le_bytes 4 r = [ucast r, ucast (drop_bit 8 r), ucast (drop_bit 16 r), ucast (drop_bit 24 r)]" for r :: u32
    by (simp add: le_bytes_def upt_rec numeral_nat)
  have update: "(le_bytes 4 v)[0 := a, Suc 0 := b, 2 := c, 3 := d] = [a, b, c, d]" for a b c d
    by (simp only: le) (simp add: numeral_2_eq_2 numeral_3_eq_3)
  show ?thesis
    using assms update by (simp add: patch_rel32_def Let_def list_update_append) (simp add: le)
qed

lemma rel32_reaches:
  assumes "target < 2 ^ 31" "after < 2 ^ 31"
  shows "int after + sint (word_of_nat target - word_of_nat after :: u32) = int target"
proof -
  have "(word_of_nat target - word_of_nat after :: u32) = word_of_int (int target - int after)"
    by simp
  moreover have "sint (word_of_int (int target - int after) :: u32) = int target - int after"
    unfolding sint_sbintrunc' using assms by (intro signed_take_bit_int_eq_self) simp_all
  ultimately show ?thesis by simp
qed

definition jump_read_at :: "byte list \<Rightarrow> byte list \<Rightarrow> (u32 \<Rightarrow> insn) \<Rightarrow> byte list \<Rightarrow> nat \<Rightarrow> byte list \<Rightarrow> bool" where
  "jump_read_at before op jump after target bs \<longleftrightarrow> (\<exists>d. bs = before @ op @ le_bytes 4 d @ after \<and>
     decode_insn (op @ le_bytes 4 d @ after) = Some (jump d, after) \<and>
     int (length before + length op + 4) + sint d = int target)"

lemma patched_at:
  assumes img: "img_text img = before @ op @ le_bytes 4 (0 :: u32) @ after"
    and size: "length (img_text img) < 2 ^ 31" "target < 2 ^ 31"
    and op: "\<And>d. decode_insn (op @ le_bytes 4 d @ after) = Some (jump d, after)"
  shows "jump_read_at before op jump after target
    (img_text (patch_rel32 (u32_cast (length before + length op)) target img))"
proof -
  have short: "length before + length op + 4 < 2 ^ 31" using img size by simp
  then have off: "u32_cast (length before + length op) = length (before @ op)"
    by (simp add: u32_cast_def)
  have "img_text (patch_rel32 (length (before @ op)) target img) = before @ op @
      le_bytes 4 (word_of_nat target - word_of_nat (length before + length op + 4) :: u32) @ after"
    using patch_rel32_text [of img "before @ op" 0 after target] img by simp
  then show ?thesis
    unfolding jump_read_at_def off using op rel32_reaches [OF size(2) short] by blast
qed

text \<open>
  C18. A jump lands where it is patched to: with less than two gigabytes of text, patching the offset
  that \<open>jmp_rel32\<close> or \<open>jcc_rel32\<close> returned, whatever was emitted since, leaves every other byte of
  the text as it was, and the instruction read at the jump's address has the displacement that, added
  to the address of the next instruction, is the target.
\<close>

theorem patched_jumps_land:
  assumes "length (img_text img2) < 2 ^ 31" "target < 2 ^ 31"
  shows "(img_text img2 = img_text (snd (jmp_rel32 img)) @ bs \<longrightarrow>
      jump_read_at (img_text img) [0xE9] I_jmp bs target
        (img_text (patch_rel32 (fst (jmp_rel32 img)) target img2))) \<and>
    (img_text img2 = img_text (snd (jcc_rel32 c img)) @ bs \<and> c AND 0xF0 = 0x80 \<longrightarrow>
      jump_read_at (img_text img) [0x0F, c] (I_jcc c) bs target
        (img_text (patch_rel32 (fst (jcc_rel32 c img)) target img2)))"
proof (intro conjI impI)
  assume "img_text img2 = img_text (snd (jmp_rel32 img)) @ bs"
  then have "img_text img2 = img_text img @ [0xE9] @ le_bytes 4 (0 :: u32) @ bs"
    by (simp add: jmp_rel32_def Let_def)
  moreover have "decode_insn ([0xE9] @ le_bytes 4 d @ bs) = Some (I_jmp d, bs)" for d
    by (simp add: decode_plain decode_opcode_def)
  ultimately show "jump_read_at (img_text img) [0xE9] I_jmp bs target
      (img_text (patch_rel32 (fst (jmp_rel32 img)) target img2))"
    using patched_at [of img2 "img_text img" "[0xE9]" bs target I_jmp] assms
    by (simp add: jmp_rel32_def Let_def text_size_def)
next
  assume "img_text img2 = img_text (snd (jcc_rel32 c img)) @ bs \<and> c AND 0xF0 = 0x80"
  then have "img_text img2 = img_text img @ [0x0F, c] @ le_bytes 4 (0 :: u32) @ bs" and c: "c AND 0xF0 = 0x80"
    by (simp_all add: jcc_rel32_def Let_def)
  moreover have "decode_insn ([0x0F, c] @ le_bytes 4 d @ bs) = Some (I_jcc c d, bs)" for d
  proof -
    have "c \<noteq> 0xB6" using c by auto
    then show ?thesis using c by (simp add: decode_plain decode_opcode_def)
  qed
  ultimately show "jump_read_at (img_text img) [0x0F, c] (I_jcc c) bs target
      (img_text (patch_rel32 (fst (jcc_rel32 c img)) target img2))"
    using patched_at [of img2 "img_text img" "[0x0F, c]" bs target "I_jcc c"] assms
    by (simp add: jcc_rel32_def Let_def text_size_def)
qed

theorem patched_jumps_land_witness:
  "jump_read_at [0x90] [0x0F, 0x84] (I_jcc 0x84) [0xC3] 0
     (img_text (patch_rel32 3 0 (x64_ret (snd (jcc_rel32 0x84 (x64_nop (new_image ArchX86_64 FormatElf64)))))))"
  using patched_jumps_land
    [of "x64_ret (snd (jcc_rel32 0x84 (x64_nop (new_image ArchX86_64 FormatElf64))))" 0
      "x64_nop (new_image ArchX86_64 FormatElf64)" "[0xC3]" "0x84"]
  by (simp add: x64_ret_def x64_nop_def new_image_def jcc_rel32_def Let_def text_size_def u32_cast_def)

end
