(* ===== verification/Ast.thy ===== *)
theory Ast
  imports Compile_Errors
begin

text \<open>
  The syntax tree of \<open>include/ast.hpp\<close>. A node carries the location of its first token, its
  discriminator and variant payload are the constructor, and a \<open>unique_ptr\<close> to an expression that holds
  no node is \<open>NullExpr\<close>. A \<open>long double\<close> literal keeps its text, as its token does.
\<close>

section \<open>Locations and types\<close>

record source_loc =
  loc_file :: string
  loc_line :: int
  loc_column :: int

definition no_loc :: source_loc where
  "no_loc = \<lparr>loc_file = [], loc_line = 0, loc_column = 0\<rparr>"

datatype (plugins only: code) primitive_kind =
  PrimInt | PrimFloat | PrimBool | PrimString | PrimCharacter | PrimVoid | PrimSocket | PrimFile
| PrimTerm | PrimException

datatype type_node =
  PrimitiveType source_loc primitive_kind
| NamedType source_loc string
| ArrayType source_loc type_node
| TupleType source_loc "type_node list"
| MapType source_loc type_node type_node
| LambdaType source_loc "type_node list" type_node

record parameter =
  param_loc :: source_loc
  param_name :: string
  param_type :: type_node

section \<open>Expressions and statements\<close>

datatype (plugins only: code) binary_op =
  OpAdd | OpSub | OpMul | OpDiv | OpMod | OpEq | OpNe | OpLt | OpGt | OpLe | OpGe | OpAnd | OpOr
| OpBitwiseAnd | OpBitwiseOr | OpBitwiseXor

datatype (plugins only: code) unary_op = OpNot | OpBitwiseNot | OpNeg

datatype (plugins only: code) assign_op = Assign | AddAssign

datatype (plugins only: code) branch_hint = NoHint | Likely | Unlikely

record bind_target =
  target_loc :: source_loc
  target_discard :: bool
  target_name :: string

datatype (plugins only: code size) expr =
  NullExpr
| IntLiteral source_loc int
| FloatLiteral source_loc string
| StringLiteral source_loc string
| CharLiteral source_loc char
| BoolLiteral source_loc bool
| NullLiteral source_loc
| RegexLiteral source_loc string
| Identifier source_loc string
| Binary source_loc binary_op expr expr
| Unary source_loc unary_op expr
| Call source_loc expr "type_node list" "expr list"
| Member source_loc expr string source_loc
| EnumAccess source_loc string string source_loc source_loc
| Index source_loc expr expr
| ArrayLiteral source_loc "expr list"
| TypedArrayLiteral source_loc type_node "expr list"
| TupleLiteral source_loc "expr list"
| PipeInsert source_loc expr string
| PipeExtract source_loc string
| ChannelInsert source_loc expr string
| ChannelExtract source_loc string
| Cast source_loc type_node expr
| Alloc source_loc expr "expr list"
| Free source_loc string
| Simd source_loc expr
| Lambda source_loc "parameter list" type_node block
| MapLiteral source_loc type_node type_node "(expr \<times> expr) list"
| MapEntriesLiteral source_loc "(expr \<times> expr) list"
and stmt =
  Assignment source_loc "bind_target list" assign_op expr
| ExprStmt source_loc expr
| Return source_loc "expr option"
| Break source_loc
| BlockStmt source_loc block
| If source_loc if_branch "if_branch list" "block option"
| Loop source_loc "expr option" block
| Match source_loc expr "match_case list"
| FuncDecl source_loc string "string list" "parameter list" type_node block source_loc
| EnumDecl source_loc string "string list" source_loc
| ObjectDecl source_loc string "object_field list" bool source_loc
| Monitor source_loc block string type_node block
| Lock source_loc string
| Acquire source_loc string
| Release source_loc string
| LoadPackage source_loc source_loc string
| Insert source_loc string expr expr
| ReflectFor source_loc string expr block
| TypeidMatch source_loc expr "typeid_match_case list"
and block = Block source_loc "stmt list"
and if_branch = IfBranch expr block branch_hint
and match_case = MatchCase source_loc string string block
and typeid_match_case = TypeidMatchCase source_loc bool string expr
and object_field = ObjectField source_loc string type_node expr

text \<open>The source's name for a node of a statement.\<close>

type_synonym stmt_node = stmt

record load_package_stmt =
  import_loc :: source_loc
  import_package :: string

record program =
  package_loc :: source_loc
  package_name :: string
  program_imports :: "load_package_stmt list"
  program_statements :: "stmt_node list"

text \<open>\<open>node->loc\<close> of an expression; there is none behind a null pointer.\<close>

fun expr_loc :: "expr \<Rightarrow> source_loc option" where
  "expr_loc NullExpr = None"
| "expr_loc (IntLiteral l _) = Some l"
| "expr_loc (FloatLiteral l _) = Some l"
| "expr_loc (StringLiteral l _) = Some l"
| "expr_loc (CharLiteral l _) = Some l"
| "expr_loc (BoolLiteral l _) = Some l"
| "expr_loc (NullLiteral l) = Some l"
| "expr_loc (RegexLiteral l _) = Some l"
| "expr_loc (Identifier l _) = Some l"
| "expr_loc (Binary l _ _ _) = Some l"
| "expr_loc (Unary l _ _) = Some l"
| "expr_loc (Call l _ _ _) = Some l"
| "expr_loc (Member l _ _ _) = Some l"
| "expr_loc (EnumAccess l _ _ _ _) = Some l"
| "expr_loc (Index l _ _) = Some l"
| "expr_loc (ArrayLiteral l _) = Some l"
| "expr_loc (TypedArrayLiteral l _ _) = Some l"
| "expr_loc (TupleLiteral l _) = Some l"
| "expr_loc (PipeInsert l _ _) = Some l"
| "expr_loc (PipeExtract l _) = Some l"
| "expr_loc (ChannelInsert l _ _) = Some l"
| "expr_loc (ChannelExtract l _) = Some l"
| "expr_loc (Cast l _ _) = Some l"
| "expr_loc (Alloc l _ _) = Some l"
| "expr_loc (Free l _) = Some l"
| "expr_loc (Simd l _) = Some l"
| "expr_loc (Lambda l _ _ _) = Some l"
| "expr_loc (MapLiteral l _ _ _) = Some l"
| "expr_loc (MapEntriesLiteral l _) = Some l"

lemma expr_loc_None [simp]: "expr_loc e = None \<longleftrightarrow> e = NullExpr"
  by (cases e) simp_all

end
