(* ===== verification/Parse_Core.thy ===== *)
theory Parse_Core
  imports Lexer Ast
begin

text \<open>
  The state of the parser (\<open>include/parser.hpp\<close>): the tokens, the index of the lookahead token and the
  active compile context, with the small functions that read and consume tokens. A routine of the
  parser is a function on this state. It returns a value, or it crashes: it reads outside the tokens,
  takes the wrong alternative of a token's payload or follows a null pointer. A loop that may run
  forever is given fuel and reports that it ran out. Errors are recorded in the context and the
  parser goes on.
\<close>

section \<open>Parsing with a state\<close>

record parser =
  p_tokens :: "token list"
  p_pos :: nat
  p_path :: string
  p_recover :: bool
  p_context :: compile_context

datatype 'a presult = Done 'a parser | Crashed parser | OutOfFuel parser

type_synonym 'a parsing = "parser \<Rightarrow> 'a presult"

definition returns :: "'a \<Rightarrow> 'a parsing" where
  "returns x s = Done x s"

definition crash :: "'a parsing" where
  "crash s = Crashed s"

definition out_of_fuel :: "'a parsing" where
  "out_of_fuel s = OutOfFuel s"

definition bindp :: "'a parsing \<Rightarrow> ('a \<Rightarrow> 'b parsing) \<Rightarrow> 'b parsing" where
  "bindp m f s = (case m s of Done x s' \<Rightarrow> f x s' | Crashed s' \<Rightarrow> Crashed s' | OutOfFuel s' \<Rightarrow> OutOfFuel s')"

definition thenp :: "'a parsing \<Rightarrow> 'b parsing \<Rightarrow> 'b parsing" where
  "thenp m k = bindp m (\<lambda>_. k)"

definition ifp :: "bool parsing \<Rightarrow> 'a parsing \<Rightarrow> 'a parsing \<Rightarrow> 'a parsing" where
  "ifp c a b = bindp c (\<lambda>x. if x then a else b)"

section \<open>Tokens\<close>

definition cur_token :: "token parsing" where
  "cur_token s = (if p_pos s < length (p_tokens s) then Done (p_tokens s ! p_pos s) s else Crashed s)"

definition prev_token :: "token parsing" where
  "prev_token s =
     (if 0 < p_pos s \<and> p_pos s \<le> length (p_tokens s) then Done (p_tokens s ! (p_pos s - 1)) s else Crashed s)"

definition at_end :: "bool parsing" where
  "at_end = bindp cur_token (\<lambda>t. returns (token_kind t = END))"

definition text_of :: "token \<Rightarrow> string" where
  "text_of t = (case token_value t of TextP x \<Rightarrow> x | _ \<Rightarrow> [])"

definition loc_of :: "token \<Rightarrow> source_loc parsing" where
  "loc_of t s = Done \<lparr>loc_file = p_path s, loc_line = token_line t, loc_column = token_column t\<rparr> s"

definition here :: "source_loc parsing" where
  "here = bindp cur_token loc_of"

definition prev_loc :: "source_loc parsing" where
  "prev_loc = bindp prev_token loc_of"

definition check_token :: "token_type \<Rightarrow> bool parsing" where
  "check_token kind = bindp cur_token (\<lambda>t. returns (token_kind t \<noteq> END \<and> token_kind t = kind))"

definition check_kw :: "string \<Rightarrow> bool parsing" where
  "check_kw kw = bindp cur_token (\<lambda>t. returns (token_kind t = KEYWORD \<and> text_of t = kw))"

definition check_name :: "bool parsing" where
  "check_name = bindp cur_token (\<lambda>t. returns (token_kind t = SYMBOL \<or> token_kind t = KEYWORD))"

definition get_pos :: "nat parsing" where
  "get_pos s = Done (p_pos s) s"

definition set_pos :: "nat \<Rightarrow> unit parsing" where
  "set_pos n s = Done () (s\<lparr>p_pos := n\<rparr>)"

definition advance_token :: "token parsing" where
  "advance_token = ifp at_end prev_token
     (bindp get_pos (\<lambda>n. thenp (set_pos (n + 1)) prev_token))"

definition match_token :: "token_type \<Rightarrow> bool parsing" where
  "match_token kind = ifp (check_token kind) (thenp advance_token (returns True)) (returns False)"

definition match_kw :: "string \<Rightarrow> bool parsing" where
  "match_kw kw = ifp (check_kw kw) (thenp advance_token (returns True)) (returns False)"

definition error_at :: "token \<Rightarrow> string \<Rightarrow> unit parsing" where
  "error_at t msg s = Done () (s\<lparr>p_context := ctx_report
     (span_report SeverityError (p_path s) (token_line t) (token_column t) msg 0) (p_context s)\<rparr>)"

definition error_here :: "string \<Rightarrow> unit parsing" where
  "error_here msg = bindp cur_token (\<lambda>t. error_at t msg)"

definition expect_token :: "token_type \<Rightarrow> string \<Rightarrow> token parsing" where
  "expect_token kind msg = ifp (check_token kind) advance_token (thenp (error_here msg) cur_token)"

definition expect_kw :: "string \<Rightarrow> unit parsing" where
  "expect_kw kw = ifp (match_kw kw) (returns ()) (error_here (''expected `'' @ kw @ ''`''))"

definition expect_name :: "string parsing" where
  "expect_name = ifp check_name (bindp advance_token (\<lambda>t. returns (text_of t)))
     (thenp (error_here ''expected identifier'') (returns []))"

definition boundary_keywords :: "string list" where
  "boundary_keywords = [''func'', ''enum'', ''object'', ''trait'', ''if'', ''loop'', ''match'', ''monitor'',
     ''lock'', ''return'', ''break'', ''join'']"

definition at_boundary :: "bool parsing" where
  "at_boundary = bindp cur_token (\<lambda>t. returns (token_kind t = KEYWORD \<and> text_of t \<in> set boundary_keywords))"

text \<open>The loop of \<open>synchronize\<close>; every turn but the last steps over a token.\<close>

primrec synchronize :: "nat \<Rightarrow> unit parsing" where
  "synchronize 0 = out_of_fuel"
| "synchronize (Suc n) =
     ifp at_end (returns ())
      (ifp (check_token SEMICOLON) (thenp advance_token (returns ()))
        (ifp (check_token RBRACE) (returns ())
          (ifp at_boundary (returns ()) (thenp advance_token (synchronize n)))))"

text \<open>
  \<open>do { items.push_back(item) } while (match(COMMA))\<close>, and the same after a test for the closing token of
  an empty list.
\<close>

primrec comma_list :: "nat \<Rightarrow> 'a parsing \<Rightarrow> 'a list parsing" where
  "comma_list 0 item = out_of_fuel"
| "comma_list (Suc n) item =
     bindp item (\<lambda>x. ifp (match_token COMMA)
       (bindp (comma_list n item) (\<lambda>xs. returns (x # xs)))
       (returns [x]))"

definition list_until :: "token_type \<Rightarrow> nat \<Rightarrow> 'a parsing \<Rightarrow> 'a list parsing" where
  "list_until close n item = ifp (check_token close) (returns []) (comma_list n item)"

text \<open>\<open>node->loc\<close>: following a null pointer crashes.\<close>

definition node_loc :: "expr \<Rightarrow> source_loc parsing" where
  "node_loc e = (case expr_loc e of None \<Rightarrow> crash | Some l \<Rightarrow> returns l)"

end
