(* ===== verification/Parser.thy ===== *)
theory Parser
  imports Parse_Core
begin

text \<open>
  The recursive-descent parser (\<open>include/parser.hpp\<close>), one definition per method. A method that other
  methods call recursively takes the parsers it calls as arguments; \<open>parse_type\<close>, \<open>parse_expression\<close> and
  \<open>parse_statement\<close> tie the knot, each level of recursion spending one unit of fuel. Loops take the same
  fuel. Messages of \<open>expect\<close> are the code's.
\<close>

section \<open>Types\<close>

definition primitive_named :: "string \<Rightarrow> primitive_kind option" where
  "primitive_named name = map_of
     [(''int'', PrimInt), (''float'', PrimFloat), (''bool'', PrimBool), (''string'', PrimString),
      (''character'', PrimCharacter), (''void'', PrimVoid), (''socket'', PrimSocket), (''file'', PrimFile),
      (''term'', PrimTerm), (''exception'', PrimException)] name"

definition tuple_type :: "nat \<Rightarrow> type_node parsing \<Rightarrow> type_node parsing" where
  "tuple_type n ptype =
     bindp here (\<lambda>l. thenp advance_token
      (thenp (expect_token LBRACKET ''expected `[` after `tuple`'')
        (bindp (list_until RBRACKET n ptype) (\<lambda>elements.
          thenp (expect_token RBRACKET ''expected `]` after tuple type'')
            (returns (TupleType l elements))))))"

definition map_type :: "type_node parsing \<Rightarrow> type_node parsing" where
  "map_type ptype =
     bindp here (\<lambda>l. thenp advance_token
      (thenp (expect_token LBRACKET ''expected `[` after `map`'')
        (bindp ptype (\<lambda>key.
          thenp (expect_token ARROW ''expected `=>` in map type'')
            (bindp ptype (\<lambda>val.
              thenp (expect_token RBRACKET ''expected `]` after map type'')
                (returns (MapType l key val))))))))"

definition array_type :: "type_node parsing \<Rightarrow> type_node parsing" where
  "array_type ptype =
     bindp here (\<lambda>l. thenp advance_token
      (bindp ptype (\<lambda>element.
        thenp (expect_token RBRACKET ''expected `]` after array type'')
          (returns (ArrayType l element)))))"

definition lambda_type :: "nat \<Rightarrow> source_loc \<Rightarrow> type_node parsing \<Rightarrow> type_node parsing" where
  "lambda_type n l ptype =
     thenp (expect_token LBRACKET ''expected `[` after `Lambda`'')
      (thenp (expect_token LBRACE ''expected `{` after `Lambda[`'')
        (bindp (list_until RBRACE n ptype) (\<lambda>params.
          thenp (expect_token RBRACE ''expected `}` in Lambda parameter list'')
            (thenp (expect_token ARROW ''expected `=>` in Lambda type'')
              (bindp ptype (\<lambda>ret.
                thenp (expect_token RBRACKET ''expected `]` after Lambda type'')
                  (returns (LambdaType l params ret))))))))"

definition type_body :: "nat \<Rightarrow> type_node parsing \<Rightarrow> type_node parsing" where
  "type_body n ptype =
     ifp (check_kw ''tuple'') (tuple_type n ptype)
      (ifp (check_kw ''map'') (map_type ptype)
        (ifp (check_token LBRACKET) (array_type ptype)
          (bindp here (\<lambda>l. bindp expect_name (\<lambda>name.
            if name = ''Lambda'' then lambda_type n l ptype
            else case primitive_named name of
              Some kind \<Rightarrow> returns (PrimitiveType l kind)
            | None \<Rightarrow> returns (NamedType l name))))))"

primrec parse_type :: "nat \<Rightarrow> type_node parsing" where
  "parse_type 0 = out_of_fuel"
| "parse_type (Suc n) = type_body n (parse_type n)"

definition parse_param :: "nat \<Rightarrow> parameter parsing" where
  "parse_param n =
     bindp here (\<lambda>l. bindp expect_name (\<lambda>name.
      thenp (expect_token COLON ''expected `:` after parameter name'')
        (bindp (parse_type n) (\<lambda>ty.
          returns \<lparr>param_loc = l, param_name = name, param_type = ty\<rparr>))))"

definition parse_params :: "nat \<Rightarrow> parameter list parsing" where
  "parse_params n = list_until RPAREN n (parse_param n)"

section \<open>Operators\<close>

text \<open>\<open>left->loc\<close> is read after the right operand has been parsed.\<close>

definition make_binary :: "binary_op \<Rightarrow> expr \<Rightarrow> expr \<Rightarrow> expr parsing" where
  "make_binary op left right = bindp (node_loc left) (\<lambda>l. returns (Binary l op left right))"

text \<open>The first of the given operators that matches the lookahead token.\<close>

fun match_operator :: "(token_type \<times> binary_op) list \<Rightarrow> binary_op option parsing" where
  "match_operator [] = returns None"
| "match_operator ((kind, op) # ops) = ifp (match_token kind) (returns (Some op)) (match_operator ops)"

primrec binary_loop :: "nat \<Rightarrow> (token_type \<times> binary_op) list \<Rightarrow> expr parsing \<Rightarrow> expr \<Rightarrow> expr parsing" where
  "binary_loop 0 ops operand left = out_of_fuel"
| "binary_loop (Suc n) ops operand left =
     bindp (match_operator ops) (\<lambda>found. case found of
        None \<Rightarrow> returns left
      | Some op \<Rightarrow> bindp operand (\<lambda>right. bindp (make_binary op left right) (binary_loop n ops operand)))"

definition parse_binary :: "nat \<Rightarrow> (token_type \<times> binary_op) list \<Rightarrow> expr parsing \<Rightarrow> expr parsing" where
  "parse_binary n ops operand = bindp operand (binary_loop n ops operand)"

definition parse_multiplicative :: "nat \<Rightarrow> expr parsing \<Rightarrow> expr parsing" where
  "parse_multiplicative n = parse_binary n [(STAR, OpMul), (SLASH, OpDiv), (PERCENT, OpMod)]"

definition parse_additive :: "nat \<Rightarrow> expr parsing \<Rightarrow> expr parsing" where
  "parse_additive n = parse_binary n [(PLUS, OpAdd), (MINUS, OpSub)]"

definition parse_relational :: "nat \<Rightarrow> expr parsing \<Rightarrow> expr parsing" where
  "parse_relational n = parse_binary n [(LT, OpLt), (GT, OpGt), (LE, OpLe), (GE, OpGe)]"

definition parse_equality :: "nat \<Rightarrow> expr parsing \<Rightarrow> expr parsing" where
  "parse_equality n = parse_binary n [(EQ, OpEq), (NE, OpNe)]"

definition parse_and :: "nat \<Rightarrow> expr parsing \<Rightarrow> expr parsing" where
  "parse_and n = parse_binary n [(AND_AND, OpAnd)]"

definition parse_or :: "nat \<Rightarrow> expr parsing \<Rightarrow> expr parsing" where
  "parse_or n = parse_binary n [(OR_OR, OpOr)]"

text \<open>From the unary operand up: \<open>parse_pipe\<close> over the six levels of binary operators.\<close>

definition parse_pipe :: "nat \<Rightarrow> expr parsing \<Rightarrow> expr parsing" where
  "parse_pipe n operand =
     bindp (parse_or n (parse_and n (parse_equality n (parse_relational n (parse_additive n
       (parse_multiplicative n operand)))))) (\<lambda>left.
      ifp (match_token PIPE_INSERT)
        (bindp (node_loc left) (\<lambda>l. bindp expect_name (\<lambda>name. returns (PipeInsert l left name))))
        (ifp (match_token CHANNEL_INSERT)
          (bindp (node_loc left) (\<lambda>l. bindp expect_name (\<lambda>name. returns (ChannelInsert l left name))))
          (returns left)))"

primrec parse_unary :: "nat \<Rightarrow> expr parsing \<Rightarrow> expr parsing" where
  "parse_unary 0 postfix = out_of_fuel"
| "parse_unary (Suc n) postfix =
     ifp (match_token PIPE_EXTRACT)
       (bindp prev_loc (\<lambda>l. bindp expect_name (\<lambda>name. returns (PipeExtract l name))))
      (ifp (match_token CHANNEL_EXTRACT)
        (bindp prev_loc (\<lambda>l. bindp expect_name (\<lambda>name. returns (ChannelExtract l name))))
        (ifp (match_token BANG)
          (bindp prev_loc (\<lambda>l. bindp (parse_unary n postfix) (\<lambda>e. returns (Unary l OpNot e))))
          (ifp (match_token TILDE)
            (bindp prev_loc (\<lambda>l. bindp (parse_unary n postfix) (\<lambda>e. returns (Unary l OpBitwiseNot e))))
            (ifp (match_token MINUS)
              (bindp prev_loc (\<lambda>l. bindp (parse_unary n postfix) (\<lambda>e. returns (Unary l OpNeg e))))
              postfix))))"

section \<open>Postfix expressions\<close>

text \<open>The scan of \<open>looks_like_call_type_args\<close>, from the token after the opening bracket.\<close>

fun type_args_ahead :: "nat \<Rightarrow> token list \<Rightarrow> bool" where
  "type_args_ahead depth [] = False"
| "type_args_ahead depth (t # ts) =
     (if token_kind t = LT then type_args_ahead (depth + 1) ts
      else if token_kind t = GT then
        (if depth = 1 then (case ts of [] \<Rightarrow> False | u # _ \<Rightarrow> token_kind u = LPAREN)
         else type_args_ahead (depth - 1) ts)
      else if token_kind t = END \<or> token_kind t = SEMICOLON then False
      else type_args_ahead depth ts)"

definition looks_like_call_type_args :: "bool parsing" where
  "looks_like_call_type_args s =
     ifp (check_token LT) (returns (type_args_ahead 1 (drop (p_pos s + 1) (p_tokens s)))) (returns False) s"

definition call_arguments :: "nat \<Rightarrow> expr parsing \<Rightarrow> string \<Rightarrow> expr list parsing" where
  "call_arguments n pexpr msg =
     bindp (list_until RPAREN n pexpr) (\<lambda>args. thenp (expect_token RPAREN msg) (returns args))"

definition generic_call :: "nat \<Rightarrow> expr parsing \<Rightarrow> expr \<Rightarrow> expr parsing" where
  "generic_call n pexpr callee =
     bindp (node_loc callee) (\<lambda>l. thenp advance_token
      (bindp (list_until GT n (parse_type n)) (\<lambda>types.
        thenp (expect_token GT ''expected `>` after type arguments'')
          (thenp (expect_token LPAREN ''expected `(` after type arguments'')
            (bindp (call_arguments n pexpr ''expected `)` after arguments'') (\<lambda>args.
              returns (Call l callee types args)))))))"

definition index_suffix :: "expr parsing \<Rightarrow> expr \<Rightarrow> expr parsing" where
  "index_suffix pexpr object =
     bindp (node_loc object) (\<lambda>l. bindp pexpr (\<lambda>index.
      thenp (expect_token RBRACKET ''expected `]` after index'') (returns (Index l object index))))"

primrec postfix_loop :: "nat \<Rightarrow> nat \<Rightarrow> expr parsing \<Rightarrow> expr \<Rightarrow> expr parsing" where
  "postfix_loop 0 n pexpr e = out_of_fuel"
| "postfix_loop (Suc m) n pexpr e =
     ifp (match_token DOT)
       (bindp (node_loc e) (\<lambda>l. bindp here (\<lambda>ml. bindp expect_name (\<lambda>name.
         postfix_loop m n pexpr (Member l e name ml)))))
      (ifp looks_like_call_type_args
        (bindp (generic_call n pexpr e) (postfix_loop m n pexpr))
        (ifp (match_token LPAREN)
          (bindp (node_loc e) (\<lambda>l.
            bindp (call_arguments n pexpr ''expected `)` after arguments'') (\<lambda>args.
              postfix_loop m n pexpr (Call l e [] args))))
          (ifp (match_token LBRACKET)
            (bindp (index_suffix pexpr e) (postfix_loop m n pexpr))
            (returns e))))"

definition parse_postfix :: "nat \<Rightarrow> expr parsing \<Rightarrow> expr parsing \<Rightarrow> expr parsing" where
  "parse_postfix n pexpr primary = bindp primary (postfix_loop n n pexpr)"

section \<open>Blocks\<close>

primrec statements_until_brace :: "nat \<Rightarrow> stmt option parsing \<Rightarrow> stmt list parsing" where
  "statements_until_brace 0 pstmt = out_of_fuel"
| "statements_until_brace (Suc n) pstmt =
     ifp (check_token RBRACE) (returns [])
      (ifp at_end (returns [])
        (bindp pstmt (\<lambda>st. thenp (match_token SEMICOLON)
          (bindp (statements_until_brace n pstmt) (\<lambda>sts.
            returns (case st of None \<Rightarrow> sts | Some x \<Rightarrow> x # sts))))))"

definition parse_block :: "nat \<Rightarrow> stmt option parsing \<Rightarrow> block parsing" where
  "parse_block n pstmt =
     bindp here (\<lambda>l. thenp (expect_token LBRACE ''expected `{`'')
      (bindp (statements_until_brace n pstmt) (\<lambda>sts.
        thenp (expect_token RBRACE ''expected `}`'') (returns (Block l sts)))))"

section \<open>Primary expressions\<close>

definition int_payload :: "token \<Rightarrow> int parsing" where
  "int_payload t = (case token_value t of IntP i \<Rightarrow> returns i | _ \<Rightarrow> crash)"

definition float_payload :: "token \<Rightarrow> string parsing" where
  "float_payload t = (case token_value t of FloatP x \<Rightarrow> returns x | _ \<Rightarrow> crash)"

definition first_char :: "string \<Rightarrow> char" where
  "first_char x = (case x of [] \<Rightarrow> CHR 0x00 | c # _ \<Rightarrow> c)"

text \<open>\<open>if (match(kind)) return\<close> the node made from the literal's token.\<close>

definition literal :: "token_type \<Rightarrow> (source_loc \<Rightarrow> token \<Rightarrow> expr parsing) \<Rightarrow> expr parsing \<Rightarrow> expr parsing" where
  "literal kind make_node otherwise =
     ifp (match_token kind) (bindp prev_token (\<lambda>t. bindp (loc_of t) (\<lambda>l. make_node l t))) otherwise"

definition parse_literals :: "expr parsing \<Rightarrow> expr parsing" where
  "parse_literals otherwise =
     literal INT_LITERAL (\<lambda>l t. bindp (int_payload t) (\<lambda>i. returns (IntLiteral l i)))
      (literal FLOAT_LITERAL (\<lambda>l t. bindp (float_payload t) (\<lambda>x. returns (FloatLiteral l x)))
        (literal STRING_LITERAL (\<lambda>l t. returns (StringLiteral l (text_of t)))
          (literal CHAR_LITERAL (\<lambda>l t. returns (CharLiteral l (first_char (text_of t))))
            (literal BOOL_LITERAL (\<lambda>l t. returns (BoolLiteral l (text_of t = ''true'')))
              (literal NULL_LITERAL (\<lambda>l t. returns (NullLiteral l))
                (literal REGEX_LITERAL (\<lambda>l t. returns (RegexLiteral l (text_of t))) otherwise))))))"

definition parse_cast :: "nat \<Rightarrow> expr parsing \<Rightarrow> expr parsing" where
  "parse_cast n pexpr =
     bindp here (\<lambda>l. thenp advance_token
      (thenp (expect_token LBRACKET ''expected `[` after `cast`'')
        (bindp (parse_type n) (\<lambda>ty.
          thenp (expect_token RBRACKET ''expected `]` after cast type'')
            (thenp (expect_token LPAREN ''expected `(` after cast type'')
              (bindp pexpr (\<lambda>e.
                thenp (expect_token RPAREN ''expected `)` after cast operand'')
                  (returns (Cast l ty e)))))))))"

definition parse_alloc :: "nat \<Rightarrow> expr parsing \<Rightarrow> expr parsing" where
  "parse_alloc n pexpr =
     bindp here (\<lambda>l. thenp advance_token
      (thenp (expect_token LBRACKET ''expected `[` after `alloc`'')
        (bindp pexpr (\<lambda>capacity.
          thenp (expect_token RBRACKET ''expected `]` after alloc size'')
            (thenp (expect_token LBRACKET ''expected `[` for alloc initializers'')
              (bindp (list_until RBRACKET n pexpr) (\<lambda>es.
                thenp (expect_token RBRACKET ''expected `]` after alloc initializers'')
                  (returns (Alloc l capacity es)))))))))"

definition parse_free :: "expr parsing" where
  "parse_free = bindp here (\<lambda>l. thenp advance_token (bindp expect_name (\<lambda>name. returns (Free l name))))"

definition parse_simd :: "expr parsing \<Rightarrow> expr parsing" where
  "parse_simd pexpr =
     bindp here (\<lambda>l. thenp advance_token
      (thenp (expect_token LPAREN ''expected `(` after `simd`'')
        (bindp pexpr (\<lambda>e.
          thenp (expect_token RPAREN ''expected `)` after simd operand'') (returns (Simd l e))))))"

definition parse_hint_call :: "expr parsing \<Rightarrow> expr parsing" where
  "parse_hint_call pexpr =
     bindp here (\<lambda>l. bindp advance_token (\<lambda>t.
      thenp (expect_token LPAREN ''expected `(` after branch hint'')
        (bindp pexpr (\<lambda>e.
          thenp (expect_token RPAREN ''expected `)` after branch hint'')
            (returns (Call l (Identifier l (text_of t)) [] [e]))))))"

definition parse_lambda :: "nat \<Rightarrow> stmt option parsing \<Rightarrow> expr parsing" where
  "parse_lambda n pstmt =
     bindp here (\<lambda>l. thenp (expect_kw ''lambda'')
      (thenp (expect_token LPAREN ''expected `(` after `lambda`'')
        (bindp (parse_params n) (\<lambda>params.
          thenp (expect_token RPAREN ''expected `)` after lambda parameters'')
            (thenp (expect_token COLON ''expected `:` after lambda parameters'')
              (bindp (parse_type n) (\<lambda>ty.
                thenp (expect_token ARROW ''expected `=>` after lambda return type'')
                  (bindp (parse_block n pstmt) (\<lambda>body. returns (Lambda l params ty body))))))))))"

definition map_entry :: "expr parsing \<Rightarrow> (expr \<times> expr) parsing" where
  "map_entry pexpr =
     bindp pexpr (\<lambda>key. thenp (expect_token COLON ''expected `:` after map key'')
      (bindp pexpr (\<lambda>val. returns (key, val))))"

definition parse_map_literal :: "nat \<Rightarrow> expr parsing \<Rightarrow> expr parsing" where
  "parse_map_literal n pexpr =
     bindp here (\<lambda>l. thenp advance_token
      (thenp (expect_token LBRACKET ''expected `[` after `map`'')
        (bindp (parse_type n) (\<lambda>key.
          thenp (expect_token ARROW ''expected `=>` in map literal'')
            (bindp (parse_type n) (\<lambda>val.
              thenp (expect_token RBRACKET ''expected `]` after map type in map literal'')
                (thenp (expect_token LBRACE ''expected `{` after map type'')
                  (bindp (list_until RBRACE n (map_entry pexpr)) (\<lambda>entries.
                    thenp (expect_token RBRACE ''expected `}` after map entries'')
                      (returns (MapLiteral l key val entries)))))))))))"

definition compiler_forms :: "string list" where
  "compiler_forms = [''reflexpr'', ''members'', ''function_members'', ''meta_params'', ''params'', ''construct'']"

definition at_compiler_form :: "bool parsing" where
  "at_compiler_form = bindp cur_token (\<lambda>t. returns (token_kind t = KEYWORD \<and> text_of t \<in> set compiler_forms))"

definition parse_compiler_call :: "nat \<Rightarrow> expr parsing \<Rightarrow> expr parsing" where
  "parse_compiler_call n pexpr =
     bindp here (\<lambda>l. thenp (expect_token SCOPE ''expected `::`'')
      (thenp (ifp at_compiler_form (returns ()) (error_here
          ''expected `reflexpr`, `members`, `function_members`, `meta_params`, `params`, or `construct` after `::`''))
        (bindp advance_token (\<lambda>t.
          thenp (expect_token LPAREN ''expected `(` after compiler form'')
            (bindp (call_arguments n pexpr ''expected `)` after compiler form'') (\<lambda>args.
              returns (Call l (Identifier l (''::'' @ text_of t)) [] args)))))))"

definition parse_name :: "expr parsing" where
  "parse_name =
     bindp here (\<lambda>l. bindp advance_token (\<lambda>t.
      ifp (match_token SCOPE)
        (bindp here (\<lambda>ml. bindp expect_name (\<lambda>member. returns (EnumAccess l (text_of t) member l ml))))
        (returns (Identifier l (text_of t)))))"

text \<open>The lookahead of \<open>parse_array_or_typed_array\<close>: a name in brackets before a second bracket.\<close>

definition typed_array_ahead :: "bool parsing" where
  "typed_array_ahead =
     bindp get_pos (\<lambda>saved. thenp advance_token
      (bindp (ifp check_name
          (thenp advance_token (ifp (match_token RBRACKET) (check_token LBRACKET) (returns False)))
          (returns False)) (\<lambda>typed. thenp (set_pos saved) (returns typed))))"

definition parse_array_or_typed_array :: "nat \<Rightarrow> expr parsing \<Rightarrow> expr parsing" where
  "parse_array_or_typed_array n pexpr =
     bindp here (\<lambda>l. ifp typed_array_ahead
      (thenp (expect_token LBRACKET ''expected `[`'')
        (bindp (parse_type n) (\<lambda>ty.
          thenp (expect_token RBRACKET ''expected `]` after element type'')
            (thenp (expect_token LBRACKET ''expected `[` for typed array values'')
              (bindp (list_until RBRACKET n pexpr) (\<lambda>es.
                thenp (expect_token RBRACKET ''expected `]` after typed array values'')
                  (returns (TypedArrayLiteral l ty es))))))))
      (thenp (expect_token LBRACKET ''expected `[`'')
        (bindp (list_until RBRACKET n pexpr) (\<lambda>es.
          thenp (expect_token RBRACKET ''expected `]` after array literal'')
            (returns (ArrayLiteral l es))))))"

text \<open>After the first expression in braces: entries of a map or elements of a tuple.\<close>

definition braced_rest :: "nat \<Rightarrow> expr parsing \<Rightarrow> source_loc \<Rightarrow> expr \<Rightarrow> expr parsing" where
  "braced_rest n pexpr l first =
     ifp (match_token COLON)
      (bindp pexpr (\<lambda>val.
        bindp (ifp (match_token COMMA) (comma_list n (map_entry pexpr)) (returns [])) (\<lambda>entries.
          thenp (expect_token RBRACE ''expected `}` after map entries'')
            (returns (MapEntriesLiteral l ((first, val) # entries))))))
      (bindp (ifp (match_token COMMA) (comma_list n pexpr) (returns [])) (\<lambda>es.
        thenp (expect_token RBRACE ''expected `}` after tuple literal'')
          (returns (TupleLiteral l (first # es)))))"

definition parse_braced :: "nat \<Rightarrow> expr parsing \<Rightarrow> expr parsing" where
  "parse_braced n pexpr =
     bindp here (\<lambda>l. thenp advance_token
      (ifp (check_token RBRACE) (thenp advance_token (returns (TupleLiteral l [])))
        (bindp pexpr (braced_rest n pexpr l))))"

definition parse_primary :: "nat \<Rightarrow> expr parsing \<Rightarrow> stmt option parsing \<Rightarrow> expr parsing" where
  "parse_primary n pexpr pstmt = parse_literals
     (ifp (check_kw ''cast'') (parse_cast n pexpr)
      (ifp (check_kw ''alloc'') (parse_alloc n pexpr)
      (ifp (ifp (check_kw ''delete'') (returns True) (check_kw ''free'')) parse_free
      (ifp (check_kw ''simd'') (parse_simd pexpr)
      (ifp (ifp (check_kw ''likely'') (returns True) (check_kw ''unlikely'')) (parse_hint_call pexpr)
      (ifp (check_kw ''this_package'')
        (bindp here (\<lambda>l. thenp advance_token (returns (Identifier l ''this_package''))))
      (ifp (check_kw ''lambda'') (parse_lambda n pstmt)
      (ifp (check_kw ''map'') (parse_map_literal n pexpr)
      (ifp (check_token SCOPE) (parse_compiler_call n pexpr)
      (ifp check_name parse_name
      (ifp (check_token LBRACKET) (parse_array_or_typed_array n pexpr)
      (ifp (check_token LBRACE) (parse_braced n pexpr)
      (ifp (match_token LPAREN)
        (bindp pexpr (\<lambda>e. thenp (expect_token RPAREN ''expected `)` after expression'') (returns e)))
      (thenp (error_here ''expected expression'') (returns NullExpr)))))))))))))))"

definition expression_body :: "nat \<Rightarrow> expr parsing \<Rightarrow> stmt option parsing \<Rightarrow> expr parsing" where
  "expression_body n pexpr pstmt =
     parse_pipe n (parse_unary n (parse_postfix n pexpr (parse_primary n pexpr pstmt)))"

section \<open>Assignments\<close>

text \<open>\<open>while (check_name() || ...) { advance(); if (!match(COMMA)) break; }\<close>: the second test of the source's
condition is implied by the first.\<close>

primrec skip_names :: "nat \<Rightarrow> unit parsing" where
  "skip_names 0 = out_of_fuel"
| "skip_names (Suc n) =
     ifp check_name (thenp advance_token (ifp (match_token COMMA) (skip_names n) (returns ()))) (returns ())"

definition at_assignment :: "bool parsing" where
  "at_assignment = ifp (check_token ASSIGN) (returns True) (check_token ADD_ASSIGN)"

definition looks_like_braced_destructure :: "nat \<Rightarrow> bool parsing" where
  "looks_like_braced_destructure n =
     ifp (check_token LBRACE)
      (bindp get_pos (\<lambda>saved. thenp advance_token (thenp (skip_names n)
        (bindp (ifp (match_token RBRACE) at_assignment (returns False)) (\<lambda>ok.
          thenp (set_pos saved) (returns ok))))))
      (returns False)"

definition looks_like_bare_destructure :: "nat \<Rightarrow> bool parsing" where
  "looks_like_bare_destructure n =
     ifp check_name
      (bindp get_pos (\<lambda>saved. thenp advance_token
        (ifp (match_token COMMA)
          (thenp (skip_names n) (bindp at_assignment (\<lambda>ok. thenp (set_pos saved) (returns ok))))
          (thenp (set_pos saved) (returns False)))))
      (returns False)"

definition at_underscore :: "bool parsing" where
  "at_underscore = bindp cur_token (\<lambda>t. returns (token_kind t = SYMBOL \<and> text_of t = ''_''))"

definition parse_target :: "bind_target parsing" where
  "parse_target =
     bindp here (\<lambda>l. ifp at_underscore
      (thenp advance_token (returns \<lparr>target_loc = l, target_discard = True, target_name = []\<rparr>))
      (bindp expect_name (\<lambda>name. returns \<lparr>target_loc = l, target_discard = False, target_name = name\<rparr>)))"

definition parse_targets :: "nat \<Rightarrow> bool \<Rightarrow> bind_target list parsing" where
  "parse_targets n braced =
     thenp (if braced then thenp (expect_token LBRACE ''expected `{`'') (returns ()) else returns ())
      (bindp (comma_list n parse_target) (\<lambda>targets.
        thenp (if braced then thenp (expect_token RBRACE ''expected `}` after destructure'') (returns ())
               else returns ())
          (returns targets)))"

fun is_lambda :: "expr \<Rightarrow> bool" where
  "is_lambda (Lambda _ _ _ _) = True"
| "is_lambda _ = False"

definition maybe_attach_lambda_call :: "nat \<Rightarrow> expr parsing \<Rightarrow> expr \<Rightarrow> expr parsing" where
  "maybe_attach_lambda_call n pexpr e =
     (if is_lambda e
      then ifp (check_token LPAREN)
        (bindp (node_loc e) (\<lambda>l. thenp advance_token
          (bindp (call_arguments n pexpr ''expected `)` after lambda call'') (\<lambda>args.
            returns (Call l e [] args)))))
        (returns e)
      else returns e)"

definition match_assign_op :: "assign_op option parsing" where
  "match_assign_op = ifp (match_token ASSIGN) (returns (Some Assign))
     (ifp (match_token ADD_ASSIGN) (returns (Some AddAssign)) (returns None))"

definition is_recovering :: "bool parsing" where
  "is_recovering s = Done (p_recover s) s"

definition parse_assigned :: "nat \<Rightarrow> expr parsing \<Rightarrow> source_loc \<Rightarrow> bind_target list \<Rightarrow> assign_op \<Rightarrow>
    stmt option parsing" where
  "parse_assigned n pexpr l targets op =
     bindp pexpr (\<lambda>e. bindp is_recovering (\<lambda>rec.
      bindp (maybe_attach_lambda_call n pexpr (if e = NullExpr \<and> rec then Identifier l [] else e)) (\<lambda>e'.
        returns (Some (Assignment l targets op e')))))"

definition parse_expr_stmt :: "nat \<Rightarrow> expr parsing \<Rightarrow> stmt option parsing" where
  "parse_expr_stmt n pexpr =
     bindp pexpr (\<lambda>e.
      if e = NullExpr then returns None
      else bindp (maybe_attach_lambda_call n pexpr e) (\<lambda>e'.
        bindp (node_loc e') (\<lambda>l. returns (Some (ExprStmt l e')))))"

definition parse_assign_or_expr :: "nat \<Rightarrow> expr parsing \<Rightarrow> stmt option parsing" where
  "parse_assign_or_expr n pexpr =
     bindp get_pos (\<lambda>saved. bindp here (\<lambda>l. bindp (check_token LBRACE) (\<lambda>braced.
      ifp (if braced then returns True else check_name)
        (bindp (parse_targets n braced) (\<lambda>targets. bindp match_assign_op (\<lambda>op. case op of
            Some x \<Rightarrow> parse_assigned n pexpr l targets x
          | None \<Rightarrow> thenp (set_pos saved) (parse_expr_stmt n pexpr))))
        (parse_expr_stmt n pexpr))))"

section \<open>Declarations\<close>

definition parse_join :: "nat \<Rightarrow> source_loc \<Rightarrow> stmt parsing" where
  "parse_join n l =
     thenp (expect_token LBRACKET ''expected `[` after `join`'')
      (bindp (list_until RBRACKET n (bindp here (\<lambda>nl. bindp expect_name (\<lambda>name. returns (Identifier nl name)))))
        (\<lambda>args. thenp (expect_token RBRACKET ''expected `]` after join list'')
          (returns (ExprStmt l (Call l (Identifier l ''join'') [] args)))))"

definition type_params :: "nat \<Rightarrow> string list parsing" where
  "type_params n =
     ifp (match_token LT)
      (bindp (list_until GT n expect_name) (\<lambda>names.
        thenp (expect_token GT ''expected `>` after type parameters'') (returns names)))
      (returns [])"

definition return_type :: "nat \<Rightarrow> source_loc \<Rightarrow> type_node parsing" where
  "return_type n l = ifp (match_token COLON) (parse_type n) (returns (PrimitiveType l PrimVoid))"

definition parse_func :: "nat \<Rightarrow> stmt option parsing \<Rightarrow> source_loc \<Rightarrow> stmt parsing" where
  "parse_func n pstmt l =
     bindp here (\<lambda>nl. bindp expect_name (\<lambda>name. bindp (type_params n) (\<lambda>tps.
      thenp (expect_token LPAREN ''expected `(` after function name'')
        (bindp (parse_params n) (\<lambda>params.
          thenp (expect_token RPAREN ''expected `)` after parameters'')
            (bindp (return_type n l) (\<lambda>ty. bindp (parse_block n pstmt) (\<lambda>body.
              returns (FuncDecl l name tps params ty body nl)))))))))"

definition parse_enum :: "nat \<Rightarrow> source_loc \<Rightarrow> stmt parsing" where
  "parse_enum n l =
     bindp here (\<lambda>nl. bindp expect_name (\<lambda>name.
      thenp (expect_token LBRACE ''expected `{` after enum name'')
        (bindp (list_until RBRACE n expect_name) (\<lambda>members.
          thenp (expect_token RBRACE ''expected `}` after enum members'')
            (returns (EnumDecl l name members nl))))))"

definition field_constraint :: "expr parsing \<Rightarrow> expr parsing" where
  "field_constraint pexpr =
     ifp (match_token LT)
      (thenp (ifp (check_kw ''constraint'') (returns ()) (error_here ''expected `constraint` after `<`''))
        (thenp advance_token
          (thenp (expect_token GT ''expected `>` after `constraint`'')
            (thenp (expect_token LBRACKET ''expected `[` after `<constraint>`'')
              (bindp pexpr (\<lambda>e.
                thenp (expect_token RBRACKET ''expected `]` after constraint expression'') (returns e)))))))
      (returns NullExpr)"

definition parse_field :: "nat \<Rightarrow> expr parsing \<Rightarrow> object_field parsing" where
  "parse_field n pexpr =
     bindp here (\<lambda>l. bindp expect_name (\<lambda>name.
      thenp (expect_token COLON ''expected `:` after field name'')
        (bindp (parse_type n) (\<lambda>ty. bindp (field_constraint pexpr) (\<lambda>c.
          returns (ObjectField l name ty c))))))"

definition parse_object :: "nat \<Rightarrow> expr parsing \<Rightarrow> source_loc \<Rightarrow> bool \<Rightarrow> stmt parsing" where
  "parse_object n pexpr l is_trait =
     bindp here (\<lambda>nl. bindp expect_name (\<lambda>name.
      thenp (expect_token LBRACE
          (if is_trait then ''expected `{` after trait name'' else ''expected `{` after object name''))
        (bindp (list_until RBRACE n (parse_field n pexpr)) (\<lambda>fields.
          thenp (expect_token RBRACE
              (if is_trait then ''expected `}` after trait fields'' else ''expected `}` after object fields''))
            (returns (ObjectDecl l name fields is_trait nl))))))"

section \<open>Control flow\<close>

text \<open>\<open>apply_branch_hint\<close>: the condition and the hint it leaves.\<close>

definition apply_branch_hint :: "expr \<Rightarrow> (expr \<times> branch_hint) parsing" where
  "apply_branch_hint cond = (case cond of
     Call _ callee _ [arg] \<Rightarrow> (case callee of
         NullExpr \<Rightarrow> crash
       | Identifier _ name \<Rightarrow>
           if name = ''likely'' then returns (arg, Likely)
           else if name = ''unlikely'' then returns (arg, Unlikely)
           else returns (cond, NoHint)
       | _ \<Rightarrow> returns (cond, NoHint))
   | _ \<Rightarrow> returns (cond, NoHint))"

definition parse_branch :: "nat \<Rightarrow> expr parsing \<Rightarrow> stmt option parsing \<Rightarrow> if_branch parsing" where
  "parse_branch n pexpr pstmt =
     bindp pexpr (\<lambda>e. bindp (apply_branch_hint e) (\<lambda>(cond, hint).
      bindp (parse_block n pstmt) (\<lambda>body. returns (IfBranch cond body hint))))"

primrec else_loop :: "nat \<Rightarrow> nat \<Rightarrow> expr parsing \<Rightarrow> stmt option parsing \<Rightarrow>
    (if_branch list \<times> block option) parsing" where
  "else_loop 0 n pexpr pstmt = out_of_fuel"
| "else_loop (Suc m) n pexpr pstmt =
     ifp (match_kw ''else'')
      (ifp (match_kw ''if'')
        (bindp (parse_branch n pexpr pstmt) (\<lambda>b. bindp (else_loop m n pexpr pstmt) (\<lambda>(bs, e).
          returns (b # bs, e))))
        (bindp (parse_block n pstmt) (\<lambda>body. returns ([], Some body))))
      (returns ([], None))"

definition parse_if :: "nat \<Rightarrow> expr parsing \<Rightarrow> stmt option parsing \<Rightarrow> source_loc \<Rightarrow> stmt parsing" where
  "parse_if n pexpr pstmt l =
     bindp (parse_branch n pexpr pstmt) (\<lambda>b. bindp (else_loop n n pexpr pstmt) (\<lambda>(bs, e).
      returns (If l b bs e)))"

definition parse_loop :: "nat \<Rightarrow> expr parsing \<Rightarrow> stmt option parsing \<Rightarrow> source_loc \<Rightarrow> stmt parsing" where
  "parse_loop n pexpr pstmt l =
     bindp (ifp (check_token LBRACE) (returns None) (bindp pexpr (\<lambda>e. returns (Some e)))) (\<lambda>cond.
      bindp (parse_block n pstmt) (\<lambda>body. returns (Loop l cond body)))"

primrec case_loop :: "nat \<Rightarrow> nat \<Rightarrow> stmt option parsing \<Rightarrow> match_case list parsing" where
  "case_loop 0 n pstmt = out_of_fuel"
| "case_loop (Suc m) n pstmt =
     ifp (match_kw ''case'')
      (bindp prev_loc (\<lambda>l. bindp expect_name (\<lambda>enum_name.
        thenp (expect_token SCOPE ''expected `::` in match case'')
          (bindp expect_name (\<lambda>member. bindp (parse_block n pstmt) (\<lambda>body.
            bindp (case_loop m n pstmt) (\<lambda>cs. returns (MatchCase l enum_name member body # cs)))))))
      ) (returns [])"

definition parse_match :: "nat \<Rightarrow> expr parsing \<Rightarrow> stmt option parsing \<Rightarrow> source_loc \<Rightarrow> stmt parsing" where
  "parse_match n pexpr pstmt l =
     bindp pexpr (\<lambda>e. thenp (expect_token LBRACE ''expected `{` after match scrutinee'')
      (bindp (case_loop n n pstmt) (\<lambda>cs.
        thenp (expect_token RBRACE ''expected `}` after match cases'') (returns (Match l e cs)))))"

definition parse_monitor :: "nat \<Rightarrow> stmt option parsing \<Rightarrow> source_loc \<Rightarrow> stmt parsing" where
  "parse_monitor n pstmt l =
     bindp (parse_block n pstmt) (\<lambda>protected.
      thenp (expect_kw ''trap'') (thenp (expect_token LPAREN ''expected `(` after `trap`'')
        (bindp expect_name (\<lambda>name. thenp (expect_token COLON ''expected `:` after trap parameter'')
          (bindp (parse_type n) (\<lambda>ty. thenp (expect_token RPAREN ''expected `)` after trap parameter'')
            (bindp (parse_block n pstmt) (\<lambda>handler.
              returns (Monitor l protected name ty handler)))))))))"

section \<open>Compile-time statements\<close>

definition typeid_arm :: "expr parsing \<Rightarrow> (bool \<times> typeid_match_case) parsing" where
  "typeid_arm pexpr =
     thenp (expect_token SCOPE ''expected `::case` or `::default`'')
      (bindp prev_loc (\<lambda>l.
        bindp (ifp (match_kw ''default'') (returns (True, []))
          (thenp (expect_kw ''case'') (thenp (expect_kw ''typeid'')
            (thenp (expect_token LPAREN ''expected `(` after `typeid`'')
              (bindp expect_name (\<lambda>name.
                thenp (expect_token RPAREN ''expected `)` after typeid'') (returns (False, name)))))))) (\<lambda>(is_default, name).
          thenp (expect_token ARROW ''expected `=>` in typeid match arm'')
            (bindp pexpr (\<lambda>body. thenp (match_token SEMICOLON)
              (returns (is_default, TypeidMatchCase l is_default name body)))))))"

primrec typeid_loop :: "nat \<Rightarrow> expr parsing \<Rightarrow> typeid_match_case list parsing" where
  "typeid_loop 0 pexpr = out_of_fuel"
| "typeid_loop (Suc n) pexpr =
     ifp (check_token RBRACE) (returns [])
      (ifp at_end (returns [])
        (bindp (typeid_arm pexpr) (\<lambda>(is_default, arm).
          if is_default then returns [arm]
          else bindp (typeid_loop n pexpr) (\<lambda>arms. returns (arm # arms)))))"

definition parse_reflect_for :: "nat \<Rightarrow> expr parsing \<Rightarrow> stmt option parsing \<Rightarrow> source_loc \<Rightarrow> stmt parsing" where
  "parse_reflect_for n pexpr pstmt l =
     thenp (expect_token LPAREN ''expected `(` after `::reflect_for`'')
      (bindp expect_name (\<lambda>item. thenp (expect_kw ''of'') (bindp pexpr (\<lambda>collection.
        thenp (expect_token RPAREN ''expected `)` after reflect_for header'')
          (bindp (parse_block n pstmt) (\<lambda>body. returns (ReflectFor l item collection body)))))))"

definition parse_typeid_match :: "nat \<Rightarrow> expr parsing \<Rightarrow> source_loc \<Rightarrow> stmt parsing" where
  "parse_typeid_match n pexpr l =
     bindp pexpr (\<lambda>e. thenp (expect_token LBRACE ''expected `{` after `::match`'')
      (bindp (typeid_loop n pexpr) (\<lambda>arms.
        thenp (expect_token RBRACE ''expected `}` after `::match`'') (returns (TypeidMatch l e arms)))))"

definition parse_compiler_stmt :: "nat \<Rightarrow> expr parsing \<Rightarrow> stmt option parsing \<Rightarrow> stmt parsing" where
  "parse_compiler_stmt n pexpr pstmt =
     bindp here (\<lambda>l. thenp (expect_token SCOPE ''expected `::`'')
      (ifp (match_kw ''reflect_for'') (parse_reflect_for n pexpr pstmt l)
        (ifp (match_kw ''match'') (parse_typeid_match n pexpr l)
          (thenp (error_here ''expected `reflect_for` or `match` after `::`'') (returns (Break l))))))"

section \<open>Statements\<close>

definition some_stmt :: "stmt parsing \<Rightarrow> stmt option parsing" where
  "some_stmt p = bindp p (\<lambda>st. returns (Some st))"

text \<open>\<open>if (check_kw(kw)) { loc = here(); advance(); return ...; }\<close>\<close>

definition keyword_stmt :: "string \<Rightarrow> (source_loc \<Rightarrow> stmt parsing) \<Rightarrow> stmt option parsing \<Rightarrow> stmt option parsing" where
  "keyword_stmt kw p otherwise =
     ifp (check_kw kw) (some_stmt (bindp here (\<lambda>l. thenp advance_token (p l)))) otherwise"

definition named_stmt :: "string \<Rightarrow> (source_loc \<Rightarrow> string \<Rightarrow> stmt) \<Rightarrow> stmt option parsing \<Rightarrow> stmt option parsing" where
  "named_stmt kw make_node otherwise =
     ifp (match_kw kw) (bindp prev_loc (\<lambda>l. bindp expect_name (\<lambda>name. returns (Some (make_node l name))))) otherwise"

definition lock_stmt :: "stmt option parsing \<Rightarrow> stmt option parsing" where
  "lock_stmt otherwise =
     ifp (match_kw ''lock'') (bindp prev_loc (\<lambda>l. bindp expect_name (\<lambda>name.
       thenp (match_token SEMICOLON) (returns (Some (Lock l name)))))) otherwise"

definition return_value :: "expr parsing \<Rightarrow> expr option parsing" where
  "return_value pexpr =
     ifp (check_token RBRACE) (returns None)
      (ifp at_end (returns None)
        (ifp (check_token SEMICOLON) (returns None) (bindp pexpr (\<lambda>e. returns (Some e)))))"

definition parse_insert :: "expr parsing \<Rightarrow> source_loc \<Rightarrow> string \<Rightarrow> stmt option parsing" where
  "parse_insert pexpr l receiver =
     thenp (expect_token LPAREN ''expected `(` after `insert`'') (bindp pexpr (\<lambda>m.
      thenp (expect_token COMMA ''expected `,` after map in insert'') (bindp pexpr (\<lambda>entries.
        thenp (expect_token RPAREN ''expected `)` after insert arguments'')
          (thenp (match_token SEMICOLON) (returns (Some (Insert l receiver m entries))))))))"

definition try_insert :: "expr parsing \<Rightarrow> stmt option parsing \<Rightarrow> stmt option parsing" where
  "try_insert pexpr otherwise =
     ifp check_name
      (bindp get_pos (\<lambda>saved. bindp here (\<lambda>l. bindp expect_name (\<lambda>receiver.
        ifp (match_kw ''insert'') (parse_insert pexpr l receiver) (thenp (set_pos saved) otherwise)))))
      otherwise"

definition bare_block :: "nat \<Rightarrow> stmt option parsing \<Rightarrow> stmt option parsing" where
  "bare_block n pstmt =
     bindp here (\<lambda>l. thenp advance_token (bindp (statements_until_brace n pstmt) (\<lambda>sts.
      thenp (expect_token RBRACE ''expected `}`'') (returns (Some (BlockStmt l (Block l sts)))))))"

definition simple_statement :: "nat \<Rightarrow> expr parsing \<Rightarrow> stmt option parsing \<Rightarrow> stmt option parsing" where
  "simple_statement n pexpr pstmt =
     ifp (ifp (looks_like_braced_destructure n) (returns True)
          (ifp (looks_like_bare_destructure n) (returns True)
            (ifp (check_token SYMBOL) (returns True) (check_token KEYWORD))))
      (parse_assign_or_expr n pexpr)
      (ifp (check_token LBRACE) (bare_block n pstmt) (parse_assign_or_expr n pexpr))"

definition late_import_error :: "unit parsing" where
  "late_import_error =
     ifp (ifp (check_kw ''load_package'') (returns True) (check_kw ''load_packages''))
      (bindp cur_token (\<lambda>t. error_here
        (''`'' @ text_of t @ ''` is only allowed at the top of the file, before any other statement'')))
      (returns ())"

definition statement_body :: "nat \<Rightarrow> expr parsing \<Rightarrow> stmt option parsing \<Rightarrow> stmt option parsing" where
  "statement_body n pexpr pstmt =
     thenp late_import_error
     (ifp (check_token SCOPE) (some_stmt (parse_compiler_stmt n pexpr pstmt))
     (keyword_stmt ''func'' (parse_func n pstmt)
     (keyword_stmt ''enum'' (parse_enum n)
     (keyword_stmt ''object'' (\<lambda>l. parse_object n pexpr l False)
     (keyword_stmt ''trait'' (\<lambda>l. parse_object n pexpr l True)
     (keyword_stmt ''if'' (parse_if n pexpr pstmt)
     (keyword_stmt ''loop'' (parse_loop n pexpr pstmt)
     (keyword_stmt ''match'' (parse_match n pexpr pstmt)
     (keyword_stmt ''monitor'' (parse_monitor n pstmt)
     (lock_stmt
     (named_stmt ''acquire'' Acquire
     (named_stmt ''release'' Release
     (ifp (match_kw ''return'') (bindp prev_loc (\<lambda>l. bindp (return_value pexpr) (\<lambda>e. returns (Some (Return l e)))))
     (ifp (match_kw ''break'') (bindp prev_loc (\<lambda>l. returns (Some (Break l))))
     (keyword_stmt ''join'' (parse_join n)
     (try_insert pexpr (simple_statement n pexpr pstmt)))))))))))))))))"

fun parse_expression :: "nat \<Rightarrow> expr parsing" and parse_statement :: "nat \<Rightarrow> stmt option parsing" where
  "parse_expression 0 s = out_of_fuel s"
| "parse_statement 0 s = out_of_fuel s"
| "parse_expression (Suc n) s = expression_body n (parse_expression n) (parse_statement n) s"
| "parse_statement (Suc n) s = statement_body n (parse_expression n) (parse_statement n) s"

section \<open>Programs\<close>

definition parse_load_package :: "load_package_stmt parsing" where
  "parse_load_package = bindp prev_loc (\<lambda>l. bindp expect_name (\<lambda>name.
     returns \<lparr>import_loc = l, import_package = name\<rparr>))"

definition parse_load_packages :: "nat \<Rightarrow> load_package_stmt list parsing" where
  "parse_load_packages n =
     bindp prev_loc (\<lambda>_. thenp (expect_token LBRACE ''expected `{` after `load_packages`'')
      (bindp (comma_list n (bindp here (\<lambda>l. bindp expect_name (\<lambda>name.
          returns \<lparr>import_loc = l, import_package = name\<rparr>)))) (\<lambda>imports.
        thenp (expect_token RBRACE ''expected `}` after package list'') (returns imports))))"

primrec import_loop :: "nat \<Rightarrow> nat \<Rightarrow> load_package_stmt list parsing" where
  "import_loop 0 n = out_of_fuel"
| "import_loop (Suc m) n =
     ifp (match_kw ''load_package'')
      (bindp parse_load_package (\<lambda>i. bindp (import_loop m n) (\<lambda>is. returns (i # is))))
      (ifp (match_kw ''load_packages'')
        (bindp (parse_load_packages n) (\<lambda>i. bindp (import_loop m n) (\<lambda>is. returns (i @ is))))
        (returns []))"

text \<open>What the language server's parser does when a statement consumed nothing.\<close>

definition recover_progress :: "nat \<Rightarrow> nat \<Rightarrow> unit parsing" where
  "recover_progress n start =
     bindp is_recovering (\<lambda>rec. bindp get_pos (\<lambda>now. bindp at_end (\<lambda>e.
      if rec \<and> now = start \<and> \<not> e
      then thenp (synchronize n) (bindp get_pos (\<lambda>pos.
        if pos = start then thenp advance_token (returns ()) else returns ()))
      else returns ())))"

primrec program_loop :: "nat \<Rightarrow> nat \<Rightarrow> stmt list parsing" where
  "program_loop 0 n = out_of_fuel"
| "program_loop (Suc m) n =
     ifp at_end (returns [])
      (bindp get_pos (\<lambda>start. bindp (parse_statement n) (\<lambda>st. thenp (match_token SEMICOLON)
        (thenp (recover_progress n start) (bindp (program_loop m n) (\<lambda>sts.
          returns (case st of None \<Rightarrow> sts | Some x \<Rightarrow> x # sts)))))))"

definition parse_program :: "nat \<Rightarrow> program parsing" where
  "parse_program n =
     thenp (expect_kw ''package'') (bindp prev_loc (\<lambda>l. bindp expect_name (\<lambda>name.
      bindp (import_loop n n) (\<lambda>imports. bindp (program_loop n n) (\<lambda>sts.
        returns \<lparr>package_loc = l, package_name = name, program_imports = imports,
          program_statements = sts\<rparr>)))))"

definition new_parser :: "token list \<Rightarrow> string \<Rightarrow> bool \<Rightarrow> compile_context \<Rightarrow> parser" where
  "new_parser tokens path recover ctx =
     \<lparr>p_tokens = tokens, p_pos = 0, p_path = path, p_recover = recover, p_context = ctx\<rparr>"

end
