(* ===== verification/Grammar.thy ===== *)
theory Grammar
  imports Parser
begin

text \<open>
  The grammar of the language as a reference for the parser: which sequences of tokens are phrases for
  which trees. It follows the README's tables (precedence levels 1 to 9, declarations, control flow) and
  does not mention the parser's state, its lookahead or its order of tests. A phrase also fixes the
  locations in the tree. Levels of \<open>expr_phrase\<close>: 0 primary, 1 postfix, 2 unary, 3 to 8 the binary
  operators from \<open>*\<close> to \<open>||\<close>, 9 insertion into a pipe or channel.
\<close>

section \<open>Tokens\<close>

definition is_tok :: "token_type \<Rightarrow> token \<Rightarrow> bool" where
  "is_tok k t \<longleftrightarrow> token_kind t = k"

definition is_kw :: "string \<Rightarrow> token \<Rightarrow> bool" where
  "is_kw kw t \<longleftrightarrow> token_kind t = KEYWORD \<and> text_of t = kw"

definition is_name :: "token \<Rightarrow> bool" where
  "is_name t \<longleftrightarrow> token_kind t = SYMBOL \<or> token_kind t = KEYWORD"

definition tok_loc :: "string \<Rightarrow> token \<Rightarrow> source_loc" where
  "tok_loc path t = \<lparr>loc_file = path, loc_line = token_line t, loc_column = token_column t\<rparr>"

text \<open>Keywords that begin a form of their own, and so are no identifiers.\<close>

definition form_keywords :: "string list" where
  "form_keywords = [''cast'', ''alloc'', ''delete'', ''free'', ''simd'', ''likely'', ''unlikely'', ''this_package'',
     ''lambda'', ''map'']"

definition is_plain_name :: "token \<Rightarrow> bool" where
  "is_plain_name t \<longleftrightarrow> token_kind t = SYMBOL \<or> token_kind t = KEYWORD \<and> text_of t \<notin> set form_keywords"

definition opt_semicolon :: "token list \<Rightarrow> bool" where
  "opt_semicolon ts \<longleftrightarrow> ts = [] \<or> (\<exists>t. ts = [t] \<and> is_tok SEMICOLON t)"

inductive comma_sep :: "('a \<Rightarrow> token list \<Rightarrow> bool) \<Rightarrow> 'a list \<Rightarrow> token list \<Rightarrow> bool" for P where
  comma_one: "P x ts \<Longrightarrow> comma_sep P [x] ts"
| comma_more: "P x ts \<Longrightarrow> is_tok COMMA c \<Longrightarrow> comma_sep P xs us \<Longrightarrow> comma_sep P (x # xs) (ts @ c # us)"

lemma comma_sep_mono [mono]: "(\<And>x ts. P x ts \<longrightarrow> Q x ts) \<Longrightarrow> comma_sep P xs ts \<longrightarrow> comma_sep Q xs ts"
proof
  assume "comma_sep P xs ts" "\<And>x ts. P x ts \<longrightarrow> Q x ts"
  then show "comma_sep Q xs ts"
    by (induction rule: comma_sep.induct) (blast intro: comma_sep.intros)+
qed

definition list_of :: "('a \<Rightarrow> token list \<Rightarrow> bool) \<Rightarrow> 'a list \<Rightarrow> token list \<Rightarrow> bool" where
  "list_of P xs ts \<longleftrightarrow> xs = [] \<and> ts = [] \<or> comma_sep P xs ts"

lemma list_of_mono [mono]: "(\<And>x ts. P x ts \<longrightarrow> Q x ts) \<Longrightarrow> list_of P xs ts \<longrightarrow> list_of Q xs ts"
  using comma_sep_mono unfolding list_of_def by blast

section \<open>Types\<close>

inductive type_phrase :: "string \<Rightarrow> type_node \<Rightarrow> token list \<Rightarrow> bool" for path where
  ph_tuple: "is_kw ''tuple'' a \<Longrightarrow> is_tok LBRACKET b \<Longrightarrow> list_of (type_phrase path) tys ts \<Longrightarrow> is_tok RBRACKET c \<Longrightarrow>
    type_phrase path (TupleType (tok_loc path a) tys) (a # b # ts @ [c])"
| ph_map: "is_kw ''map'' a \<Longrightarrow> is_tok LBRACKET b \<Longrightarrow> type_phrase path k ts \<Longrightarrow> is_tok ARROW c \<Longrightarrow>
    type_phrase path v us \<Longrightarrow> is_tok RBRACKET d \<Longrightarrow>
    type_phrase path (MapType (tok_loc path a) k v) (a # b # ts @ c # us @ [d])"
| ph_array: "is_tok LBRACKET a \<Longrightarrow> type_phrase path ty ts \<Longrightarrow> is_tok RBRACKET b \<Longrightarrow>
    type_phrase path (ArrayType (tok_loc path a) ty) (a # ts @ [b])"
| ph_lambda: "is_name a \<Longrightarrow> text_of a = ''Lambda'' \<Longrightarrow> is_tok LBRACKET b \<Longrightarrow> is_tok LBRACE c \<Longrightarrow>
    list_of (type_phrase path) tys ts \<Longrightarrow> is_tok RBRACE d \<Longrightarrow> is_tok ARROW e \<Longrightarrow> type_phrase path ty us \<Longrightarrow>
    is_tok RBRACKET f \<Longrightarrow>
    type_phrase path (LambdaType (tok_loc path a) tys ty) (a # b # c # ts @ d # e # us @ [f])"
| ph_primitive: "is_name a \<Longrightarrow> primitive_named (text_of a) = Some p \<Longrightarrow>
    type_phrase path (PrimitiveType (tok_loc path a) p) [a]"
| ph_named: "is_name a \<Longrightarrow> primitive_named (text_of a) = None \<Longrightarrow> text_of a \<noteq> ''Lambda'' \<Longrightarrow>
    type_phrase path (NamedType (tok_loc path a) (text_of a)) [a]"

definition param_phrase :: "string \<Rightarrow> parameter \<Rightarrow> token list \<Rightarrow> bool" where
  "param_phrase path p ts \<longleftrightarrow> (\<exists>a b us. ts = a # b # us \<and> is_name a \<and> is_tok COLON b \<and>
     type_phrase path (param_type p) us \<and> param_name p = text_of a \<and> param_loc p = tok_loc path a)"

section \<open>Operators\<close>

fun binary_token :: "binary_op \<Rightarrow> (nat \<times> token_type) option" where
  "binary_token OpMul = Some (3, STAR)"
| "binary_token OpDiv = Some (3, SLASH)"
| "binary_token OpMod = Some (3, PERCENT)"
| "binary_token OpAdd = Some (4, PLUS)"
| "binary_token OpSub = Some (4, MINUS)"
| "binary_token OpLt = Some (5, LT)"
| "binary_token OpGt = Some (5, GT)"
| "binary_token OpLe = Some (5, LE)"
| "binary_token OpGe = Some (5, GE)"
| "binary_token OpEq = Some (6, EQ)"
| "binary_token OpNe = Some (6, NE)"
| "binary_token OpAnd = Some (7, AND_AND)"
| "binary_token OpOr = Some (8, OR_OR)"
| "binary_token _ = None"

fun unary_token :: "unary_op \<Rightarrow> token_type" where
  "unary_token OpNot = BANG"
| "unary_token OpBitwiseNot = TILDE"
| "unary_token OpNeg = MINUS"

text \<open>A condition \<open>likely(c)\<close> or \<open>unlikely(c)\<close> is the condition \<open>c\<close> with a hint.\<close>

definition branch_of :: "expr \<Rightarrow> expr \<times> branch_hint" where
  "branch_of e = (case e of
     Call _ (Identifier _ name) _ [arg] \<Rightarrow>
       if name = ''likely'' then (arg, Likely) else if name = ''unlikely'' then (arg, Unlikely) else (e, NoHint)
   | _ \<Rightarrow> (e, NoHint))"

definition target_phrase :: "string \<Rightarrow> bind_target \<Rightarrow> token list \<Rightarrow> bool" where
  "target_phrase path x ts \<longleftrightarrow> (\<exists>a. ts = [a] \<and> target_loc x = tok_loc path a \<and>
     (if token_kind a = SYMBOL \<and> text_of a = ''_'' then target_discard x \<and> target_name x = []
      else is_name a \<and> \<not> target_discard x \<and> target_name x = text_of a))"

definition targets_phrase :: "string \<Rightarrow> bind_target list \<Rightarrow> token list \<Rightarrow> bool" where
  "targets_phrase path xs ts \<longleftrightarrow> comma_sep (target_phrase path) xs ts \<or>
     (\<exists>a us b. ts = a # us @ [b] \<and> is_tok LBRACE a \<and> comma_sep (target_phrase path) xs us \<and> is_tok RBRACE b)"

definition assign_token :: "assign_op \<Rightarrow> token_type" where
  "assign_token op = (case op of Assign \<Rightarrow> ASSIGN | AddAssign \<Rightarrow> ADD_ASSIGN)"

definition name_list_item :: "string \<Rightarrow> token list \<Rightarrow> bool" where
  "name_list_item x ts \<longleftrightarrow> (\<exists>a. ts = [a] \<and> is_name a \<and> x = text_of a)"

definition join_item :: "string \<Rightarrow> expr \<Rightarrow> token list \<Rightarrow> bool" where
  "join_item path e ts \<longleftrightarrow> (\<exists>a. ts = [a] \<and> is_name a \<and> e = Identifier (tok_loc path a) (text_of a))"

definition type_params_phrase :: "string list \<Rightarrow> token list \<Rightarrow> bool" where
  "type_params_phrase xs ts \<longleftrightarrow> xs = [] \<and> ts = [] \<or>
     (\<exists>a us b. ts = a # us @ [b] \<and> is_tok LT a \<and> list_of name_list_item xs us \<and> is_tok GT b)"

definition return_phrase :: "string \<Rightarrow> source_loc \<Rightarrow> type_node \<Rightarrow> token list \<Rightarrow> bool" where
  "return_phrase path l ty ts \<longleftrightarrow> ts = [] \<and> ty = PrimitiveType l PrimVoid \<or>
     (\<exists>a us. ts = a # us \<and> is_tok COLON a \<and> type_phrase path ty us)"

section \<open>Expressions and statements\<close>

inductive
  expr_phrase :: "string \<Rightarrow> nat \<Rightarrow> expr \<Rightarrow> token list \<Rightarrow> bool" and
  entry_phrase :: "string \<Rightarrow> expr \<times> expr \<Rightarrow> token list \<Rightarrow> bool" and
  stmt_phrase :: "string \<Rightarrow> stmt \<Rightarrow> token list \<Rightarrow> bool" and
  stmts_phrase :: "string \<Rightarrow> stmt list \<Rightarrow> token list \<Rightarrow> bool" and
  block_phrase :: "string \<Rightarrow> block \<Rightarrow> token list \<Rightarrow> bool" and
  branch_phrase :: "string \<Rightarrow> if_branch \<Rightarrow> token list \<Rightarrow> bool" and
  else_phrase :: "string \<Rightarrow> if_branch list \<Rightarrow> block option \<Rightarrow> token list \<Rightarrow> bool" and
  cases_phrase :: "string \<Rightarrow> match_case list \<Rightarrow> token list \<Rightarrow> bool" and
  arms_phrase :: "string \<Rightarrow> typeid_match_case list \<Rightarrow> token list \<Rightarrow> bool" and
  field_phrase :: "string \<Rightarrow> object_field \<Rightarrow> token list \<Rightarrow> bool"
  for path where
  ph_int: "is_tok INT_LITERAL a \<Longrightarrow> token_value a = IntP i \<Longrightarrow>
    expr_phrase path 0 (IntLiteral (tok_loc path a) i) [a]"
| ph_float: "is_tok FLOAT_LITERAL a \<Longrightarrow> token_value a = FloatP x \<Longrightarrow>
    expr_phrase path 0 (FloatLiteral (tok_loc path a) x) [a]"
| ph_string: "is_tok STRING_LITERAL a \<Longrightarrow> expr_phrase path 0 (StringLiteral (tok_loc path a) (text_of a)) [a]"
| ph_char: "is_tok CHAR_LITERAL a \<Longrightarrow>
    expr_phrase path 0 (CharLiteral (tok_loc path a) (first_char (text_of a))) [a]"
| ph_bool: "is_tok BOOL_LITERAL a \<Longrightarrow> expr_phrase path 0 (BoolLiteral (tok_loc path a) (text_of a = ''true'')) [a]"
| ph_null: "is_tok NULL_LITERAL a \<Longrightarrow> expr_phrase path 0 (NullLiteral (tok_loc path a)) [a]"
| ph_regex: "is_tok REGEX_LITERAL a \<Longrightarrow> expr_phrase path 0 (RegexLiteral (tok_loc path a) (text_of a)) [a]"
| ph_cast: "is_kw ''cast'' a \<Longrightarrow> is_tok LBRACKET b \<Longrightarrow> type_phrase path ty ts \<Longrightarrow> is_tok RBRACKET c \<Longrightarrow>
    is_tok LPAREN d \<Longrightarrow> expr_phrase path 9 e us \<Longrightarrow> is_tok RPAREN f \<Longrightarrow>
    expr_phrase path 0 (Cast (tok_loc path a) ty e) (a # b # ts @ c # d # us @ [f])"
| ph_alloc: "is_kw ''alloc'' a \<Longrightarrow> is_tok LBRACKET b \<Longrightarrow> expr_phrase path 9 e ts \<Longrightarrow> is_tok RBRACKET c \<Longrightarrow>
    is_tok LBRACKET d \<Longrightarrow> list_of (expr_phrase path 9) es us \<Longrightarrow> is_tok RBRACKET f \<Longrightarrow>
    expr_phrase path 0 (Alloc (tok_loc path a) e es) (a # b # ts @ c # d # us @ [f])"
| ph_free: "is_kw ''delete'' a \<or> is_kw ''free'' a \<Longrightarrow> is_name b \<Longrightarrow>
    expr_phrase path 0 (Free (tok_loc path a) (text_of b)) [a, b]"
| ph_simd: "is_kw ''simd'' a \<Longrightarrow> is_tok LPAREN b \<Longrightarrow> expr_phrase path 9 e ts \<Longrightarrow> is_tok RPAREN c \<Longrightarrow>
    expr_phrase path 0 (Simd (tok_loc path a) e) (a # b # ts @ [c])"
| ph_hint: "is_kw ''likely'' a \<or> is_kw ''unlikely'' a \<Longrightarrow> is_tok LPAREN b \<Longrightarrow> expr_phrase path 9 e ts \<Longrightarrow>
    is_tok RPAREN c \<Longrightarrow>
    expr_phrase path 0 (Call (tok_loc path a) (Identifier (tok_loc path a) (text_of a)) [] [e]) (a # b # ts @ [c])"
| ph_this: "is_kw ''this_package'' a \<Longrightarrow> expr_phrase path 0 (Identifier (tok_loc path a) ''this_package'') [a]"
| ph_lambda_expr: "is_kw ''lambda'' a \<Longrightarrow> is_tok LPAREN b \<Longrightarrow> list_of (param_phrase path) ps ts \<Longrightarrow>
    is_tok RPAREN c \<Longrightarrow> is_tok COLON d \<Longrightarrow> type_phrase path ty us \<Longrightarrow> is_tok ARROW f \<Longrightarrow> block_phrase path body vs \<Longrightarrow>
    expr_phrase path 0 (Lambda (tok_loc path a) ps ty body) (a # b # ts @ c # d # us @ f # vs)"
| ph_map_literal: "is_kw ''map'' a \<Longrightarrow> is_tok LBRACKET b \<Longrightarrow> type_phrase path k ts \<Longrightarrow> is_tok ARROW c \<Longrightarrow>
    type_phrase path v us \<Longrightarrow> is_tok RBRACKET d \<Longrightarrow> is_tok LBRACE f \<Longrightarrow> list_of (entry_phrase path) es vs \<Longrightarrow>
    is_tok RBRACE g \<Longrightarrow>
    expr_phrase path 0 (MapLiteral (tok_loc path a) k v es) (a # b # ts @ c # us @ d # f # vs @ [g])"
| ph_compiler: "is_tok SCOPE a \<Longrightarrow> token_kind b = KEYWORD \<Longrightarrow> text_of b \<in> set compiler_forms \<Longrightarrow> is_tok LPAREN c \<Longrightarrow>
    list_of (expr_phrase path 9) es ts \<Longrightarrow> is_tok RPAREN d \<Longrightarrow>
    expr_phrase path 0 (Call (tok_loc path a) (Identifier (tok_loc path a) (''::'' @ text_of b)) [] es)
      (a # b # c # ts @ [d])"
| ph_enum: "is_plain_name a \<Longrightarrow> is_tok SCOPE b \<Longrightarrow> is_name c \<Longrightarrow>
    expr_phrase path 0 (EnumAccess (tok_loc path a) (text_of a) (text_of c) (tok_loc path a) (tok_loc path c)) [a, b, c]"
| ph_identifier: "is_plain_name a \<Longrightarrow> expr_phrase path 0 (Identifier (tok_loc path a) (text_of a)) [a]"
| ph_typed_array: "is_tok LBRACKET a \<Longrightarrow> type_phrase path ty ts \<Longrightarrow> is_tok RBRACKET b \<Longrightarrow> is_tok LBRACKET c \<Longrightarrow>
    list_of (expr_phrase path 9) es us \<Longrightarrow> is_tok RBRACKET d \<Longrightarrow>
    expr_phrase path 0 (TypedArrayLiteral (tok_loc path a) ty es) (a # ts @ b # c # us @ [d])"
| ph_array_literal: "is_tok LBRACKET a \<Longrightarrow> list_of (expr_phrase path 9) es ts \<Longrightarrow> is_tok RBRACKET b \<Longrightarrow>
    expr_phrase path 0 (ArrayLiteral (tok_loc path a) es) (a # ts @ [b])"
| ph_tuple_literal: "is_tok LBRACE a \<Longrightarrow> list_of (expr_phrase path 9) es ts \<Longrightarrow> is_tok RBRACE b \<Longrightarrow>
    expr_phrase path 0 (TupleLiteral (tok_loc path a) es) (a # ts @ [b])"
| ph_map_entries: "is_tok LBRACE a \<Longrightarrow> comma_sep (entry_phrase path) es ts \<Longrightarrow> is_tok RBRACE b \<Longrightarrow>
    expr_phrase path 0 (MapEntriesLiteral (tok_loc path a) es) (a # ts @ [b])"
| ph_parens: "is_tok LPAREN a \<Longrightarrow> expr_phrase path 9 e ts \<Longrightarrow> is_tok RPAREN b \<Longrightarrow> expr_phrase path 0 e (a # ts @ [b])"
| ph_member: "expr_phrase path 1 e ts \<Longrightarrow> expr_loc e = Some l \<Longrightarrow> is_tok DOT a \<Longrightarrow> is_name b \<Longrightarrow>
    expr_phrase path 1 (Member l e (text_of b) (tok_loc path b)) (ts @ [a, b])"
| ph_generic_call: "expr_phrase path 1 e ts \<Longrightarrow> expr_loc e = Some l \<Longrightarrow> is_tok LT a \<Longrightarrow>
    list_of (type_phrase path) tys us \<Longrightarrow> is_tok GT b \<Longrightarrow> is_tok LPAREN c \<Longrightarrow> list_of (expr_phrase path 9) es vs \<Longrightarrow>
    is_tok RPAREN d \<Longrightarrow> expr_phrase path 1 (Call l e tys es) (ts @ a # us @ b # c # vs @ [d])"
| ph_call: "expr_phrase path 1 e ts \<Longrightarrow> expr_loc e = Some l \<Longrightarrow> is_tok LPAREN a \<Longrightarrow>
    list_of (expr_phrase path 9) es us \<Longrightarrow> is_tok RPAREN b \<Longrightarrow> expr_phrase path 1 (Call l e [] es) (ts @ a # us @ [b])"
| ph_index: "expr_phrase path 1 e ts \<Longrightarrow> expr_loc e = Some l \<Longrightarrow> is_tok LBRACKET a \<Longrightarrow> expr_phrase path 9 i us \<Longrightarrow>
    is_tok RBRACKET b \<Longrightarrow> expr_phrase path 1 (Index l e i) (ts @ a # us @ [b])"
| ph_pipe_extract: "is_tok PIPE_EXTRACT a \<Longrightarrow> is_name b \<Longrightarrow>
    expr_phrase path 2 (PipeExtract (tok_loc path a) (text_of b)) [a, b]"
| ph_channel_extract: "is_tok CHANNEL_EXTRACT a \<Longrightarrow> is_name b \<Longrightarrow>
    expr_phrase path 2 (ChannelExtract (tok_loc path a) (text_of b)) [a, b]"
| ph_unary: "is_tok (unary_token op) a \<Longrightarrow> expr_phrase path 2 e ts \<Longrightarrow>
    expr_phrase path 2 (Unary (tok_loc path a) op e) (a # ts)"
| ph_binary: "binary_token op = Some (Suc k, t) \<Longrightarrow> expr_phrase path (Suc k) e ts \<Longrightarrow> expr_loc e = Some l \<Longrightarrow>
    is_tok t a \<Longrightarrow> expr_phrase path k f us \<Longrightarrow> expr_phrase path (Suc k) (Binary l op e f) (ts @ a # us)"
| ph_pipe_insert: "expr_phrase path 8 e ts \<Longrightarrow> expr_loc e = Some l \<Longrightarrow> is_tok PIPE_INSERT a \<Longrightarrow> is_name b \<Longrightarrow>
    expr_phrase path 9 (PipeInsert l e (text_of b)) (ts @ [a, b])"
| ph_channel_insert: "expr_phrase path 8 e ts \<Longrightarrow> expr_loc e = Some l \<Longrightarrow> is_tok CHANNEL_INSERT a \<Longrightarrow> is_name b \<Longrightarrow>
    expr_phrase path 9 (ChannelInsert l e (text_of b)) (ts @ [a, b])"
| ph_loosen: "expr_phrase path k e ts \<Longrightarrow> expr_phrase path (Suc k) e ts"
| ph_entry: "expr_phrase path 9 e ts \<Longrightarrow> is_tok COLON a \<Longrightarrow> expr_phrase path 9 f us \<Longrightarrow>
    entry_phrase path (e, f) (ts @ a # us)"
| ph_assign: "targets_phrase path xs ts \<Longrightarrow> is_tok (assign_token op) b \<Longrightarrow> expr_phrase path 9 e us \<Longrightarrow>
    stmt_phrase path (Assignment (tok_loc path (hd ts)) xs op e) (ts @ b # us)"
| ph_assign_call: "targets_phrase path xs ts \<Longrightarrow> is_tok (assign_token op) b \<Longrightarrow> expr_phrase path 9 e us \<Longrightarrow>
    expr_loc e = Some l \<Longrightarrow> is_lambda e \<Longrightarrow> is_tok LPAREN c \<Longrightarrow> list_of (expr_phrase path 9) es vs \<Longrightarrow> is_tok RPAREN d \<Longrightarrow>
    stmt_phrase path (Assignment (tok_loc path (hd ts)) xs op (Call l e [] es)) (ts @ b # us @ c # vs @ [d])"
| ph_expr: "expr_phrase path 9 e ts \<Longrightarrow> expr_loc e = Some l \<Longrightarrow> stmt_phrase path (ExprStmt l e) ts"
| ph_expr_call: "expr_phrase path 9 e ts \<Longrightarrow> expr_loc e = Some l \<Longrightarrow> is_lambda e \<Longrightarrow> is_tok LPAREN a \<Longrightarrow>
    list_of (expr_phrase path 9) es us \<Longrightarrow> is_tok RPAREN b \<Longrightarrow>
    stmt_phrase path (ExprStmt l (Call l e [] es)) (ts @ a # us @ [b])"
| ph_return: "is_kw ''return'' a \<Longrightarrow> stmt_phrase path (Return (tok_loc path a) None) [a]"
| ph_return_value: "is_kw ''return'' a \<Longrightarrow> expr_phrase path 9 e ts \<Longrightarrow>
    stmt_phrase path (Return (tok_loc path a) (Some e)) (a # ts)"
| ph_break: "is_kw ''break'' a \<Longrightarrow> stmt_phrase path (Break (tok_loc path a)) [a]"
| ph_block_stmt: "block_phrase path (Block l sts) ts \<Longrightarrow> stmt_phrase path (BlockStmt l (Block l sts)) ts"
| ph_if: "is_kw ''if'' a \<Longrightarrow> branch_phrase path b ts \<Longrightarrow> else_phrase path bs e us \<Longrightarrow>
    stmt_phrase path (If (tok_loc path a) b bs e) (a # ts @ us)"
| ph_loop: "is_kw ''loop'' a \<Longrightarrow> block_phrase path b ts \<Longrightarrow> stmt_phrase path (Loop (tok_loc path a) None b) (a # ts)"
| ph_loop_while: "is_kw ''loop'' a \<Longrightarrow> expr_phrase path 9 e ts \<Longrightarrow> block_phrase path b us \<Longrightarrow>
    stmt_phrase path (Loop (tok_loc path a) (Some e) b) (a # ts @ us)"
| ph_match: "is_kw ''match'' a \<Longrightarrow> expr_phrase path 9 e ts \<Longrightarrow> is_tok LBRACE b \<Longrightarrow> cases_phrase path cs us \<Longrightarrow>
    is_tok RBRACE c \<Longrightarrow> stmt_phrase path (Match (tok_loc path a) e cs) (a # ts @ b # us @ [c])"
| ph_func: "is_kw ''func'' a \<Longrightarrow> is_name b \<Longrightarrow> type_params_phrase tps ts \<Longrightarrow> is_tok LPAREN c \<Longrightarrow>
    list_of (param_phrase path) ps us \<Longrightarrow> is_tok RPAREN d \<Longrightarrow> return_phrase path (tok_loc path a) ty vs \<Longrightarrow>
    block_phrase path body ws \<Longrightarrow>
    stmt_phrase path (FuncDecl (tok_loc path a) (text_of b) tps ps ty body (tok_loc path b))
      (a # b # ts @ c # us @ d # vs @ ws)"
| ph_enum_decl: "is_kw ''enum'' a \<Longrightarrow> is_name b \<Longrightarrow> is_tok LBRACE c \<Longrightarrow> list_of name_list_item ms ts \<Longrightarrow> is_tok RBRACE d \<Longrightarrow>
    stmt_phrase path (EnumDecl (tok_loc path a) (text_of b) ms (tok_loc path b)) (a # b # c # ts @ [d])"
| ph_object: "is_kw (if is_trait then ''trait'' else ''object'') a \<Longrightarrow> is_name b \<Longrightarrow> is_tok LBRACE c \<Longrightarrow>
    list_of (field_phrase path) fs ts \<Longrightarrow> is_tok RBRACE d \<Longrightarrow>
    stmt_phrase path (ObjectDecl (tok_loc path a) (text_of b) fs is_trait (tok_loc path b)) (a # b # c # ts @ [d])"
| ph_monitor: "is_kw ''monitor'' a \<Longrightarrow> block_phrase path b ts \<Longrightarrow> is_kw ''trap'' c \<Longrightarrow> is_tok LPAREN d \<Longrightarrow> is_name f \<Longrightarrow>
    is_tok COLON g \<Longrightarrow> type_phrase path ty us \<Longrightarrow> is_tok RPAREN h \<Longrightarrow> block_phrase path b' vs \<Longrightarrow>
    stmt_phrase path (Monitor (tok_loc path a) b (text_of f) ty b') (a # ts @ c # d # f # g # us @ h # vs)"
| ph_lock: "is_kw ''lock'' a \<Longrightarrow> is_name b \<Longrightarrow> opt_semicolon ts \<Longrightarrow>
    stmt_phrase path (Lock (tok_loc path a) (text_of b)) (a # b # ts)"
| ph_acquire: "is_kw ''acquire'' a \<Longrightarrow> is_name b \<Longrightarrow> stmt_phrase path (Acquire (tok_loc path a) (text_of b)) [a, b]"
| ph_release: "is_kw ''release'' a \<Longrightarrow> is_name b \<Longrightarrow> stmt_phrase path (Release (tok_loc path a) (text_of b)) [a, b]"
| ph_join: "is_kw ''join'' a \<Longrightarrow> is_tok LBRACKET b \<Longrightarrow> list_of (join_item path) es ts \<Longrightarrow> is_tok RBRACKET c \<Longrightarrow>
    stmt_phrase path (ExprStmt (tok_loc path a) (Call (tok_loc path a) (Identifier (tok_loc path a) ''join'') [] es))
      (a # b # ts @ [c])"
| ph_insert: "is_name a \<Longrightarrow> is_kw ''insert'' b \<Longrightarrow> is_tok LPAREN c \<Longrightarrow> expr_phrase path 9 e ts \<Longrightarrow> is_tok COMMA d \<Longrightarrow>
    expr_phrase path 9 f us \<Longrightarrow> is_tok RPAREN g \<Longrightarrow> opt_semicolon vs \<Longrightarrow>
    stmt_phrase path (Insert (tok_loc path a) (text_of a) e f) (a # b # c # ts @ d # us @ g # vs)"
| ph_reflect_for: "is_tok SCOPE a \<Longrightarrow> is_kw ''reflect_for'' b \<Longrightarrow> is_tok LPAREN c \<Longrightarrow> is_name d \<Longrightarrow> is_kw ''of'' f \<Longrightarrow>
    expr_phrase path 9 e ts \<Longrightarrow> is_tok RPAREN g \<Longrightarrow> block_phrase path body us \<Longrightarrow>
    stmt_phrase path (ReflectFor (tok_loc path a) (text_of d) e body) (a # b # c # d # f # ts @ g # us)"
| ph_typeid_match: "is_tok SCOPE a \<Longrightarrow> is_kw ''match'' b \<Longrightarrow> expr_phrase path 9 e ts \<Longrightarrow> is_tok LBRACE c \<Longrightarrow>
    arms_phrase path arms us \<Longrightarrow> is_tok RBRACE d \<Longrightarrow>
    stmt_phrase path (TypeidMatch (tok_loc path a) e arms) (a # b # ts @ c # us @ [d])"
| ph_no_stmts: "stmts_phrase path [] []"
| ph_stmts: "stmt_phrase path st ts \<Longrightarrow> opt_semicolon us \<Longrightarrow> stmts_phrase path sts vs \<Longrightarrow>
    stmts_phrase path (st # sts) (ts @ us @ vs)"
| ph_block: "is_tok LBRACE a \<Longrightarrow> stmts_phrase path sts ts \<Longrightarrow> is_tok RBRACE b \<Longrightarrow>
    block_phrase path (Block (tok_loc path a) sts) (a # ts @ [b])"
| ph_branch: "expr_phrase path 9 e ts \<Longrightarrow> block_phrase path b us \<Longrightarrow> branch_of e = (c, h) \<Longrightarrow>
    branch_phrase path (IfBranch c b h) (ts @ us)"
| ph_no_else: "else_phrase path [] None []"
| ph_else: "is_kw ''else'' a \<Longrightarrow> block_phrase path b ts \<Longrightarrow> else_phrase path [] (Some b) (a # ts)"
| ph_else_if: "is_kw ''else'' a \<Longrightarrow> is_kw ''if'' b \<Longrightarrow> branch_phrase path br ts \<Longrightarrow> else_phrase path bs e us \<Longrightarrow>
    else_phrase path (br # bs) e (a # b # ts @ us)"
| ph_no_cases: "cases_phrase path [] []"
| ph_case: "is_kw ''case'' a \<Longrightarrow> is_name b \<Longrightarrow> is_tok SCOPE c \<Longrightarrow> is_name d \<Longrightarrow> block_phrase path body ts \<Longrightarrow>
    cases_phrase path cs us \<Longrightarrow>
    cases_phrase path (MatchCase (tok_loc path a) (text_of b) (text_of d) body # cs) (a # b # c # d # ts @ us)"
| ph_no_arms: "arms_phrase path [] []"
| ph_default: "is_tok SCOPE a \<Longrightarrow> is_kw ''default'' b \<Longrightarrow> is_tok ARROW c \<Longrightarrow> expr_phrase path 9 e ts \<Longrightarrow> opt_semicolon us \<Longrightarrow>
    arms_phrase path [TypeidMatchCase (tok_loc path a) True [] e] (a # b # c # ts @ us)"
| ph_arm: "is_tok SCOPE a \<Longrightarrow> is_kw ''case'' b \<Longrightarrow> is_kw ''typeid'' c \<Longrightarrow> is_tok LPAREN d \<Longrightarrow> is_name f \<Longrightarrow>
    is_tok RPAREN g \<Longrightarrow> is_tok ARROW h \<Longrightarrow> expr_phrase path 9 e ts \<Longrightarrow> opt_semicolon us \<Longrightarrow> arms_phrase path arms vs \<Longrightarrow>
    arms_phrase path (TypeidMatchCase (tok_loc path a) False (text_of f) e # arms)
      (a # b # c # d # f # g # h # ts @ us @ vs)"
| ph_field: "is_name a \<Longrightarrow> is_tok COLON b \<Longrightarrow> type_phrase path ty ts \<Longrightarrow>
    field_phrase path (ObjectField (tok_loc path a) (text_of a) ty NullExpr) (a # b # ts)"
| ph_field_constraint: "is_name a \<Longrightarrow> is_tok COLON b \<Longrightarrow> type_phrase path ty ts \<Longrightarrow> is_tok LT c \<Longrightarrow>
    is_kw ''constraint'' d \<Longrightarrow> is_tok GT f \<Longrightarrow> is_tok LBRACKET g \<Longrightarrow> expr_phrase path 9 e us \<Longrightarrow> is_tok RBRACKET h \<Longrightarrow>
    field_phrase path (ObjectField (tok_loc path a) (text_of a) ty e) (a # b # ts @ c # d # f # g # us @ [h])"

section \<open>Programs\<close>

text \<open>\<open>load_package name\<close> has the keyword's location, a name of \<open>load_packages {name, ...}\<close> its own.\<close>

definition import_item :: "string \<Rightarrow> load_package_stmt \<Rightarrow> token list \<Rightarrow> bool" where
  "import_item path i ts \<longleftrightarrow> (\<exists>a. ts = [a] \<and> is_name a \<and> i = \<lparr>import_loc = tok_loc path a, import_package = text_of a\<rparr>)"

inductive imports_phrase :: "string \<Rightarrow> load_package_stmt list \<Rightarrow> token list \<Rightarrow> bool" for path where
  ph_no_imports: "imports_phrase path [] []"
| ph_load_package: "is_kw ''load_package'' a \<Longrightarrow> is_name b \<Longrightarrow> imports_phrase path is ts \<Longrightarrow>
    imports_phrase path (\<lparr>import_loc = tok_loc path a, import_package = text_of b\<rparr> # is) (a # b # ts)"
| ph_load_packages: "is_kw ''load_packages'' a \<Longrightarrow> is_tok LBRACE b \<Longrightarrow> comma_sep (import_item path) is ts \<Longrightarrow>
    is_tok RBRACE c \<Longrightarrow> imports_phrase path js us \<Longrightarrow> imports_phrase path (is @ js) (a # b # ts @ c # us)"

definition program_phrase :: "string \<Rightarrow> program \<Rightarrow> token list \<Rightarrow> bool" where
  "program_phrase path p ts \<longleftrightarrow> (\<exists>a b us vs. ts = a # b # us @ vs \<and> is_kw ''package'' a \<and> is_name b \<and>
     package_loc p = tok_loc path a \<and> package_name p = text_of b \<and>
     imports_phrase path (program_imports p) us \<and> stmts_phrase path (program_statements p) vs)"

end
