(* ===== verification/Parse_Logic.thy ===== *)
theory Parse_Logic
  imports Grammar
begin

text \<open>
  A small program logic for the parser. Errors are never taken back (\<open>sticky\<close>), so \<open>wp\<close> asks something of a
  run only while no error has been reported: a run without an error must not crash nor run out of fuel.
  What it then consumed is a list of tokens (\<open>moved\<close>).
\<close>

section \<open>Errors stay\<close>

definition failed :: "parser \<Rightarrow> bool" where
  "failed s \<longleftrightarrow> ctx_failed (p_context s)"

fun final_state :: "'a presult \<Rightarrow> parser" where
  "final_state (Done x s) = s"
| "final_state (Crashed s) = s"
| "final_state (OutOfFuel s) = s"

definition sticky :: "'a parsing \<Rightarrow> bool" where
  "sticky p \<longleftrightarrow> (\<forall>s. failed s \<longrightarrow> failed (final_state (p s)))"

named_theorems sticky_rules

lemma sticky_returns [sticky_rules]: "sticky (returns x)"
  by (simp add: sticky_def returns_def)

lemma sticky_crash [sticky_rules]: "sticky crash"
  by (simp add: sticky_def crash_def)

lemma sticky_out_of_fuel [sticky_rules]: "sticky out_of_fuel"
  by (simp add: sticky_def out_of_fuel_def)

lemma sticky_bindp [sticky_rules]: "sticky m \<Longrightarrow> (\<And>x. sticky (f x)) \<Longrightarrow> sticky (bindp m f)"
  unfolding sticky_def bindp_def by (auto split: presult.split)

lemma sticky_thenp [sticky_rules]: "sticky m \<Longrightarrow> sticky k \<Longrightarrow> sticky (thenp m k)"
  unfolding thenp_def by (rule sticky_bindp)

lemma sticky_if [sticky_rules]: "sticky a \<Longrightarrow> sticky b \<Longrightarrow> sticky (if c then a else b)"
  by simp

lemma sticky_ifp [sticky_rules]: "sticky c \<Longrightarrow> sticky a \<Longrightarrow> sticky b \<Longrightarrow> sticky (ifp c a b)"
  unfolding ifp_def by (intro sticky_bindp sticky_if)

lemma sticky_option [sticky_rules]: "sticky a \<Longrightarrow> (\<And>x. sticky (f x)) \<Longrightarrow> sticky (case v of None \<Rightarrow> a | Some x \<Rightarrow> f x)"
  by (cases v) simp_all

lemma sticky_prod [sticky_rules]: "(\<And>x y. sticky (f x y)) \<Longrightarrow> sticky (case v of (x, y) \<Rightarrow> f x y)"
  by (cases v) simp

lemma sticky_tokens [sticky_rules]:
  "sticky cur_token" "sticky prev_token" "sticky (loc_of t)" "sticky get_pos" "sticky (set_pos n)"
  "sticky is_recovering"
  by (simp_all add: sticky_def cur_token_def prev_token_def loc_of_def get_pos_def set_pos_def
      is_recovering_def failed_def)

lemma sticky_error_at [sticky_rules]: "sticky (error_at t msg)"
  by (simp add: sticky_def error_at_def failed_def ctx_failed_mono)

lemmas token_defs = at_end_def here_def prev_loc_def check_token_def check_kw_def check_name_def
  advance_token_def match_token_def match_kw_def error_here_def expect_token_def expect_kw_def
  expect_name_def at_boundary_def at_compiler_form_def at_underscore_def node_loc_def int_payload_def
  float_payload_def

lemma sticky_helpers [sticky_rules]:
  "sticky at_end" "sticky here" "sticky prev_loc" "sticky (check_token k)" "sticky (check_kw kw)"
  "sticky check_name" "sticky advance_token" "sticky (match_token k)" "sticky (match_kw kw)"
  "sticky (error_here msg)" "sticky (expect_token k msg)" "sticky (expect_kw kw)" "sticky expect_name"
  "sticky at_boundary" "sticky at_compiler_form" "sticky at_underscore" "sticky (node_loc e)"
  unfolding token_defs by (intro sticky_rules)+

lemma sticky_payload [sticky_rules]: "sticky (int_payload t)" "sticky (float_payload t)"
  by (cases "token_value t"; simp add: int_payload_def float_payload_def sticky_rules)+

lemma sticky_looks_like_call [sticky_rules]: "sticky looks_like_call_type_args"
proof -
  have "sticky (ifp (check_token LT) (returns b) (returns False))" for b by (intro sticky_rules)
  then show ?thesis by (simp add: sticky_def looks_like_call_type_args_def)
qed

lemma sticky_synchronize [sticky_rules]: "sticky (synchronize n)"
  by (induction n) (auto intro!: sticky_rules)

lemma sticky_comma_list [sticky_rules]: "sticky p \<Longrightarrow> sticky (comma_list n p)"
  by (induction n) (auto intro!: sticky_rules)

lemma sticky_list_until [sticky_rules]: "sticky p \<Longrightarrow> sticky (list_until k n p)"
  unfolding list_until_def by (intro sticky_rules)

section \<open>The parser is sticky\<close>

lemma sticky_type_body: "sticky p \<Longrightarrow> sticky (type_body n p)"
  unfolding type_body_def tuple_type_def map_type_def array_type_def lambda_type_def
  by (intro sticky_rules; assumption)

lemma sticky_parse_type [sticky_rules]: "sticky (parse_type n)"
  by (induction n) (simp_all add: sticky_out_of_fuel sticky_type_body)

lemma sticky_match_operator [sticky_rules]: "sticky (match_operator ops)"
  by (induction ops rule: match_operator.induct) (auto intro!: sticky_rules)

lemma sticky_binary_loop [sticky_rules]: "sticky p \<Longrightarrow> sticky (binary_loop n ops p left)"
  by (induction n arbitrary: left) (auto intro!: sticky_rules simp: make_binary_def)

lemma sticky_parse_binary: "sticky p \<Longrightarrow> sticky (parse_binary n ops p)"
  unfolding parse_binary_def by (intro sticky_rules; assumption)

lemma sticky_parse_pipe: "sticky p \<Longrightarrow> sticky (parse_pipe n p)"
  unfolding parse_pipe_def parse_or_def parse_and_def parse_equality_def parse_relational_def
    parse_additive_def parse_multiplicative_def
  by (intro sticky_rules sticky_parse_binary; assumption)

lemma sticky_parse_unary [sticky_rules]: "sticky p \<Longrightarrow> sticky (parse_unary n p)"
  by (induction n) (auto intro!: sticky_rules)

lemma sticky_call_arguments [sticky_rules]: "sticky p \<Longrightarrow> sticky (call_arguments n p msg)"
  unfolding call_arguments_def by (intro sticky_rules; assumption)

lemma sticky_postfix_loop [sticky_rules]: "sticky p \<Longrightarrow> sticky (postfix_loop m n p e)"
proof (induction m arbitrary: e)
  case (Suc m)
  note IH = Suc.IH [OF Suc.prems]
  show ?case
    unfolding postfix_loop.simps generic_call_def index_suffix_def
    by (intro sticky_rules IH Suc.prems)
qed (simp add: sticky_rules)

lemma sticky_statements [sticky_rules]: "sticky p \<Longrightarrow> sticky (statements_until_brace n p)"
  by (induction n) (auto intro!: sticky_rules)

lemma sticky_parse_block [sticky_rules]: "sticky p \<Longrightarrow> sticky (parse_block n p)"
  unfolding parse_block_def by (intro sticky_rules; assumption)

lemma sticky_parse_params [sticky_rules]: "sticky (parse_params n)"
  unfolding parse_params_def parse_param_def by (intro sticky_rules)

lemma sticky_map_entry [sticky_rules]: "sticky p \<Longrightarrow> sticky (map_entry p)"
  unfolding map_entry_def by (intro sticky_rules; assumption)

lemma sticky_literals [sticky_rules]: "sticky p \<Longrightarrow> sticky (parse_literals p)"
  unfolding parse_literals_def literal_def by (intro sticky_rules; assumption)

lemma sticky_parse_primary: "sticky p \<Longrightarrow> sticky q \<Longrightarrow> sticky (parse_primary n p q)"
  unfolding parse_primary_def parse_cast_def parse_alloc_def parse_free_def parse_simd_def parse_hint_call_def
    parse_lambda_def parse_map_literal_def parse_compiler_call_def parse_name_def typed_array_ahead_def
    parse_array_or_typed_array_def parse_braced_def braced_rest_def
  by (intro sticky_rules; assumption)

lemma sticky_expression_body: "sticky p \<Longrightarrow> sticky q \<Longrightarrow> sticky (expression_body n p q)"
  unfolding expression_body_def parse_postfix_def
  by (intro sticky_parse_pipe sticky_rules sticky_parse_primary; assumption)

lemma sticky_skip_names [sticky_rules]: "sticky (skip_names n)"
  by (induction n) (auto intro!: sticky_rules)

lemma sticky_attach [sticky_rules]: "sticky p \<Longrightarrow> sticky (maybe_attach_lambda_call n p e)"
  unfolding maybe_attach_lambda_call_def by (intro sticky_rules; assumption)

lemma sticky_assign_or_expr [sticky_rules]: "sticky p \<Longrightarrow> sticky (parse_assign_or_expr n p)"
  unfolding parse_assign_or_expr_def parse_targets_def parse_target_def match_assign_op_def
    parse_assigned_def parse_expr_stmt_def
  by (intro sticky_rules; assumption)

lemma sticky_branch_hint [sticky_rules]: "sticky (apply_branch_hint e)"
  by (auto simp: apply_branch_hint_def sticky_rules split: expr.split list.split)

lemma sticky_branch [sticky_rules]: "sticky p \<Longrightarrow> sticky q \<Longrightarrow> sticky (parse_branch n p q)"
  unfolding parse_branch_def by (intro sticky_rules; assumption)

lemma sticky_else_loop [sticky_rules]: "sticky p \<Longrightarrow> sticky q \<Longrightarrow> sticky (else_loop m n p q)"
  by (induction m) (auto intro!: sticky_rules)

lemma sticky_case_loop [sticky_rules]: "sticky q \<Longrightarrow> sticky (case_loop m n q)"
  by (induction m) (auto intro!: sticky_rules)

lemma sticky_typeid_loop [sticky_rules]: "sticky p \<Longrightarrow> sticky (typeid_loop n p)"
  by (induction n) (auto intro!: sticky_rules simp: typeid_arm_def)

lemma sticky_declarations [sticky_rules]:
  "sticky (parse_join n l)" "sticky (parse_enum n l)" "sticky q \<Longrightarrow> sticky (parse_func n q l)"
  "sticky p \<Longrightarrow> sticky (parse_object n p l b)"
  unfolding parse_join_def parse_enum_def parse_func_def parse_object_def parse_field_def field_constraint_def
    type_params_def return_type_def
  by (intro sticky_rules; assumption)+

lemma sticky_control [sticky_rules]:
  "sticky p \<Longrightarrow> sticky q \<Longrightarrow> sticky (parse_if n p q l)" "sticky p \<Longrightarrow> sticky q \<Longrightarrow> sticky (parse_loop n p q l)"
  "sticky p \<Longrightarrow> sticky q \<Longrightarrow> sticky (parse_match n p q l)" "sticky q \<Longrightarrow> sticky (parse_monitor n q l)"
  "sticky p \<Longrightarrow> sticky q \<Longrightarrow> sticky (parse_compiler_stmt n p q)"
  unfolding parse_if_def parse_loop_def parse_match_def parse_monitor_def parse_compiler_stmt_def
    parse_reflect_for_def parse_typeid_match_def
  by (intro sticky_rules; assumption)+

lemma sticky_keyword_stmt [sticky_rules]:
  "(\<And>l. sticky (p l)) \<Longrightarrow> sticky q \<Longrightarrow> sticky (keyword_stmt kw p q)" "sticky q \<Longrightarrow> sticky (named_stmt kw f q)"
  "sticky q \<Longrightarrow> sticky (lock_stmt q)"
  unfolding keyword_stmt_def named_stmt_def lock_stmt_def some_stmt_def by (intro sticky_rules; assumption)+

lemma sticky_statement_body: "sticky p \<Longrightarrow> sticky q \<Longrightarrow> sticky (statement_body n p q)"
  unfolding statement_body_def late_import_error_def return_value_def try_insert_def parse_insert_def
    simple_statement_def bare_block_def looks_like_braced_destructure_def looks_like_bare_destructure_def
    at_assignment_def some_stmt_def
  by (intro sticky_rules; assumption)

lemma sticky_recursive [sticky_rules]: "sticky (parse_expression n)" "sticky (parse_statement n)"
proof (induction n)
  case 0
  {
    case 1
    then show ?case by (simp add: sticky_def out_of_fuel_def)
  next
    case 2
    then show ?case by (simp add: sticky_def out_of_fuel_def)
  }
next
  case (Suc n)
  {
    case 1
    then show ?case using sticky_expression_body [OF Suc] by (simp add: sticky_def)
  next
    case 2
    then show ?case using sticky_statement_body [OF Suc] by (simp add: sticky_def)
  }
qed

lemma sticky_import_loop [sticky_rules]: "sticky (import_loop m n)"
  by (induction m) (auto intro!: sticky_rules simp: parse_load_package_def parse_load_packages_def)

lemma sticky_program_loop [sticky_rules]: "sticky (program_loop m n)"
  by (induction m) (auto intro!: sticky_rules simp: recover_progress_def)

end
