(* ===== verification/Parse_Wp.thy ===== *)
theory Parse_Wp
  imports Parse_Logic
begin

text \<open>
  The rules of the program logic. All runs are looked at from one starting state; \<open>moved\<close> relates it to
  a later state and the tokens consumed in between. A parser \<open>yields\<close> phrases when every run without an
  error ends with a result that is a phrase of the tokens it consumed.
\<close>

section \<open>States and consumed tokens\<close>

definition payloads_ok :: "token \<Rightarrow> bool" where
  "payloads_ok t \<longleftrightarrow> (token_kind t = INT_LITERAL \<longrightarrow> (\<exists>i. token_value t = IntP i)) \<and>
     (token_kind t = FLOAT_LITERAL \<longrightarrow> (\<exists>x. token_value t = FloatP x))"

definition tokens_ok :: "token list \<Rightarrow> bool" where
  "tokens_ok ts \<longleftrightarrow> ts \<noteq> [] \<and> token_kind (last ts) = END \<and> (\<forall>t\<in>set ts. payloads_ok t)"

definition cur :: "parser \<Rightarrow> token" where
  "cur s = p_tokens s ! p_pos s"

definition tokens_left :: "parser \<Rightarrow> nat" where
  "tokens_left s = length (p_tokens s) - p_pos s"

definition moved :: "parser \<Rightarrow> token list \<Rightarrow> parser \<Rightarrow> bool" where
  "moved s ts s' \<longleftrightarrow> s' = s\<lparr>p_pos := p_pos s + length ts\<rparr> \<and> tokens_ok (p_tokens s) \<and>
     p_pos s + length ts < length (p_tokens s) \<and> ts = take (length ts) (drop (p_pos s) (p_tokens s)) \<and>
     (\<forall>t\<in>set ts. token_kind t \<noteq> END)"

lemma moved_start: "tokens_ok (p_tokens s) \<Longrightarrow> p_pos s < length (p_tokens s) \<Longrightarrow> moved s [] s"
  by (simp add: moved_def)

lemma moved_length: "moved s ts s' \<Longrightarrow> length ts < tokens_left s"
  by (auto simp: moved_def tokens_left_def)

lemma moved_step:
  assumes "moved s ts s'" "token_kind (cur s') \<noteq> END"
  shows "moved s (ts @ [cur s']) (s'\<lparr>p_pos := p_pos s' + 1\<rparr>)"
proof -
  have pos: "p_pos s' = p_pos s + length ts" "p_tokens s' = p_tokens s" "p_pos s + length ts < length (p_tokens s)"
    and ok: "tokens_ok (p_tokens s)" and ts: "ts = take (length ts) (drop (p_pos s) (p_tokens s))"
    using assms(1) by (simp_all add: moved_def)
  have "p_pos s + length ts \<noteq> length (p_tokens s) - 1"
    using ok assms(2) pos by (auto simp: tokens_ok_def cur_def last_conv_nth)
  then have "p_pos s + length ts + 1 < length (p_tokens s)" using pos by linarith
  moreover have "ts @ [cur s'] = take (length ts + 1) (drop (p_pos s) (p_tokens s))"
  proof -
    have "take (length ts + 1) (drop (p_pos s) (p_tokens s)) =
        take (length ts) (drop (p_pos s) (p_tokens s)) @ [drop (p_pos s) (p_tokens s) ! length ts]"
      using pos by (simp add: take_Suc_conv_app_nth)
    then show ?thesis using ts pos by (simp add: cur_def)
  qed
  moreover have "\<forall>t\<in>set (ts @ [cur s']). token_kind t \<noteq> END"
    using assms by (simp add: moved_def)
  ultimately show ?thesis
    using ok pos assms(1) by (simp add: moved_def del: set_append)
qed

lemma moved_cur_bound: "moved s ts s' \<Longrightarrow> p_pos s' < length (p_tokens s')"
  by (auto simp: moved_def)

lemma moved_back: "moved s ts s1 \<Longrightarrow> moved s us s2 \<Longrightarrow> s2\<lparr>p_pos := p_pos s1\<rparr> = s1"
  by (auto simp: moved_def)

lemma moved_last:
  assumes "moved s ts s'" "ts \<noteq> []"
  shows "prev_token s' = Done (last ts) s'"
proof -
  have pos: "p_pos s + length ts < length (p_tokens s)"
    and ts: "ts = take (length ts) (drop (p_pos s) (p_tokens s))"
    using assms(1) by (simp_all add: moved_def)
  have "ts ! (length ts - 1) = drop (p_pos s) (p_tokens s) ! (length ts - 1)"
    using assms(2) by (subst ts) (simp add: nth_take)
  then have "last ts = p_tokens s ! (p_pos s + length ts - 1)"
    using assms(2) pos by (simp add: last_conv_nth) (metis Nat.add_diff_assoc One_nat_def Suc_leI length_greater_0_conv)
  then show ?thesis using assms by (auto simp: moved_def prev_token_def)
qed

lemma moved_payloads: "moved s ts s' \<Longrightarrow> payloads_ok (cur s')"
  by (auto simp: moved_def tokens_ok_def cur_def)

section \<open>Weakest preconditions\<close>

definition wp :: "'a parsing \<Rightarrow> ('a \<Rightarrow> parser \<Rightarrow> bool) \<Rightarrow> parser \<Rightarrow> bool" where
  "wp p Q s \<longleftrightarrow> failed (final_state (p s)) \<or> (\<exists>x s'. p s = Done x s' \<and> Q x s')"

lemma wp_mono: "wp p P s \<Longrightarrow> (\<And>x s'. P x s' \<Longrightarrow> Q x s') \<Longrightarrow> wp p Q s"
  by (auto simp: wp_def)

lemma wp_returns: "Q x s \<Longrightarrow> wp (returns x) Q s"
  by (simp add: wp_def returns_def)

lemma wp_bindp:
  assumes "wp m (\<lambda>x. wp (f x) Q) s" "\<And>x. sticky (f x)"
  shows "wp (bindp m f) Q s"
  using assms by (cases "m s") (auto simp: wp_def bindp_def sticky_def)

lemma wp_thenp: "wp m (\<lambda>_. wp k Q) s \<Longrightarrow> sticky k \<Longrightarrow> wp (thenp m k) Q s"
  unfolding thenp_def by (rule wp_bindp)

lemma wp_if: "(c \<Longrightarrow> wp a Q s) \<Longrightarrow> (\<not> c \<Longrightarrow> wp b Q s) \<Longrightarrow> wp (if c then a else b) Q s"
  by simp

lemma wp_ifp: "wp c (\<lambda>x. wp (if x then a else b) Q) s \<Longrightarrow> sticky a \<Longrightarrow> sticky b \<Longrightarrow> wp (ifp c a b) Q s"
  unfolding ifp_def by (rule wp_bindp) (simp_all)

lemma wp_case_option:
  "(v = None \<Longrightarrow> wp a Q s) \<Longrightarrow> (\<And>x. v = Some x \<Longrightarrow> wp (f x) Q s) \<Longrightarrow> wp (case v of None \<Rightarrow> a | Some x \<Rightarrow> f x) Q s"
  by (cases v) simp_all

lemma wp_case_prod: "(\<And>x y. v = (x, y) \<Longrightarrow> wp (f x y) Q s) \<Longrightarrow> wp (case v of (x, y) \<Rightarrow> f x y) Q s"
  by (cases v) simp

lemma wp_det: "p s = Done x s' \<Longrightarrow> Q x s' \<Longrightarrow> wp p Q s"
  by (simp add: wp_def)

section \<open>Reading and consuming tokens\<close>

lemma moved_cur_token: "moved s0 ts s \<Longrightarrow> cur_token s = Done (cur s) s"
  using moved_cur_bound [of s0 ts s] by (simp add: cur_token_def cur_def)

lemma run_checks:
  assumes "moved s0 ts s"
  shows "at_end s = Done (is_tok END (cur s)) s"
    "k \<noteq> END \<Longrightarrow> check_token k s = Done (is_tok k (cur s)) s"
    "check_kw kw s = Done (is_kw kw (cur s)) s"
    "check_name s = Done (is_name (cur s)) s"
    "here s = Done (tok_loc (p_path s0) (cur s)) s"
    "at_underscore s = Done (token_kind (cur s) = SYMBOL \<and> text_of (cur s) = ''_'') s"
    "at_compiler_form s = Done (token_kind (cur s) = KEYWORD \<and> text_of (cur s) \<in> set compiler_forms) s"
  using moved_cur_token [OF assms] assms
  by (auto simp: at_end_def check_token_def check_kw_def check_name_def here_def at_underscore_def
      at_compiler_form_def bindp_def returns_def is_tok_def is_kw_def is_name_def loc_of_def tok_loc_def moved_def)

lemma run_advance:
  assumes "moved s0 ts s" "token_kind (cur s) \<noteq> END"
  shows "\<exists>s'. advance_token s = Done (cur s) s' \<and> moved s0 (ts @ [cur s]) s'"
proof -
  let ?s = "s\<lparr>p_pos := p_pos s + 1\<rparr>"
  have "moved s0 (ts @ [cur s]) ?s" using moved_step [OF assms] .
  moreover from moved_last [OF this] have "prev_token ?s = Done (cur s) ?s" by simp
  ultimately show ?thesis
    using assms(2) run_checks(1) [OF assms(1)]
    by (simp add: advance_token_def ifp_def bindp_def thenp_def get_pos_def set_pos_def is_tok_def)
qed

text \<open>The rules below take the state's \<open>moved\<close> fact as their first premise.\<close>

named_theorems wp_tokens

lemma wp_at_end [wp_tokens]: "moved s0 ts s \<Longrightarrow> Q (is_tok END (cur s)) s \<Longrightarrow> wp at_end Q s"
  by (rule wp_det) (rule run_checks)

lemma wp_check_token [wp_tokens]:
  "moved s0 ts s \<Longrightarrow> Q (is_tok k (cur s)) s \<Longrightarrow> k \<noteq> END \<Longrightarrow> wp (check_token k) Q s"
  by (rule wp_det) (rule run_checks)

lemma wp_check_kw [wp_tokens]: "moved s0 ts s \<Longrightarrow> Q (is_kw kw (cur s)) s \<Longrightarrow> wp (check_kw kw) Q s"
  by (rule wp_det) (rule run_checks)

lemma wp_check_name [wp_tokens]: "moved s0 ts s \<Longrightarrow> Q (is_name (cur s)) s \<Longrightarrow> wp check_name Q s"
  by (rule wp_det) (rule run_checks)

lemma wp_at_underscore [wp_tokens]:
  "moved s0 ts s \<Longrightarrow> Q (token_kind (cur s) = SYMBOL \<and> text_of (cur s) = ''_'') s \<Longrightarrow> wp at_underscore Q s"
  by (rule wp_det) (rule run_checks)

lemma wp_at_compiler_form [wp_tokens]:
  "moved s0 ts s \<Longrightarrow> Q (token_kind (cur s) = KEYWORD \<and> text_of (cur s) \<in> set compiler_forms) s \<Longrightarrow>
   wp at_compiler_form Q s"
  by (rule wp_det) (rule run_checks)

lemma wp_here [wp_tokens]: "moved s0 ts s \<Longrightarrow> Q (tok_loc (p_path s0) (cur s)) s \<Longrightarrow> wp here Q s"
  by (rule wp_det) (rule run_checks)

lemma wp_cur_token [wp_tokens]: "moved s0 ts s \<Longrightarrow> Q (cur s) s \<Longrightarrow> wp cur_token Q s"
  by (rule wp_det) (rule moved_cur_token)

lemma wp_prev_token [wp_tokens]: "moved s0 (ts @ [t]) s \<Longrightarrow> Q t s \<Longrightarrow> wp prev_token Q s"
  by (rule wp_det) (use moved_last [of s0 "ts @ [t]" s] in simp_all)

lemma wp_loc_of [wp_tokens]: "moved s0 ts s \<Longrightarrow> Q (tok_loc (p_path s0) t) s \<Longrightarrow> wp (loc_of t) Q s"
  by (rule wp_det) (auto simp: loc_of_def tok_loc_def moved_def)

lemma wp_prev_loc [wp_tokens]: "moved s0 (ts @ [t]) s \<Longrightarrow> Q (tok_loc (p_path s0) t) s \<Longrightarrow> wp prev_loc Q s"
  unfolding prev_loc_def
  by (rule wp_bindp, rule wp_prev_token, assumption, rule wp_loc_of) (auto intro: sticky_rules)

lemma wp_get_pos [wp_tokens]: "moved s0 ts s \<Longrightarrow> Q (p_pos s) s \<Longrightarrow> wp get_pos Q s"
  by (rule wp_det) (simp add: get_pos_def)

lemma wp_is_recovering [wp_tokens]: "moved s0 ts s \<Longrightarrow> Q (p_recover s) s \<Longrightarrow> wp is_recovering Q s"
  by (rule wp_det) (simp add: is_recovering_def)

lemma wp_set_pos: "moved s0 us s' \<Longrightarrow> moved s0 ts s \<Longrightarrow> Q () s \<Longrightarrow> wp (set_pos (p_pos s)) Q s'"
  by (rule wp_det) (simp_all add: set_pos_def moved_back)

lemma wp_advance [wp_tokens]:
  assumes "moved s0 ts s" "\<And>s'. moved s0 (ts @ [cur s]) s' \<Longrightarrow> Q (cur s) s'" "token_kind (cur s) \<noteq> END"
  shows "wp advance_token Q s"
  using run_advance [OF assms(1,3)] assms(2) by (auto simp: wp_def)

lemma wp_match_token [wp_tokens]:
  assumes "moved s0 ts s" "\<And>s'. is_tok k (cur s) \<Longrightarrow> moved s0 (ts @ [cur s]) s' \<Longrightarrow> Q True s'"
    "\<not> is_tok k (cur s) \<Longrightarrow> Q False s" "k \<noteq> END"
  shows "wp (match_token k) Q s"
  unfolding match_token_def
  by (rule wp_ifp, rule wp_check_token [OF assms(1)], rule wp_if, rule wp_thenp, rule wp_advance [OF assms(1)])
    (auto intro!: wp_returns sticky_rules assms simp: is_tok_def assms(4))

lemma wp_match_kw [wp_tokens]:
  assumes "moved s0 ts s" "\<And>s'. is_kw kw (cur s) \<Longrightarrow> moved s0 (ts @ [cur s]) s' \<Longrightarrow> Q True s'"
    "\<not> is_kw kw (cur s) \<Longrightarrow> Q False s"
  shows "wp (match_kw kw) Q s"
  unfolding match_kw_def
  by (rule wp_ifp, rule wp_check_kw [OF assms(1)], rule wp_if, rule wp_thenp, rule wp_advance [OF assms(1)])
    (auto intro!: wp_returns sticky_rules assms simp: is_kw_def)

lemma error_fails: "failed (final_state (error_at t msg s))"
  by (simp add: error_at_def failed_def ctx_report_failed span_report_def)

lemma wp_error_here: "moved s0 ts s \<Longrightarrow> wp (error_here msg) Q s"
  by (simp add: wp_def error_here_def bindp_def moved_cur_token error_fails)

lemma wp_after_error: "moved s0 ts s \<Longrightarrow> sticky k \<Longrightarrow> wp (thenp (error_here msg) k) Q s"
  by (rule wp_thenp) (rule wp_error_here)

lemma wp_expect_token [wp_tokens]:
  assumes "moved s0 ts s" "\<And>s'. is_tok k (cur s) \<Longrightarrow> moved s0 (ts @ [cur s]) s' \<Longrightarrow> Q (cur s) s'" "k \<noteq> END"
  shows "wp (expect_token k msg) Q s"
  unfolding expect_token_def
  by (rule wp_ifp, rule wp_check_token [OF assms(1)], rule wp_if, rule wp_advance [OF assms(1)])
    (auto intro!: wp_after_error [OF assms(1)] sticky_rules assms simp: is_tok_def assms(3))

lemma wp_expect_kw [wp_tokens]:
  assumes "moved s0 ts s" "\<And>s'. is_kw kw (cur s) \<Longrightarrow> moved s0 (ts @ [cur s]) s' \<Longrightarrow> Q () s'"
  shows "wp (expect_kw kw) Q s"
  unfolding expect_kw_def
  by (rule wp_ifp, rule wp_match_kw [OF assms(1)])
    (auto intro!: wp_returns wp_error_here [OF assms(1)] sticky_rules assms)

lemma name_no_end [wp_tokens]: "is_name t \<Longrightarrow> token_kind t \<noteq> END"
  by (auto simp: is_name_def)

lemma kw_no_end [wp_tokens]: "is_kw kw t \<Longrightarrow> token_kind t \<noteq> END"
  by (auto simp: is_kw_def)

lemma tok_no_end [wp_tokens]: "is_tok k t \<Longrightarrow> k \<noteq> END \<Longrightarrow> token_kind t \<noteq> END"
  by (auto simp: is_tok_def)

lemma wp_expect_name [wp_tokens]:
  assumes "moved s0 ts s" "\<And>s'. is_name (cur s) \<Longrightarrow> moved s0 (ts @ [cur s]) s' \<Longrightarrow> Q (text_of (cur s)) s'"
  shows "wp expect_name Q s"
  unfolding expect_name_def
  by (rule wp_ifp, rule wp_check_name [OF assms(1)], rule wp_if, rule wp_bindp, rule wp_advance [OF assms(1)])
    (auto intro!: wp_returns wp_after_error [OF assms(1)] sticky_rules assms dest: name_no_end)

section \<open>Yielding phrases\<close>

text \<open>
  The start state and a lower bound on the tokens already consumed bound the fuel a parser needs.
\<close>

definition yields :: "parser \<Rightarrow> nat \<Rightarrow> 'a parsing \<Rightarrow> ('a \<Rightarrow> token list \<Rightarrow> bool) \<Rightarrow> bool" where
  "yields s0 lo p P \<longleftrightarrow> (\<forall>ts s. moved s0 ts s \<longrightarrow> lo \<le> length ts \<longrightarrow>
     wp p (\<lambda>x s'. \<exists>us. P x us \<and> moved s0 (ts @ us) s') s)"

lemma yieldsI:
  "(\<And>ts s. moved s0 ts s \<Longrightarrow> lo \<le> length ts \<Longrightarrow> wp p (\<lambda>x s'. \<exists>us. P x us \<and> moved s0 (ts @ us) s') s) \<Longrightarrow>
   yields s0 lo p P"
  by (simp add: yields_def)

lemma yields_later: "yields s0 lo p P \<Longrightarrow> lo \<le> hi \<Longrightarrow> yields s0 hi p P"
  by (simp add: yields_def)

lemma wp_yields:
  assumes "moved s0 ts s" "yields s0 lo p P"
    "\<And>x us s'. P x us \<Longrightarrow> moved s0 (ts @ us) s' \<Longrightarrow> Q x s'" "lo \<le> length ts"
  shows "wp p Q s"
  by (rule wp_mono [where P = "\<lambda>x s'. \<exists>us. P x us \<and> moved s0 (ts @ us) s'"]) (use assms in \<open>auto simp: yields_def\<close>)

lemma yield_exit: "moved s0 vs s' \<Longrightarrow> vs = ts @ us \<Longrightarrow> P x us \<Longrightarrow> \<exists>us. P x us \<and> moved s0 (ts @ us) s'"
  by auto

lemma yields_comma_list:
  assumes "yields s0 lo item P" "sticky item" "tokens_left s0 < lo + n"
  shows "yields s0 lo (comma_list n item) (comma_sep P)"
  using assms
proof (induction n arbitrary: lo)
  case 0
  then show ?case by (auto simp: yields_def dest: moved_length)
next
  case (Suc n)
  have rest: "yields s0 (lo + 1) (comma_list n item) (comma_sep P)"
    using Suc.prems by (intro Suc.IH) (auto intro: yields_later)
  show ?case
  proof (rule yieldsI)
    fix ts s
    assume s: "moved s0 ts s" "lo \<le> length ts"
    show "wp (comma_list (Suc n) item) (\<lambda>x s'. \<exists>us. comma_sep P x us \<and> moved s0 (ts @ us) s') s"
      unfolding comma_list.simps
    proof (rule wp_bindp, rule wp_yields [OF s(1) Suc.prems(1) _ s(2)])
      fix x us s'
      assume x: "P x us" and s': "moved s0 (ts @ us) s'"
      show "wp (ifp (match_token COMMA) (bindp (comma_list n item) (\<lambda>xs. returns (x # xs))) (returns [x]))
          (\<lambda>x s'. \<exists>us. comma_sep P x us \<and> moved s0 (ts @ us) s') s'"
      proof (rule wp_ifp, rule wp_match_token [OF s'])
        fix s2
        assume c: "is_tok COMMA (cur s')" and s2: "moved s0 ((ts @ us) @ [cur s']) s2"
        show "wp (if True then bindp (comma_list n item) (\<lambda>xs. returns (x # xs)) else returns [x])
            (\<lambda>x s'. \<exists>us. comma_sep P x us \<and> moved s0 (ts @ us) s') s2"
          unfolding if_True
        proof (rule wp_bindp, rule wp_yields [OF s2 rest])
          fix xs vs s3
          assume "comma_sep P xs vs" "moved s0 (((ts @ us) @ [cur s']) @ vs) s3"
          then show "wp (returns (x # xs)) (\<lambda>x s'. \<exists>us. comma_sep P x us \<and> moved s0 (ts @ us) s') s3"
            using comma_more [of P x us "cur s'" xs vs] x c by (intro wp_returns exI [of _ "us @ cur s' # vs"]) simp
        qed (use s in \<open>auto intro: sticky_rules\<close>)
      next
        show "wp (if False then bindp (comma_list n item) (\<lambda>xs. returns (x # xs)) else returns [x])
            (\<lambda>x s'. \<exists>us. comma_sep P x us \<and> moved s0 (ts @ us) s') s'"
          using x s' by (auto intro!: wp_returns comma_one)
      qed (use Suc.prems in \<open>auto intro: sticky_rules\<close>)
    qed (use Suc.prems in \<open>auto intro!: sticky_rules\<close>)
  qed
qed

lemma yields_list_until:
  assumes "yields s0 lo item P" "sticky item" "tokens_left s0 < lo + n" "close \<noteq> END"
  shows "yields s0 lo (list_until close n item) (list_of P)"
proof (rule yieldsI)
  fix ts s
  assume s: "moved s0 ts s" "lo \<le> length ts"
  show "wp (list_until close n item) (\<lambda>x s'. \<exists>us. list_of P x us \<and> moved s0 (ts @ us) s') s"
    unfolding list_until_def
  proof (rule wp_ifp, rule wp_check_token [OF s(1)], rule wp_if)
    assume "is_tok close (cur s)"
    show "wp (returns []) (\<lambda>x s'. \<exists>us. list_of P x us \<and> moved s0 (ts @ us) s') s"
      using s by (auto intro!: wp_returns exI [of _ "[]"] simp: list_of_def)
  next
    show "wp (comma_list n item) (\<lambda>x s'. \<exists>us. list_of P x us \<and> moved s0 (ts @ us) s') s"
      by (rule wp_yields [OF s(1) yields_comma_list [OF assms(1-3)] _ s(2)]) (auto simp: list_of_def)
  qed (use assms in \<open>auto intro: sticky_rules\<close>)
qed

section \<open>Types\<close>

lemmas wp_structure = wp_ifp wp_if wp_bindp wp_thenp wp_case_option wp_case_prod wp_returns

named_theorems phrases

declare type_phrase.intros [phrases]

lemma yields_type_body:
  assumes p: "yields s0 (lo + 1) p (type_phrase (p_path s0))" and st: "sticky p" and fuel: "tokens_left s0 < lo + Suc n"
  shows "yields s0 lo (type_body n p) (type_phrase (p_path s0))"
proof -
  have l: "yields s0 (lo + 1) (list_until k n p) (list_of (type_phrase (p_path s0)))" if "k \<noteq> END" for k
    using assms that by (intro yields_list_until) auto
  note st [sticky_rules] wp_yields [OF _ p, wp_tokens] wp_yields [OF _ l, wp_tokens]
  show ?thesis
    unfolding type_body_def tuple_type_def map_type_def array_type_def lambda_type_def
    by (rule yieldsI, ((rule wp_structure | (rule wp_tokens, assumption)
      | (rule yield_exit, assumption, (simp only: append_assoc append.simps; rule refl),
          rule phrases; (assumption | (simp; fail)))
      | (intro sticky_rules; fail) | (simp; fail))+))
qed
end
