(* ===== verification/Parse_Sound.thy ===== *)
theory Parse_Sound
  imports Parse_Wp
begin

text \<open>
  Every run of the parser that reports no error returns a tree, and the tokens it consumed are a phrase
  of the grammar for that tree. So such a run neither crashes nor runs forever.
\<close>

section \<open>Types\<close>

lemma yields_parse_type: "tokens_left s0 < lo + n \<Longrightarrow> yields s0 lo (parse_type n) (type_phrase (p_path s0))"
proof (induction n arbitrary: lo)
  case 0
  then show ?case by (auto simp: yields_def dest: moved_length)
next
  case (Suc n)
  then show ?case
    unfolding parse_type.simps by (intro yields_type_body Suc.IH sticky_rules) auto
qed

lemma yields_parse_params:
  assumes "tokens_left s0 < lo + n"
  shows "yields s0 lo (parse_params n) (list_of (param_phrase (p_path s0)))"
proof -
  have ty: "yields s0 lo (parse_type n) (type_phrase (p_path s0))" by (rule yields_parse_type [OF assms])
  note wp_yields [OF _ ty, wp_tokens]
  have "yields s0 lo (parse_param n) (param_phrase (p_path s0))"
    unfolding parse_param_def
    by (rule yieldsI, ((rule wp_structure | (rule wp_tokens, assumption)
      | (rule yield_exit, assumption, (simp only: append_assoc append.simps; rule refl),
          (simp add: param_phrase_def; fail))
      | (intro sticky_rules; fail) | (simp; fail))+))
  then show ?thesis
    unfolding parse_params_def
    by (rule yields_list_until) (use assms in \<open>auto intro!: sticky_rules simp: parse_param_def\<close>)
qed

section \<open>Expressions\<close>

definition callee_ok :: "expr \<Rightarrow> bool" where
  "callee_ok e \<longleftrightarrow> e \<noteq> NullExpr \<and> (\<forall>l c tys args. e = Call l c tys args \<longrightarrow> c \<noteq> NullExpr)"

lemma phrase_callee_ok:
  "expr_phrase path k e ts \<Longrightarrow> callee_ok e" "entry_phrase path en ts \<Longrightarrow> True" "stmt_phrase path st ts \<Longrightarrow> True"
  "stmts_phrase path sts ts \<Longrightarrow> True" "block_phrase path b ts \<Longrightarrow> True" "branch_phrase path br ts \<Longrightarrow> True"
  "else_phrase path bs el ts \<Longrightarrow> True" "cases_phrase path cs ts \<Longrightarrow> True" "arms_phrase path as ts \<Longrightarrow> True"
  "field_phrase path f ts \<Longrightarrow> True"
  by (induction rule: expr_phrase_entry_phrase_stmt_phrase_stmts_phrase_block_phrase_branch_phrase_else_phrase_cases_phrase_arms_phrase_field_phrase.inducts)
    (auto simp: callee_ok_def)

lemma phrase_has_loc: "expr_phrase path k e ts \<Longrightarrow> \<exists>l. expr_loc e = Some l"
  using phrase_callee_ok(1) [of path k e ts] by (cases "expr_loc e") (auto simp: callee_ok_def)

lemma wp_node_loc [wp_tokens]:
  assumes "expr_phrase path k e ts" "\<And>l. expr_loc e = Some l \<Longrightarrow> Q l s"
  shows "wp (node_loc e) Q s"
  using phrase_has_loc [OF assms(1)] assms(2) by (auto simp: node_loc_def wp_def returns_def)

definition operators_ok :: "nat \<Rightarrow> (token_type \<times> binary_op) list \<Rightarrow> bool" where
  "operators_ok k ops \<longleftrightarrow> (\<forall>(t, op)\<in>set ops. binary_token op = Some (Suc k, t) \<and> t \<noteq> END)"

lemma wp_match_operator:
  assumes "moved s0 ts s" "operators_ok k ops"
    "\<And>op s'. binary_token op = Some (Suc k, token_kind (cur s)) \<Longrightarrow> moved s0 (ts @ [cur s]) s' \<Longrightarrow> Q (Some op) s'"
    "Q None s"
  shows "wp (match_operator ops) Q s"
  using assms(2)
proof (induction ops rule: match_operator.induct)
  case 1
  then show ?case using assms by (simp add: wp_returns)
next
  case (2 kind op ops)
  then show ?case
    unfolding match_operator.simps
    by (intro wp_ifp wp_match_token [OF assms(1)])
      (auto intro!: wp_returns assms(3) sticky_rules simp: operators_ok_def is_tok_def)
qed

lemma wp_binary_loop:
  assumes operand: "yields s0 (lo + 1) operand (expr_phrase (p_path s0) k)" and st: "sticky operand"
    and ops: "operators_ok k ops"
  shows "moved s0 (ts @ us) s \<Longrightarrow> expr_phrase (p_path s0) (Suc k) left us \<Longrightarrow> lo \<le> length (ts @ us) \<Longrightarrow>
    tokens_left s0 < length (ts @ us) + n \<Longrightarrow>
    wp (binary_loop n ops operand left) (\<lambda>e s'. \<exists>vs. expr_phrase (p_path s0) (Suc k) e vs \<and> moved s0 (ts @ vs) s') s"
proof (induction n arbitrary: us s left)
  case 0
  then show ?case using moved_length by fastforce
next
  case (Suc n)
  note st [sticky_rules] wp_yields [OF _ operand, wp_tokens]
  show ?case
    unfolding binary_loop.simps make_binary_def
  proof (rule wp_bindp, rule wp_match_operator [OF Suc.prems(1) ops])
    fix op s1
    assume op: "binary_token op = Some (Suc k, token_kind (cur s))" and s1: "moved s0 ((ts @ us) @ [cur s]) s1"
    show "wp (case Some op of None \<Rightarrow> returns left
        | Some op \<Rightarrow> bindp operand (\<lambda>right. bindp (bindp (node_loc left) (\<lambda>l. returns (Binary l op left right)))
            (binary_loop n ops operand)))
        (\<lambda>e s'. \<exists>vs. expr_phrase (p_path s0) (Suc k) e vs \<and> moved s0 (ts @ vs) s') s1"
      unfolding option.case
    proof (rule wp_bindp, rule wp_yields [OF s1 operand])
      fix right vs s2
      assume right: "expr_phrase (p_path s0) k right vs" and s2: "moved s0 (((ts @ us) @ [cur s]) @ vs) s2"
      show "wp (bindp (bindp (node_loc left) (\<lambda>l. returns (Binary l op left right))) (binary_loop n ops operand))
          (\<lambda>e s'. \<exists>vs. expr_phrase (p_path s0) (Suc k) e vs \<and> moved s0 (ts @ vs) s') s2"
      proof (rule wp_bindp, rule wp_bindp, rule wp_node_loc [OF Suc.prems(2)], rule wp_returns)
        fix l
        assume l: "expr_loc left = Some l"
        show "wp (binary_loop n ops operand (Binary l op left right))
            (\<lambda>e s'. \<exists>vs. expr_phrase (p_path s0) (Suc k) e vs \<and> moved s0 (ts @ vs) s') s2"
        proof (rule Suc.IH [of "us @ cur s # vs"])
          show "expr_phrase (p_path s0) (Suc k) (Binary l op left right) (us @ cur s # vs)"
            using ph_binary [OF op Suc.prems(2) l _ right] by (simp add: is_tok_def)
        qed (use s2 Suc.prems in auto)
      qed (auto intro!: sticky_rules)
    qed (use Suc.prems in \<open>auto intro!: sticky_rules\<close>)
  next
    show "wp (case None of None \<Rightarrow> returns left
        | Some op \<Rightarrow> bindp operand (\<lambda>right. bindp (bindp (node_loc left) (\<lambda>l. returns (Binary l op left right)))
            (binary_loop n ops operand)))
        (\<lambda>e s'. \<exists>vs. expr_phrase (p_path s0) (Suc k) e vs \<and> moved s0 (ts @ vs) s') s"
      using Suc.prems by (auto intro: wp_returns)
  qed (auto intro!: sticky_rules)
qed

lemma yields_parse_binary:
  assumes "yields s0 lo operand (expr_phrase (p_path s0) k)" "sticky operand" "operators_ok k ops" "tokens_left s0 < lo + n"
  shows "yields s0 lo (parse_binary n ops operand) (expr_phrase (p_path s0) (Suc k))"
proof (rule yieldsI)
  fix ts s
  assume s: "moved s0 ts s" "lo \<le> length ts"
  show "wp (parse_binary n ops operand) (\<lambda>e s'. \<exists>vs. expr_phrase (p_path s0) (Suc k) e vs \<and> moved s0 (ts @ vs) s') s"
    unfolding parse_binary_def
  proof (rule wp_bindp, rule wp_yields [OF s(1) assms(1) _ s(2)])
    fix e us s'
    assume "expr_phrase (p_path s0) k e us" "moved s0 (ts @ us) s'"
    then show "wp (binary_loop n ops operand e)
        (\<lambda>e s'. \<exists>vs. expr_phrase (p_path s0) (Suc k) e vs \<and> moved s0 (ts @ vs) s') s'"
      using s assms by (intro wp_binary_loop [where lo = lo] ph_loosen) (auto intro: yields_later)
  qed (use assms in \<open>auto intro!: sticky_rules\<close>)
qed

declare expr_phrase_entry_phrase_stmt_phrase_stmts_phrase_block_phrase_branch_phrase_else_phrase_cases_phrase_arms_phrase_field_phrase.intros [phrases]

lemma loosen [phrases]:
  "expr_phrase path 8 e ts \<Longrightarrow> expr_phrase path 9 e ts" "expr_phrase path 1 e ts \<Longrightarrow> expr_phrase path 2 e ts"
  "expr_phrase path 0 e ts \<Longrightarrow> expr_phrase path 1 e ts"
  using ph_loosen [of path 8 e ts] ph_loosen [of path 1 e ts] ph_loosen [of path 0 e ts]
  by (simp_all add: numeral_2_eq_2)

lemma yields_levels:
  assumes "yields s0 lo operand (expr_phrase (p_path s0) k)" "sticky operand" "tokens_left s0 < lo + n"
  shows "k = 2 \<Longrightarrow> yields s0 lo (parse_multiplicative n operand) (expr_phrase (p_path s0) 3)"
    "k = 3 \<Longrightarrow> yields s0 lo (parse_additive n operand) (expr_phrase (p_path s0) 4)"
    "k = 4 \<Longrightarrow> yields s0 lo (parse_relational n operand) (expr_phrase (p_path s0) 5)"
    "k = 5 \<Longrightarrow> yields s0 lo (parse_equality n operand) (expr_phrase (p_path s0) 6)"
    "k = 6 \<Longrightarrow> yields s0 lo (parse_and n operand) (expr_phrase (p_path s0) 7)"
    "k = 7 \<Longrightarrow> yields s0 lo (parse_or n operand) (expr_phrase (p_path s0) 8)"
  using yields_parse_binary [OF assms(1,2) _ assms(3)]
  by (simp_all add: parse_multiplicative_def parse_additive_def parse_relational_def parse_equality_def
      parse_and_def parse_or_def operators_ok_def eval_nat_numeral)

lemma sticky_levels [sticky_rules]:
  assumes "sticky p"
  shows "sticky (parse_multiplicative n p)" "sticky (parse_additive n p)" "sticky (parse_relational n p)"
    "sticky (parse_equality n p)" "sticky (parse_and n p)" "sticky (parse_or n p)"
  unfolding parse_or_def parse_and_def parse_equality_def parse_relational_def parse_additive_def
    parse_multiplicative_def
  by (rule sticky_parse_binary [OF assms])+

lemma yields_parse_pipe:
  assumes operand: "yields s0 lo operand (expr_phrase (p_path s0) 2)" "sticky operand" "tokens_left s0 < lo + n"
  shows "yields s0 lo (parse_pipe n operand) (expr_phrase (p_path s0) 9)"
proof -
  note operand(2) [sticky_rules]
  have mul: "yields s0 lo (parse_multiplicative n operand) (expr_phrase (p_path s0) 3)"
    by (rule yields_levels [OF operand]) simp
  have add: "yields s0 lo (parse_additive n (parse_multiplicative n operand)) (expr_phrase (p_path s0) 4)"
    by (rule yields_levels [OF mul _ operand(3)]) (intro sticky_rules, simp)
  have rel: "yields s0 lo (parse_relational n (parse_additive n (parse_multiplicative n operand)))
      (expr_phrase (p_path s0) 5)"
    by (rule yields_levels [OF add _ operand(3)]) (intro sticky_rules, simp)
  have eq: "yields s0 lo (parse_equality n (parse_relational n (parse_additive n (parse_multiplicative n operand))))
      (expr_phrase (p_path s0) 6)"
    by (rule yields_levels [OF rel _ operand(3)]) (intro sticky_rules, simp)
  have conj: "yields s0 lo (parse_and n (parse_equality n (parse_relational n (parse_additive n
      (parse_multiplicative n operand))))) (expr_phrase (p_path s0) 7)"
    by (rule yields_levels [OF eq _ operand(3)]) (intro sticky_rules, simp)
  have "yields s0 lo (parse_or n (parse_and n (parse_equality n (parse_relational n (parse_additive n
      (parse_multiplicative n operand)))))) (expr_phrase (p_path s0) 8)"
    by (rule yields_levels [OF conj _ operand(3)]) (intro sticky_rules, simp)
  note wp_yields [OF _ this, wp_tokens]
  show ?thesis
    unfolding parse_pipe_def
    by (rule yieldsI, ((rule wp_structure | (rule wp_tokens, assumption)
      | (rule yield_exit, assumption, (simp only: append_assoc append.simps; rule refl),
          rule phrases; (assumption | (simp; fail)))
      | (intro sticky_rules; fail) | (simp; fail))+))
qed

lemma yields_parse_unary:
  assumes "yields s0 lo postfix (expr_phrase (p_path s0) 1)" "sticky postfix" "tokens_left s0 < lo + n"
  shows "yields s0 lo (parse_unary n postfix) (expr_phrase (p_path s0) 2)"
  using assms
proof (induction n arbitrary: lo)
  case 0
  then show ?case by (auto simp: yields_def dest: moved_length)
next
  case (Suc n)
  have rest: "yields s0 (lo + 1) (parse_unary n postfix) (expr_phrase (p_path s0) 2)"
    using Suc.prems by (intro Suc.IH) (auto intro: yields_later)
  note Suc.prems(2) [sticky_rules] wp_yields [OF _ rest, wp_tokens] wp_yields [OF _ Suc.prems(1), wp_tokens]
    ph_unary [of OpNot, simplified, phrases] ph_unary [of OpBitwiseNot, simplified, phrases]
    ph_unary [of OpNeg, simplified, phrases]
  show ?case
    unfolding parse_unary.simps
    by (rule yieldsI, ((rule wp_structure | (rule wp_tokens, assumption)
      | (rule yield_exit, assumption, (simp only: append_assoc append.simps; rule refl),
          rule phrases; (assumption | (simp; fail)))
      | (intro sticky_rules; fail) | (simp; fail))+))
qed

lemma wp_looks_like_call [wp_tokens]:
  assumes "moved s0 ts s" "is_tok LT (cur s) \<Longrightarrow> Q True s" "Q False s"
  shows "wp looks_like_call_type_args Q s"
  using run_checks(2) [OF assms(1), of LT] assms
  by (cases "is_tok LT (cur s)"; cases "type_args_ahead 1 (drop (p_pos s + 1) (p_tokens s))")
    (auto simp: wp_def looks_like_call_type_args_def ifp_def bindp_def returns_def)

lemma wp_postfix_loop:
  assumes pexpr: "yields s0 (lo + 1) pexpr (expr_phrase (p_path s0) 9)" and st: "sticky pexpr"
    and fuel: "tokens_left s0 < lo + n"
  shows "moved s0 ws s \<Longrightarrow> ws = ts @ us \<Longrightarrow> expr_phrase (p_path s0) 1 e us \<Longrightarrow> lo + 1 \<le> length ws \<Longrightarrow>
    tokens_left s0 < length ws + m \<Longrightarrow>
    wp (postfix_loop m n pexpr e) (\<lambda>e s'. \<exists>vs. expr_phrase (p_path s0) 1 e vs \<and> moved s0 (ts @ vs) s') s"
proof (induction m arbitrary: ws us s e)
  case 0
  then show ?case using moved_length by fastforce
next
  case (Suc m)
  have args: "yields s0 (lo + 1) (list_until RPAREN n pexpr) (list_of (expr_phrase (p_path s0) 9))"
    using fuel by (intro yields_list_until pexpr st) auto
  have types: "yields s0 (lo + 1) (list_until GT n (parse_type n)) (list_of (type_phrase (p_path s0)))"
    using fuel by (intro yields_list_until yields_parse_type sticky_rules) auto
  note st [sticky_rules] wp_yields [OF _ pexpr, wp_tokens] wp_yields [OF _ args, wp_tokens]
    wp_yields [OF _ types, wp_tokens]
  show ?case
    using Suc.prems unfolding postfix_loop.simps generic_call_def index_suffix_def call_arguments_def
    apply hypsubst
    by ((rule wp_structure | (rule wp_tokens, assumption)
      | (rule Suc.IH, assumption, (simp only: append_assoc append.simps; rule refl),
          rule phrases; (assumption | (simp; fail)))
      | (rule yield_exit, assumption, (simp only: append_assoc append.simps; rule refl),
          rule phrases; (assumption | (simp; fail)))
      | (rule exI, rule conjI, assumption, assumption)
      | (intro sticky_rules; fail) | (simp; fail))+)
qed

section \<open>Blocks\<close>

lemma phrase_nonempty:
  "expr_phrase path k e ts \<Longrightarrow> ts \<noteq> []" "entry_phrase path en ts \<Longrightarrow> ts \<noteq> []" "stmt_phrase path st ts \<Longrightarrow> ts \<noteq> []"
  "stmts_phrase path sts ts \<Longrightarrow> True" "block_phrase path b ts \<Longrightarrow> ts \<noteq> []" "branch_phrase path br ts \<Longrightarrow> ts \<noteq> []"
  "else_phrase path bs el ts \<Longrightarrow> True" "cases_phrase path cs ts \<Longrightarrow> True" "arms_phrase path as ts \<Longrightarrow> True"
  "field_phrase path f ts \<Longrightarrow> ts \<noteq> []"
  by (induction rule: expr_phrase_entry_phrase_stmt_phrase_stmts_phrase_block_phrase_branch_phrase_else_phrase_cases_phrase_arms_phrase_field_phrase.inducts)
    auto

definition some_phrase :: "('a \<Rightarrow> token list \<Rightarrow> bool) \<Rightarrow> 'a option \<Rightarrow> token list \<Rightarrow> bool" where
  "some_phrase P v ts \<longleftrightarrow> (\<exists>x. v = Some x \<and> P x ts)"

lemma wp_opt_semicolon:
  assumes "moved s0 ts s" "\<And>b us s'. opt_semicolon us \<Longrightarrow> moved s0 (ts @ us) s' \<Longrightarrow> Q b s'"
  shows "wp (match_token SEMICOLON) Q s"
  by (rule wp_match_token [OF assms(1)])
    (use assms(1) assms(2) [of "[cur s]"] assms(2) [of "[]"] in \<open>auto simp: opt_semicolon_def\<close>)

lemma yields_statements:
  assumes "yields s0 lo pstmt (some_phrase (stmt_phrase (p_path s0)))" "sticky pstmt" "tokens_left s0 < lo + n"
  shows "yields s0 lo (statements_until_brace n pstmt) (stmts_phrase (p_path s0))"
  using assms
proof (induction n arbitrary: lo)
  case 0
  then show ?case by (auto simp: yields_def dest: moved_length)
next
  case (Suc n)
  have rest: "yields s0 (lo + 1) (statements_until_brace n pstmt) (stmts_phrase (p_path s0))"
    using Suc.prems by (intro Suc.IH) (auto intro: yields_later)
  note Suc.prems(2) [sticky_rules]
  show ?case
  proof (rule yieldsI)
    fix ts s
    assume s: "moved s0 ts s" "lo \<le> length ts"
    let ?Q = "\<lambda>sts s'. \<exists>us. stmts_phrase (p_path s0) sts us \<and> moved s0 (ts @ us) s'"
    have stop: "wp (returns []) ?Q s"
      using s by (auto intro!: wp_returns exI [of _ "[]"] ph_no_stmts)
    show "wp (statements_until_brace (Suc n) pstmt) ?Q s"
      unfolding statements_until_brace.simps
    proof (rule wp_ifp, rule wp_check_token [OF s(1)], rule wp_if, rule stop,
        rule wp_ifp, rule wp_at_end [OF s(1)], rule wp_if, rule stop, rule wp_bindp, rule wp_yields [OF s(1) Suc.prems(1) _ s(2)])
      fix st us s1
      assume "some_phrase (stmt_phrase (p_path s0)) st us" and s1: "moved s0 (ts @ us) s1"
      then obtain x where st: "st = Some x" and x: "stmt_phrase (p_path s0) x us"
        by (auto simp: some_phrase_def)
      show "wp (thenp (match_token SEMICOLON) (bindp (statements_until_brace n pstmt)
          (\<lambda>sts. returns (case st of None \<Rightarrow> sts | Some x \<Rightarrow> x # sts)))) ?Q s1"
        unfolding st option.case
      proof (rule wp_thenp, rule wp_opt_semicolon [OF s1], rule wp_bindp, rule wp_yields [OF _ rest])
        fix vs s2 sts ws s3
        assume "opt_semicolon vs" "moved s0 (((ts @ us) @ vs)) s2" "stmts_phrase (p_path s0) sts ws"
          "moved s0 (((ts @ us) @ vs) @ ws) s3"
        then show "wp (returns (x # sts)) ?Q s3"
          using ph_stmts [OF x] by (intro wp_returns exI [of _ "us @ vs @ ws"]) simp
      next
        show "lo + 1 \<le> length ((ts @ us) @ vs)" for vs
          using s(2) phrase_nonempty(3) [OF x] by (cases us) simp_all
      qed (auto intro!: sticky_rules)
    qed (auto intro!: sticky_rules)
  qed
qed

lemma yields_parse_block:
  assumes "yields s0 (lo + 1) pstmt (some_phrase (stmt_phrase (p_path s0)))" "sticky pstmt" "tokens_left s0 < lo + n"
  shows "yields s0 lo (parse_block n pstmt) (block_phrase (p_path s0))"
proof -
  have "yields s0 (lo + 1) (statements_until_brace n pstmt) (stmts_phrase (p_path s0))"
    using assms by (intro yields_statements) auto
  note assms(2) [sticky_rules] wp_yields [OF _ this, wp_tokens]
  show ?thesis
    unfolding parse_block_def
    by (rule yieldsI, ((rule wp_structure | (rule wp_tokens, assumption)
      | (rule yield_exit, assumption, (simp only: append_assoc append.simps; rule refl),
          rule phrases; (assumption | (simp; fail)))
      | (intro sticky_rules; fail) | (simp; fail))+))
qed

section \<open>Primary expressions\<close>

lemma wp_payloads [wp_tokens]:
  "is_tok INT_LITERAL t \<Longrightarrow> payloads_ok t \<Longrightarrow> (\<And>i. token_value t = IntP i \<Longrightarrow> Q i s) \<Longrightarrow> wp (int_payload t) Q s"
  "is_tok FLOAT_LITERAL t \<Longrightarrow> payloads_ok t \<Longrightarrow> (\<And>x. token_value t = FloatP x \<Longrightarrow> R x s) \<Longrightarrow> wp (float_payload t) R s"
  by (auto simp: int_payload_def float_payload_def payloads_ok_def is_tok_def wp_returns)

lemma wp_literal [wp_tokens]:
  assumes "moved s0 ts s" "\<And>s'. is_tok k (cur s) \<Longrightarrow> payloads_ok (cur s) \<Longrightarrow> moved s0 (ts @ [cur s]) s' \<Longrightarrow>
      wp (mk (tok_loc (p_path s0) (cur s)) (cur s)) Q s'"
    "\<not> is_tok k (cur s) \<Longrightarrow> wp other Q s" "k \<noteq> END" "\<And>l t. sticky (mk l t)" "sticky other"
  shows "wp (literal k mk other) Q s"
  unfolding literal_def
  by (rule wp_ifp, rule wp_match_token [OF assms(1)])
    (auto intro!: wp_bindp wp_prev_token wp_loc_of sticky_rules assms moved_payloads [OF assms(1)])

lemma wp_typed_array_ahead [wp_tokens]:
  assumes "moved s0 ts s" "\<And>b. Q b s" "is_tok LBRACKET (cur s)"
  shows "wp typed_array_ahead Q s"
proof -
  have restored: "wp (thenp (set_pos (p_pos s)) (returns b)) Q s'" if "moved s0 us s'" for b us s'
    by (rule wp_thenp, rule wp_set_pos [OF that assms(1)], rule wp_returns) (auto intro: assms sticky_rules)
  note assms(3) [simp]
  show ?thesis
    unfolding typed_array_ahead_def
    by (insert assms(1,3), ((rule restored, assumption) | (rule wp_structure | (rule wp_tokens, assumption))
      | (intro sticky_rules; fail) | (simp; fail))+)
qed

lemma yields_map_entry:
  assumes "yields s0 lo pexpr (expr_phrase (p_path s0) 9)" "sticky pexpr"
  shows "yields s0 lo (map_entry pexpr) (entry_phrase (p_path s0))"
proof -
  note assms(2) [sticky_rules] wp_yields [OF _ assms(1), wp_tokens]
  show ?thesis
    unfolding map_entry_def
    by (rule yieldsI, ((rule wp_structure | (rule wp_tokens, assumption)
      | (rule yield_exit, assumption, (simp only: append_assoc append.simps; rule refl),
          rule phrases; (assumption | (simp; fail)))
      | (intro sticky_rules; fail) | (simp; fail))+))
qed

lemma wp_if_const: "wp a Q s \<Longrightarrow> wp (if True then a else b) Q s" "wp b Q s \<Longrightarrow> wp (if False then a else b) Q s"
  by simp_all

lemma plain_nameI:
  "is_name t \<Longrightarrow> \<forall>kw\<in>set form_keywords. \<not> is_kw kw t \<Longrightarrow> is_plain_name t"
  by (auto simp: is_plain_name_def is_name_def is_kw_def)

lemma wp_parse_name [wp_tokens]:
  assumes "is_plain_name (cur s)" "moved s0 ts s"
    "\<And>e us s'. expr_phrase (p_path s0) 0 e us \<Longrightarrow> moved s0 (ts @ us) s' \<Longrightarrow> Q e s'"
  shows "wp parse_name Q s"
proof -
  have name: "is_name (cur s)" using assms(1) by (auto simp: is_plain_name_def is_name_def)
  have "wp parse_name (\<lambda>e s'. \<exists>us. expr_phrase (p_path s0) 0 e us \<and> moved s0 (ts @ us) s') s"
    unfolding parse_name_def
    by (insert assms(1,2) name, (rule wp_if_const wp_structure | (rule wp_tokens, assumption)
      | (rule yield_exit, assumption, (simp only: append_assoc append.simps; rule refl),
          rule phrases; (assumption | (simp; fail)))
      | (intro sticky_rules; fail) | (simp; fail))+)
  then show ?thesis using assms(3) by (auto intro: wp_mono)
qed

text \<open>A tuple literal without elements, and the two forms in braces with their first element apart.\<close>

lemma braced_phrases [phrases]:
  "is_tok LBRACE a \<Longrightarrow> is_tok RBRACE b \<Longrightarrow> expr_phrase path 0 (TupleLiteral (tok_loc path a) []) [a, b]"
  "is_tok LBRACE a \<Longrightarrow> expr_phrase path 9 e ts \<Longrightarrow> is_tok RBRACE b \<Longrightarrow>
    expr_phrase path 0 (TupleLiteral (tok_loc path a) [e]) (a # ts @ [b])"
  "is_tok LBRACE a \<Longrightarrow> expr_phrase path 9 e ts \<Longrightarrow> is_tok COMMA c \<Longrightarrow> comma_sep (expr_phrase path 9) es us \<Longrightarrow>
    is_tok RBRACE b \<Longrightarrow> expr_phrase path 0 (TupleLiteral (tok_loc path a) (e # es)) (a # ts @ c # us @ [b])"
  "is_tok LBRACE a \<Longrightarrow> expr_phrase path 9 e ts \<Longrightarrow> is_tok COLON d \<Longrightarrow> expr_phrase path 9 f us \<Longrightarrow> is_tok RBRACE b \<Longrightarrow>
    expr_phrase path 0 (MapEntriesLiteral (tok_loc path a) [(e, f)]) (a # ts @ d # us @ [b])"
  "is_tok LBRACE a \<Longrightarrow> expr_phrase path 9 e ts \<Longrightarrow> is_tok COLON d \<Longrightarrow> expr_phrase path 9 f us \<Longrightarrow> is_tok COMMA c \<Longrightarrow>
    comma_sep (entry_phrase path) ens vs \<Longrightarrow> is_tok RBRACE b \<Longrightarrow>
    expr_phrase path 0 (MapEntriesLiteral (tok_loc path a) ((e, f) # ens)) (a # ts @ d # us @ c # vs @ [b])"
  using ph_tuple_literal [of a path "[]" "[]" b] ph_tuple_literal [of a path "[e]" ts b]
    ph_tuple_literal [of a path "e # es" "ts @ c # us" b] ph_map_entries [of a path "[(e, f)]" "ts @ d # us" b]
    ph_map_entries [of a path "(e, f) # ens" "(ts @ d # us) @ c # vs" b]
    comma_more [of "entry_phrase path" "(e, f)" "ts @ d # us" c ens vs]
  by (auto simp: list_of_def intro: comma_sep.intros ph_entry)

end
