(* ===== verification/Parse_Forms.thy ===== *)
theory Parse_Forms
  imports Parse_Sound
begin

text \<open>
  The forms of expressions and statements, over the contract of the parsers they call: after at least one
  more token, the expression and the statement parser yield phrases.
\<close>

declare wp_error_here [wp_tokens]

lemma sticky_typed_array_ahead [sticky_rules]: "sticky typed_array_ahead"
  unfolding typed_array_ahead_def by (intro sticky_rules)

lemma sticky_literal [sticky_rules]: "(\<And>l t. sticky (f l t)) \<Longrightarrow> sticky p \<Longrightarrow> sticky (literal k f p)"
  unfolding literal_def by (intro sticky_rules; assumption)

lemma sticky_primary_forms [sticky_rules]:
  "sticky p \<Longrightarrow> sticky (parse_cast n p)" "sticky p \<Longrightarrow> sticky (parse_alloc n p)" "sticky parse_free"
  "sticky p \<Longrightarrow> sticky (parse_simd p)" "sticky p \<Longrightarrow> sticky (parse_hint_call p)"
  "sticky q \<Longrightarrow> sticky (parse_lambda n q)" "sticky p \<Longrightarrow> sticky (parse_map_literal n p)"
  "sticky p \<Longrightarrow> sticky (parse_compiler_call n p)" "sticky parse_name"
  "sticky p \<Longrightarrow> sticky (parse_array_or_typed_array n p)" "sticky p \<Longrightarrow> sticky (parse_braced n p)"
  unfolding parse_cast_def parse_alloc_def parse_free_def parse_simd_def parse_hint_call_def parse_lambda_def
    parse_map_literal_def parse_compiler_call_def parse_name_def parse_array_or_typed_array_def parse_braced_def
    braced_rest_def
  by (intro sticky_rules; assumption)+

lemma sticky_postfix [sticky_rules]:
  "sticky p \<Longrightarrow> sticky r \<Longrightarrow> sticky (parse_postfix n p r)" "sticky p \<Longrightarrow> sticky q \<Longrightarrow> sticky (parse_primary n p q)"
  unfolding parse_postfix_def by ((intro sticky_rules; assumption), rule sticky_parse_primary)

locale parse_parts =
  fixes s0 :: parser and lo n :: nat and pexpr :: "expr parsing" and pstmt :: "stmt option parsing"
  assumes pexpr: "yields s0 (lo + 1) pexpr (expr_phrase (p_path s0) 9)"
    and pstmt: "yields s0 (lo + 1) pstmt (some_phrase (stmt_phrase (p_path s0)))"
    and sticky_parts [sticky_rules]: "sticky pexpr" "sticky pstmt"
    and fuel: "tokens_left s0 < lo + n"
begin

section \<open>The parts\<close>

lemma types: "yields s0 lo (parse_type n) (type_phrase (p_path s0))"
  using fuel by (intro yields_parse_type)

lemma params: "yields s0 lo (parse_params n) (list_of (param_phrase (p_path s0)))"
  using fuel by (intro yields_parse_params)

lemma exprs:
  "k \<noteq> END \<Longrightarrow> yields s0 (lo + 1) (list_until k n pexpr) (list_of (expr_phrase (p_path s0) 9))"
  "yields s0 (lo + 1) (comma_list n pexpr) (comma_sep (expr_phrase (p_path s0) 9))"
  using fuel pexpr by (auto intro!: yields_list_until yields_comma_list sticky_parts)

lemma entries:
  "k \<noteq> END \<Longrightarrow> yields s0 (lo + 1) (list_until k n (map_entry pexpr)) (list_of (entry_phrase (p_path s0)))"
  "yields s0 (lo + 1) (comma_list n (map_entry pexpr)) (comma_sep (entry_phrase (p_path s0)))"
  using fuel pexpr by (auto intro!: yields_list_until yields_comma_list yields_map_entry sticky_rules)

lemma blocks: "yields s0 lo (parse_block n pstmt) (block_phrase (p_path s0))"
  using fuel pstmt by (intro yields_parse_block sticky_parts) (auto intro: yields_later)

lemma statements: "yields s0 (lo + 1) (statements_until_brace n pstmt) (stmts_phrase (p_path s0))"
  using fuel pstmt by (intro yields_statements sticky_parts) auto

lemmas wp_parts [wp_tokens] = wp_yields [OF _ pexpr] wp_yields [OF _ types] wp_yields [OF _ params]
  wp_yields [OF _ exprs(1)] wp_yields [OF _ exprs(2)] wp_yields [OF _ entries(1)] wp_yields [OF _ entries(2)]
  wp_yields [OF _ blocks] wp_yields [OF _ statements]

section \<open>Primary expressions\<close>

lemma wp_primary_forms:
  assumes s: "moved s0 ts s" "lo \<le> length ts"
  defines "Q \<equiv> \<lambda>e s'. \<exists>us. expr_phrase (p_path s0) 0 e us \<and> moved s0 (ts @ us) s'"
  shows "is_kw ''cast'' (cur s) \<Longrightarrow> wp (parse_cast n pexpr) Q s"
    "is_kw ''alloc'' (cur s) \<Longrightarrow> wp (parse_alloc n pexpr) Q s"
    "is_kw ''delete'' (cur s) \<or> is_kw ''free'' (cur s) \<Longrightarrow> wp parse_free Q s"
    "is_kw ''simd'' (cur s) \<Longrightarrow> wp (parse_simd pexpr) Q s"
    "is_kw ''likely'' (cur s) \<or> is_kw ''unlikely'' (cur s) \<Longrightarrow> wp (parse_hint_call pexpr) Q s"
    "is_kw ''lambda'' (cur s) \<Longrightarrow> wp (parse_lambda n pstmt) Q s"
    "is_kw ''map'' (cur s) \<Longrightarrow> wp (parse_map_literal n pexpr) Q s"
    "is_tok SCOPE (cur s) \<Longrightarrow> wp (parse_compiler_call n pexpr) Q s"
    "is_tok LBRACKET (cur s) \<Longrightarrow> wp (parse_array_or_typed_array n pexpr) Q s"
    "is_tok LBRACE (cur s) \<Longrightarrow> wp (parse_braced n pexpr) Q s"
  unfolding parse_cast_def parse_alloc_def parse_free_def parse_simd_def parse_hint_call_def parse_lambda_def
    parse_map_literal_def parse_compiler_call_def call_arguments_def parse_array_or_typed_array_def
    parse_braced_def braced_rest_def Q_def
  by (insert s, (rule wp_if_const wp_structure | (rule wp_tokens, assumption)
      | (rule yield_exit, assumption, (simp only: append_assoc append.simps; rule refl),
          rule phrases; (assumption | (simp; fail)))
      | (intro sticky_rules; fail) | (erule disjE) | (simp; fail))+)

lemma yields_parse_primary: "yields s0 lo (parse_primary n pexpr pstmt) (expr_phrase (p_path s0) 0)"
proof (rule yieldsI)
  fix ts s
  assume s: "moved s0 ts s" "lo \<le> length ts"
  let ?Q = "\<lambda>e s'. \<exists>us. expr_phrase (p_path s0) 0 e us \<and> moved s0 (ts @ us) s'"
  have stop: "wp (thenp (error_here msg) (returns NullExpr)) ?Q s" for msg
    by (rule wp_after_error [OF s(1)]) (rule sticky_rules)
  have name: "wp parse_name ?Q s"
    if "is_name (cur s)" "\<forall>kw\<in>set form_keywords. \<not> is_kw kw (cur s)"
    by (rule wp_parse_name [OF plain_nameI [OF that] s(1)]) auto
  note forms = wp_primary_forms [OF s]
  show "wp (parse_primary n pexpr pstmt) ?Q s"
    unfolding parse_primary_def parse_literals_def
    by (insert s, ((rule forms, (simp; fail)) | (rule stop) | (rule name, (simp; fail), (simp add: form_keywords_def; fail))
      | rule wp_if_const wp_structure | (rule wp_tokens, assumption)
      | (rule yield_exit, assumption, (simp only: append_assoc append.simps; rule refl),
          rule phrases; (assumption | (simp; fail)))
      | (intro sticky_rules; fail) | (simp; fail))+)
qed

lemma yields_expression_body:
  "yields s0 lo (expression_body n pexpr pstmt) (expr_phrase (p_path s0) 9)"
proof -
  let ?primary = "parse_primary n pexpr pstmt"
  have "yields s0 lo (parse_postfix n pexpr ?primary) (expr_phrase (p_path s0) 1)"
  proof (rule yieldsI)
    fix ts s
    assume s: "moved s0 ts s" "lo \<le> length ts"
    show "wp (parse_postfix n pexpr ?primary) (\<lambda>e s'. \<exists>vs. expr_phrase (p_path s0) 1 e vs \<and> moved s0 (ts @ vs) s') s"
      unfolding parse_postfix_def
    proof (rule wp_bindp, rule wp_yields [OF s(1) yields_parse_primary _ s(2)])
      fix e us s'
      assume e: "expr_phrase (p_path s0) 0 e us" and s': "moved s0 (ts @ us) s'"
      show "wp (postfix_loop n n pexpr e) (\<lambda>e s'. \<exists>vs. expr_phrase (p_path s0) 1 e vs \<and> moved s0 (ts @ vs) s') s'"
        using wp_postfix_loop [OF pexpr sticky_parts(1) fuel s' refl loosen(3) [OF e]] s(2) phrase_nonempty(1) [OF e] fuel
        by (cases us) auto
    qed (intro sticky_rules)
  qed
  then show ?thesis
    unfolding expression_body_def using fuel
    by (intro yields_parse_pipe yields_parse_unary sticky_rules)
qed

end

end
