(* ===== verification/Parse_Statements.thy ===== *)
theory Parse_Statements
  imports Parse_Forms
begin

text \<open>
  The statements, over the contract of \<open>parse_parts\<close> strengthened by an expression parser that may start
  where the statement does. The lookaheads put the position back, so a run starts over from the same token.
\<close>

section \<open>Lookahead and backtracking\<close>

lemma moved_hd: "moved s0 ts s \<Longrightarrow> moved s0 (ts @ us) s' \<Longrightarrow> us \<noteq> [] \<Longrightarrow> cur s = hd us"
  by (cases us) (auto simp: moved_def cur_def take_Suc_conv_app_nth nth_append dest!: arg_cong [where f = "\<lambda>xs. xs ! length ts"])

lemma wp_put_back: "moved s0 us s' \<Longrightarrow> moved s0 ts s \<Longrightarrow> wp k Q s \<Longrightarrow> sticky k \<Longrightarrow> wp (thenp (set_pos (p_pos s)) k) Q s'"
  by (rule wp_thenp, rule wp_set_pos)

lemma wp_skip_names:
  "moved s0 ts s \<Longrightarrow> tokens_left s0 < length ts + n \<Longrightarrow> (\<And>us s'. moved s0 us s' \<Longrightarrow> Q () s') \<Longrightarrow> wp (skip_names n) Q s"
proof (induction n arbitrary: ts s)
  case 0
  then show ?case using moved_length by fastforce
next
  case (Suc n)
  show ?case
    unfolding skip_names.simps
    by (insert Suc.prems(1,2), ((rule Suc.prems(3), assumption) | (rule Suc.IH, assumption, (simp; fail), rule Suc.prems(3), assumption)
      | rule wp_if_const wp_structure | (rule wp_tokens, assumption) | (intro sticky_rules; fail) | (simp; fail))+)
qed

lemma wp_looks_like:
  assumes s: "moved s0 ts s" "tokens_left s0 < length ts + n" and Q: "\<And>b. Q b s"
  shows "wp (looks_like_braced_destructure n) Q s" "wp (looks_like_bare_destructure n) Q s"
  unfolding looks_like_braced_destructure_def looks_like_bare_destructure_def at_assignment_def
  by (insert s, (rule Q | (rule wp_put_back, assumption, rule s(1)) | (rule wp_skip_names, assumption, (simp; fail))
      | rule wp_if_const wp_structure | (rule wp_tokens, assumption) | (intro sticky_rules; fail) | (simp; fail))+)

section \<open>Parts of statements\<close>

lemma run_branch_hint: "callee_ok e \<Longrightarrow> apply_branch_hint e s = Done (branch_of e) s"
proof (cases e)
  case (Call l c tys args)
  assume "callee_ok e"
  then show ?thesis using Call
    by (cases args; cases "tl args"; cases c)
      (auto simp: apply_branch_hint_def branch_of_def callee_ok_def returns_def)
qed (simp_all add: apply_branch_hint_def branch_of_def returns_def)

lemma wp_branch_hint [wp_tokens]:
  assumes "expr_phrase path k e ts" "\<And>c h. branch_of e = (c, h) \<Longrightarrow> Q (c, h) s"
  shows "wp (apply_branch_hint e) Q s"
  using run_branch_hint [OF phrase_callee_ok(1) [OF assms(1)], of s] assms(2)
  by (cases "branch_of e") (simp add: wp_def)

lemma wp_attach:
  assumes s: "moved s0 ts s" and e: "expr_phrase (p_path s0) 9 e us"
    and args: "yields s0 lo pexpr (expr_phrase (p_path s0) 9)" "lo \<le> length ts" "sticky pexpr" "tokens_left s0 < lo + n"
    and same: "Q e s"
    and call: "\<And>l es a vs b s'. is_lambda e \<Longrightarrow> expr_loc e = Some l \<Longrightarrow> is_tok LPAREN a \<Longrightarrow>
      list_of (expr_phrase (p_path s0) 9) es vs \<Longrightarrow> is_tok RPAREN b \<Longrightarrow> moved s0 (ts @ a # vs @ [b]) s' \<Longrightarrow>
      Q (Call l e [] es) s'"
  shows "wp (maybe_attach_lambda_call n pexpr e) Q s"
proof -
  have l: "yields s0 lo (list_until RPAREN n pexpr) (list_of (expr_phrase (p_path s0) 9))"
    using args by (intro yields_list_until) auto
  note args(3) [sticky_rules] wp_yields [OF _ l, wp_tokens]
  show ?thesis
    unfolding maybe_attach_lambda_call_def call_arguments_def
    by (insert s e args(2), ((rule same) | (rule call, assumption, assumption, assumption, assumption, assumption, (simp; fail))
      | rule wp_if_const wp_structure | (rule wp_tokens, assumption) | (intro sticky_rules; fail) | (simp; fail))+)
qed

lemma yields_parse_targets:
  assumes "tokens_left s0 < lo + n"
  shows "yields s0 lo (parse_targets n braced) (targets_phrase (p_path s0))"
proof -
  have "yields s0 lo parse_target (target_phrase (p_path s0))"
    unfolding parse_target_def
    by (rule yieldsI, (rule wp_if_const wp_structure | (rule wp_tokens, assumption)
      | (rule yield_exit, assumption, (rule refl), (simp add: target_phrase_def; fail))
      | (intro sticky_rules; fail) | (simp; fail))+)
  then have "yields s0 lo (comma_list n parse_target) (comma_sep (target_phrase (p_path s0)))"
    by (rule yields_comma_list) (use assms in \<open>auto intro!: sticky_rules simp: parse_target_def\<close>)
  note c = wp_yields [OF _ this]
  have later: "wp (comma_list n parse_target) Q s" if "moved s0 ts s" "lo \<le> length ts"
    "\<And>x us s'. comma_sep (target_phrase (p_path s0)) x us \<Longrightarrow> moved s0 (ts @ us) s' \<Longrightarrow> Q x s'" for ts s Q
    using c [OF that(1,3,2)] .
  have "sticky (comma_list n parse_target)" unfolding parse_target_def by (intro sticky_rules)
  note this [sticky_rules] later [wp_tokens]
  show ?thesis
    unfolding parse_targets_def
    by (rule yieldsI, (rule wp_if_const wp_structure | (rule wp_tokens, assumption)
      | (rule yield_exit, assumption, (simp only: append_assoc append.simps; rule refl), (simp add: targets_phrase_def; fail))
      | (intro sticky_rules; fail) | (simp; fail))+)
qed

section \<open>Assignments and expressions\<close>

lemma moved_hd_loc:
  "moved s0 ts s \<Longrightarrow> moved s0 (ts @ us) s' \<Longrightarrow> targets_phrase path xs us \<Longrightarrow> hd us = cur s"
proof -
  assume s: "moved s0 ts s" "moved s0 (ts @ us) s'" and p: "targets_phrase path xs us"
  have "vs \<noteq> []" if "comma_sep (target_phrase path) xs vs" for vs
    using that by (induction rule: comma_sep.induct) (auto simp: target_phrase_def)
  then have "us \<noteq> []" using p by (auto simp: targets_phrase_def)
  then show ?thesis using moved_hd [OF s] by simp
qed

lemma null_phrase [simp]: "\<not> expr_phrase path k NullExpr ts"
  using phrase_callee_ok(1) [of path k NullExpr ts] by (auto simp: callee_ok_def)

lemma wp_call_loc [wp_tokens]: "is_tok k a \<Longrightarrow> Q l s \<Longrightarrow> wp (node_loc (Call l e tys es)) Q s"
  by (simp add: node_loc_def wp_returns)

lemma some_phraseI: "P x ts \<Longrightarrow> some_phrase P (Some x) ts"
  by (simp add: some_phrase_def)

locale statement_parts = parse_parts +
  assumes pexpr_here: "yields s0 lo pexpr (expr_phrase (p_path s0) 9)"
begin

lemmas [wp_tokens] = wp_yields [OF _ pexpr_here]

lemma attach [wp_tokens]:
  assumes s: "moved s0 ts s" and e: "expr_phrase (p_path s0) 9 e us" and same: "Q e s"
    and call: "\<And>l es a vs b s'. is_lambda e \<Longrightarrow> expr_loc e = Some l \<Longrightarrow> is_tok LPAREN a \<Longrightarrow>
      list_of (expr_phrase (p_path s0) 9) es vs \<Longrightarrow> is_tok RPAREN b \<Longrightarrow> moved s0 (ts @ a # vs @ [b]) s' \<Longrightarrow>
      Q (Call l e [] es) s'" and lo: "lo \<le> length ts"
  shows "wp (maybe_attach_lambda_call n pexpr e) Q s"
  using wp_attach [OF s e pexpr_here lo sticky_parts(1) fuel, of Q] same call by blast

lemma attach_recovered [wp_tokens]:
  "moved s0 ts s \<Longrightarrow> expr_phrase (p_path s0) 9 e us \<Longrightarrow> wp (maybe_attach_lambda_call n pexpr e) Q s \<Longrightarrow>
   wp (maybe_attach_lambda_call n pexpr (if e = NullExpr \<and> b then d else e)) Q s"
  by (cases "e = NullExpr") simp_all

lemma wp_expr_stmt:
  assumes s: "moved s0 ts s" "lo \<le> length ts"
  shows "wp (parse_expr_stmt n pexpr) (\<lambda>x s'. \<exists>us. some_phrase (stmt_phrase (p_path s0)) x us \<and> moved s0 (ts @ us) s') s"
  unfolding parse_expr_stmt_def
  by (insert s, (rule wp_if_const wp_structure | (rule wp_tokens, assumption)
      | (rule yield_exit, assumption, (simp only: append_assoc append.simps; rule refl), rule some_phraseI,
          rule phrases; (assumption | (simp; fail)))
      | (intro sticky_rules; fail) | (simp; fail))+)

lemma wp_assigned:
  assumes s: "moved s0 (ts @ us) s" "lo \<le> length ts" and xs: "targets_phrase (p_path s0) xs us"
    and k: "moved s0 ((ts @ us) @ [a]) s1" "is_tok (assign_token op) a"
  shows "wp (parse_assigned n pexpr (tok_loc (p_path s0) (hd us)) xs op)
    (\<lambda>x s'. \<exists>us. some_phrase (stmt_phrase (p_path s0)) x us \<and> moved s0 (ts @ us) s') s1"
  unfolding parse_assigned_def
  by (insert s xs k, (rule wp_if_const wp_structure | (rule wp_tokens, assumption)
      | (rule yield_exit, assumption, (simp only: append_assoc append.simps; rule refl), rule some_phraseI,
          rule phrases; (assumption | (simp; fail)))
      | (intro sticky_rules; fail) | (simp; fail))+)

lemma targets [wp_tokens]:
  assumes s: "moved s0 ts s" and lo: "lo \<le> length ts"
    and Q: "\<And>xs us s'. targets_phrase (p_path s0) xs us \<Longrightarrow> hd us = cur s \<Longrightarrow> moved s0 (ts @ us) s' \<Longrightarrow> Q xs s'"
  shows "wp (parse_targets n braced) Q s"
  by (rule wp_yields [OF s yields_parse_targets [OF fuel] _ lo]) (auto intro: Q moved_hd_loc [OF s])

lemma wp_assign_or_expr:
  assumes s: "moved s0 ts s" "lo \<le> length ts"
  shows "wp (parse_assign_or_expr n pexpr) (\<lambda>x s'. \<exists>us. some_phrase (stmt_phrase (p_path s0)) x us \<and> moved s0 (ts @ us) s') s"
proof -
  have sticky: "sticky (parse_targets n b)" "sticky (parse_assigned n pexpr l xs op)" "sticky (parse_expr_stmt n pexpr)" for b l xs op
    unfolding parse_targets_def parse_target_def parse_assigned_def parse_expr_stmt_def by (intro sticky_rules)+
  have assigned: "wp (parse_assigned n pexpr (tok_loc (p_path s0) (cur s)) xs op)
      (\<lambda>x s'. \<exists>us. some_phrase (stmt_phrase (p_path s0)) x us \<and> moved s0 (ts @ us) s') s2"
    if "targets_phrase (p_path s0) xs us" "hd us = cur s" "moved s0 (ts @ us) s1"
      "moved s0 ((ts @ us) @ [cur s1]) s2" "is_tok (assign_token op) (cur s1)" for xs us s1 s2 op
    using wp_assigned [OF that(3) s(2) that(1,4,5)] that(2) by simp
  note sticky [sticky_rules]
  show ?thesis
    unfolding parse_assign_or_expr_def match_assign_op_def
    by (insert s, (rule wp_expr_stmt [OF s] | (rule wp_put_back, assumption, rule s(1))
      | (rule assigned, assumption, assumption, assumption, assumption, (simp add: assign_token_def; fail))
      | rule wp_if_const wp_structure | (rule wp_tokens, assumption)
      | (intro sticky_rules; fail) | (simp; fail))+)
qed

end

end
