(* ===== verification/Parse_Control.thy ===== *)
theory Parse_Control
  imports Parse_Statements
begin

text \<open>
  Declarations, control flow and the statements of the compiler, over the same contract. Each lemma starts
  after the keyword of the form, whose token is the last one consumed.
\<close>

lemma yield_nothing: "moved s0 ts s \<Longrightarrow> P x [] \<Longrightarrow> \<exists>us. P x us \<and> moved s0 (ts @ us) s"
  by (rule exI [of _ "[]"]) simp

lemma wp_pair: "wp (f a b) Q s \<Longrightarrow> wp (case (a, b) of (x, y) \<Rightarrow> f x y) Q s"
  by simp

lemma sticky_fields [sticky_rules]:
  "sticky p \<Longrightarrow> sticky (parse_field n p)" "sticky (type_params n)" "sticky (return_type n l)"
  unfolding parse_field_def field_constraint_def type_params_def return_type_def
  by ((intro sticky_rules; assumption), (intro sticky_rules)+)

context statement_parts
begin

section \<open>Lists of parts\<close>

lemma names: "k \<noteq> END \<Longrightarrow> yields s0 lo (list_until k n expect_name) (list_of name_list_item)"
proof -
  assume k: "k \<noteq> END"
  have "yields s0 lo expect_name name_list_item"
    by (rule yieldsI, (rule wp_tokens, assumption)
        | (rule yield_exit, assumption, (rule refl), (simp add: name_list_item_def)))+
  then show ?thesis using k fuel by (intro yields_list_until sticky_rules)
qed

lemma join_items: "yields s0 lo (list_until RBRACKET n (bindp here (\<lambda>nl. bindp expect_name (\<lambda>name. returns (Identifier nl name)))))
    (list_of (join_item (p_path s0)))"
proof -
  have "yields s0 lo (bindp here (\<lambda>nl. bindp expect_name (\<lambda>name. returns (Identifier nl name)))) (join_item (p_path s0))"
    by (rule yieldsI, (rule wp_structure | (rule wp_tokens, assumption)
      | (rule yield_exit, assumption, (rule refl), (simp add: join_item_def; fail)) | (intro sticky_rules; fail))+)
  then show ?thesis using fuel by (intro yields_list_until sticky_rules) simp_all
qed

lemma fields: "yields s0 (lo + 1) (list_until RBRACE n (parse_field n pexpr)) (list_of (field_phrase (p_path s0)))"
proof -
  have "yields s0 (lo + 1) (parse_field n pexpr) (field_phrase (p_path s0))"
    unfolding parse_field_def field_constraint_def
    by (rule yieldsI, (rule wp_if_const wp_structure | (rule wp_tokens, assumption)
      | (rule yield_exit, assumption, (simp only: append_assoc append.simps; rule refl),
          rule phrases; (assumption | (simp; fail)))
      | (intro sticky_rules; fail) | (simp; fail))+)
  then show ?thesis using fuel by (intro yields_list_until sticky_rules) simp_all
qed

lemma branches: "yields s0 (lo + 1) (parse_branch n pexpr pstmt) (branch_phrase (p_path s0))"
  unfolding parse_branch_def
  by (rule yieldsI, (rule wp_if_const wp_structure | (rule wp_tokens, assumption)
      | (rule yield_exit, assumption, (simp only: append_assoc append.simps; rule refl),
          rule phrases; (assumption | (simp; fail)))
      | (intro sticky_rules; fail) | (simp; fail))+)

lemma wp_yields_else:
  assumes "moved s0 ts s" "yields s0 hi p (\<lambda>x. else_phrase path (fst x) (snd x))"
    "\<And>bs e us s'. else_phrase path bs e us \<Longrightarrow> moved s0 (ts @ us) s' \<Longrightarrow> Q (bs, e) s'" "hi \<le> length ts"
  shows "wp p Q s"
  by (rule wp_yields [OF assms(1,2) _ assms(4)]) (use assms(3) in auto)

lemma yields_else_loop:
  "lo \<le> hi \<Longrightarrow> tokens_left s0 < hi + m \<Longrightarrow>
   yields s0 hi (else_loop m n pexpr pstmt) (\<lambda>x. else_phrase (p_path s0) (fst x) (snd x))"
proof (induction m arbitrary: hi)
  case 0
  then show ?case by (auto simp: yields_def dest: moved_length)
next
  case (Suc m)
  have rest: "yields s0 (hi + 1) (else_loop m n pexpr pstmt) (\<lambda>x. else_phrase (p_path s0) (fst x) (snd x))"
    using Suc.prems by (intro Suc.IH) auto
  note wp_yields_else [OF _ rest, wp_tokens] wp_yields [OF _ branches, wp_tokens]
  show ?case
    unfolding else_loop.simps
    by (rule yieldsI, insert Suc.prems, (rule wp_if_const wp_pair wp_structure | (rule wp_tokens, assumption)
      | (rule yield_nothing, assumption, (simp only: fst_conv snd_conv)?, rule phrases)
      | (rule yield_exit, assumption, (simp only: append_assoc append.simps; rule refl),
          (simp only: fst_conv snd_conv)?, rule phrases; (assumption | (simp; fail)))
      | (intro sticky_rules; fail) | (simp; fail))+)
qed

lemma yields_case_loop:
  "lo \<le> hi \<Longrightarrow> tokens_left s0 < hi + m \<Longrightarrow> yields s0 hi (case_loop m n pstmt) (cases_phrase (p_path s0))"
proof (induction m arbitrary: hi)
  case 0
  then show ?case by (auto simp: yields_def dest: moved_length)
next
  case (Suc m)
  have rest: "yields s0 (hi + 1) (case_loop m n pstmt) (cases_phrase (p_path s0))"
    using Suc.prems by (intro Suc.IH) auto
  note wp_yields [OF _ rest, wp_tokens]
  show ?case
    unfolding case_loop.simps
    by (rule yieldsI, insert Suc.prems, (rule wp_if_const wp_structure | (rule wp_tokens, assumption)
      | (rule yield_nothing, assumption, rule phrases)
      | (rule yield_exit, assumption, (simp only: append_assoc append.simps; rule refl),
          rule phrases; (assumption | (simp; fail)))
      | (intro sticky_rules; fail) | (simp; fail))+)
qed

lemma yields_typeid_loop:
  "lo \<le> hi \<Longrightarrow> tokens_left s0 < hi + m \<Longrightarrow> yields s0 hi (typeid_loop m pexpr) (arms_phrase (p_path s0))"
proof (induction m arbitrary: hi)
  case 0
  then show ?case by (auto simp: yields_def dest: moved_length)
next
  case (Suc m)
  have rest: "yields s0 (hi + 1) (typeid_loop m pexpr) (arms_phrase (p_path s0))"
    using Suc.prems by (intro Suc.IH) auto
  note wp_yields [OF _ rest, wp_tokens]
  show ?case
    unfolding typeid_loop.simps typeid_arm_def
    by (rule yieldsI, insert Suc.prems, (rule wp_if_const wp_pair wp_structure | (rule wp_opt_semicolon, assumption)
      | (rule wp_tokens, assumption)
      | (rule yield_nothing, assumption, rule phrases)
      | (rule yield_exit, assumption, (simp only: append_assoc append.simps; rule refl),
          rule phrases; (assumption | (simp; fail)))
      | (intro sticky_rules; fail) | (simp; fail))+)
qed

lemma heads: "yields s0 lo (type_params n) type_params_phrase" "yields s0 lo (return_type n l) (return_phrase (p_path s0) l)"
proof -
  note wp_yields [OF _ names, wp_tokens]
  show "yields s0 lo (type_params n) type_params_phrase"
    unfolding type_params_def
    by (rule yieldsI, (rule wp_if_const wp_structure | (rule wp_tokens, assumption)
      | (rule yield_exit, assumption, (simp only: append_assoc append.simps; rule refl),
          (simp add: type_params_phrase_def; fail))
      | (rule yield_nothing, assumption, (simp add: type_params_phrase_def; fail))
      | (intro sticky_rules; fail) | (simp; fail))+)
  show "yields s0 lo (return_type n l) (return_phrase (p_path s0) l)"
    unfolding return_type_def
    by (rule yieldsI, (rule wp_if_const wp_structure | (rule wp_tokens, assumption)
      | (rule yield_exit, assumption, (simp only: append_assoc append.simps; rule refl),
          (simp add: return_phrase_def; fail))
      | (rule yield_nothing, assumption, (simp add: return_phrase_def; fail))
      | (intro sticky_rules; fail) | (simp; fail))+)
qed

lemmas wp_lists [wp_tokens] = wp_yields [OF _ names] wp_yields [OF _ join_items] wp_yields [OF _ fields]
  wp_yields [OF _ branches] wp_yields_else [OF _ yields_else_loop [OF order_refl fuel]]
  wp_yields [OF _ yields_case_loop [OF order_refl fuel]] wp_yields [OF _ yields_typeid_loop [OF order_refl fuel]]
  wp_yields [OF _ heads(1)] wp_yields [OF _ heads(2)]

section \<open>Forms after a keyword\<close>

lemma wp_func_form:
  "is_kw ''func'' a \<Longrightarrow> moved s0 (ts @ [a]) s \<Longrightarrow> lo \<le> length ts \<Longrightarrow>
   wp (parse_func n pstmt (tok_loc (p_path s0) a)) (\<lambda>x s'. \<exists>us. stmt_phrase (p_path s0) x us \<and> moved s0 (ts @ us) s') s"
  unfolding parse_func_def
  by (rule wp_if_const wp_pair wp_structure | (rule wp_tokens, assumption)
      | (rule yield_exit, assumption, (simp only: append_assoc append.simps; rule refl),
          rule phrases; (assumption | (simp; fail)))
      | (intro sticky_rules; fail) | (simp; fail))+

lemma wp_enum_form:
  "is_kw ''enum'' a \<Longrightarrow> moved s0 (ts @ [a]) s \<Longrightarrow> lo \<le> length ts \<Longrightarrow>
   wp (parse_enum n (tok_loc (p_path s0) a)) (\<lambda>x s'. \<exists>us. stmt_phrase (p_path s0) x us \<and> moved s0 (ts @ us) s') s"
  unfolding parse_enum_def
  by (rule wp_if_const wp_pair wp_structure | (rule wp_tokens, assumption)
      | (rule yield_exit, assumption, (simp only: append_assoc append.simps; rule refl),
          rule phrases; (assumption | (simp; fail)))
      | (intro sticky_rules; fail) | (simp; fail))+

lemma wp_obj_form:
  "is_kw (if b then ''trait'' else ''object'') a \<Longrightarrow> moved s0 (ts @ [a]) s \<Longrightarrow> lo \<le> length ts \<Longrightarrow>
   wp (parse_object n pexpr (tok_loc (p_path s0) a) b) (\<lambda>x s'. \<exists>us. stmt_phrase (p_path s0) x us \<and> moved s0 (ts @ us) s') s"
  unfolding parse_object_def
  by (rule wp_if_const wp_pair wp_structure | (rule wp_tokens, assumption)
      | (rule yield_exit, assumption, (simp only: append_assoc append.simps; rule refl),
          rule phrases; (assumption | (simp; fail)))
      | (intro sticky_rules; fail) | (simp; fail))+

lemma wp_if_form:
  "is_kw ''if'' a \<Longrightarrow> moved s0 (ts @ [a]) s \<Longrightarrow> lo \<le> length ts \<Longrightarrow>
   wp (parse_if n pexpr pstmt (tok_loc (p_path s0) a)) (\<lambda>x s'. \<exists>us. stmt_phrase (p_path s0) x us \<and> moved s0 (ts @ us) s') s"
  unfolding parse_if_def
  by (rule wp_if_const wp_pair wp_structure | (rule wp_tokens, assumption)
      | (rule yield_exit, assumption, (simp only: append_assoc append.simps; rule refl),
          rule phrases; (assumption | (simp; fail)))
      | (intro sticky_rules; fail) | (simp; fail))+

lemma wp_loop_form:
  "is_kw ''loop'' a \<Longrightarrow> moved s0 (ts @ [a]) s \<Longrightarrow> lo \<le> length ts \<Longrightarrow>
   wp (parse_loop n pexpr pstmt (tok_loc (p_path s0) a)) (\<lambda>x s'. \<exists>us. stmt_phrase (p_path s0) x us \<and> moved s0 (ts @ us) s') s"
  unfolding parse_loop_def
  by (rule wp_if_const wp_pair wp_structure | (rule wp_tokens, assumption)
      | (rule yield_exit, assumption, (simp only: append_assoc append.simps; rule refl),
          rule phrases; (assumption | (simp; fail)))
      | (intro sticky_rules; fail) | (simp; fail))+

lemma wp_match_form:
  "is_kw ''match'' a \<Longrightarrow> moved s0 (ts @ [a]) s \<Longrightarrow> lo \<le> length ts \<Longrightarrow>
   wp (parse_match n pexpr pstmt (tok_loc (p_path s0) a)) (\<lambda>x s'. \<exists>us. stmt_phrase (p_path s0) x us \<and> moved s0 (ts @ us) s') s"
  unfolding parse_match_def
  by (rule wp_if_const wp_pair wp_structure | (rule wp_tokens, assumption)
      | (rule yield_exit, assumption, (simp only: append_assoc append.simps; rule refl),
          rule phrases; (assumption | (simp; fail)))
      | (intro sticky_rules; fail) | (simp; fail))+

lemma wp_monitor_form:
  "is_kw ''monitor'' a \<Longrightarrow> moved s0 (ts @ [a]) s \<Longrightarrow> lo \<le> length ts \<Longrightarrow>
   wp (parse_monitor n pstmt (tok_loc (p_path s0) a)) (\<lambda>x s'. \<exists>us. stmt_phrase (p_path s0) x us \<and> moved s0 (ts @ us) s') s"
  unfolding parse_monitor_def
  by (rule wp_if_const wp_pair wp_structure | (rule wp_tokens, assumption)
      | (rule yield_exit, assumption, (simp only: append_assoc append.simps; rule refl),
          rule phrases; (assumption | (simp; fail)))
      | (intro sticky_rules; fail) | (simp; fail))+

lemma wp_join_form:
  "is_kw ''join'' a \<Longrightarrow> moved s0 (ts @ [a]) s \<Longrightarrow> lo \<le> length ts \<Longrightarrow>
   wp (parse_join n (tok_loc (p_path s0) a)) (\<lambda>x s'. \<exists>us. stmt_phrase (p_path s0) x us \<and> moved s0 (ts @ us) s') s"
  unfolding parse_join_def
  by (rule wp_if_const wp_pair wp_structure | (rule wp_tokens, assumption)
      | (rule yield_exit, assumption, (simp only: append_assoc append.simps; rule refl),
          rule phrases; (assumption | (simp; fail)))
      | (intro sticky_rules; fail) | (simp; fail))+

lemma wp_compiler_stmt:
  assumes s: "moved s0 ts s" "lo \<le> length ts" and scope: "is_tok SCOPE (cur s)"
  shows "wp (parse_compiler_stmt n pexpr pstmt) (\<lambda>x s'. \<exists>us. stmt_phrase (p_path s0) x us \<and> moved s0 (ts @ us) s') s"
  unfolding parse_compiler_stmt_def parse_reflect_for_def parse_typeid_match_def
  by (insert assms, (rule wp_if_const wp_pair wp_structure | (rule wp_tokens, assumption)
      | (rule yield_exit, assumption, (simp only: append_assoc append.simps; rule refl),
          rule phrases; (assumption | (simp; fail)))
      | (intro sticky_rules; fail) | (simp; fail))+)

end

end
