(* ===== verification/Parse_Program.thy ===== *)
theory Parse_Program
  imports Parse_Control
begin

text \<open>
  The statement parser, the knot of the two recursive parsers with the fuel they need, and programs.
\<close>

section \<open>Statements\<close>

lemma wp_keyword_stmt:
  assumes s: "moved s0 ts s"
    and yes: "\<And>s'. is_kw kw (cur s) \<Longrightarrow> moved s0 (ts @ [cur s]) s' \<Longrightarrow>
      wp (p (tok_loc (p_path s0) (cur s))) (\<lambda>x s'. \<exists>us. P x us \<and> moved s0 (ts @ us) s') s'"
    and no: "\<not> is_kw kw (cur s) \<Longrightarrow> wp other (\<lambda>x s'. \<exists>us. some_phrase P x us \<and> moved s0 (ts @ us) s') s"
    and st: "\<And>l. sticky (p l)" "sticky other"
  shows "wp (keyword_stmt kw p other) (\<lambda>x s'. \<exists>us. some_phrase P x us \<and> moved s0 (ts @ us) s') s"
  unfolding keyword_stmt_def some_stmt_def
  by (rule wp_ifp, rule wp_check_kw [OF s], rule wp_if, rule wp_bindp, rule wp_bindp, rule wp_here [OF s],
      rule wp_thenp, rule wp_advance [OF s], rule wp_mono, rule yes)
    (auto intro!: no st wp_returns sticky_rules intro: some_phraseI dest: kw_no_end)

lemma sticky_simple [sticky_rules]:
  "sticky p \<Longrightarrow> sticky q \<Longrightarrow> sticky (simple_statement n p q)" "sticky p \<Longrightarrow> sticky r \<Longrightarrow> sticky (try_insert p r)"
  "sticky p \<Longrightarrow> sticky (return_value p)" "sticky (looks_like_braced_destructure n)"
  "sticky (looks_like_bare_destructure n)" "sticky q \<Longrightarrow> sticky (bare_block n q)"
  unfolding simple_statement_def try_insert_def return_value_def looks_like_braced_destructure_def
    looks_like_bare_destructure_def bare_block_def parse_insert_def at_assignment_def
  by (intro sticky_rules; assumption)+

lemma sticky_some_stmt [sticky_rules]: "sticky p \<Longrightarrow> sticky (some_stmt p)"
  unfolding some_stmt_def by (intro sticky_rules; assumption)

lemma wp_some_stmt:
  "wp p (\<lambda>x s'. \<exists>us. P x us \<and> moved s0 (ts @ us) s') s \<Longrightarrow>
   wp (some_stmt p) (\<lambda>x s'. \<exists>us. some_phrase P x us \<and> moved s0 (ts @ us) s') s"
  unfolding some_stmt_def
  by (rule wp_bindp, rule wp_mono, assumption) (auto intro!: wp_returns sticky_rules intro: some_phraseI)

lemma wp_late_import: "moved s0 ts s \<Longrightarrow> Q () s \<Longrightarrow> wp late_import_error Q s"
  unfolding late_import_error_def
  by (rule wp_if_const wp_structure | (rule wp_tokens, assumption) | assumption | (intro sticky_rules; fail))+

context statement_parts
begin

lemma looks_like [wp_tokens]:
  "moved s0 ts s \<Longrightarrow> (\<And>b. Q b s) \<Longrightarrow> lo \<le> length ts \<Longrightarrow> wp (looks_like_braced_destructure n) Q s"
  "moved s0 ts s \<Longrightarrow> (\<And>b. Q b s) \<Longrightarrow> lo \<le> length ts \<Longrightarrow> wp (looks_like_bare_destructure n) Q s"
  using wp_looks_like [of s0 ts s n Q] fuel by simp_all

lemma wp_simple_statement:
  assumes s: "moved s0 ts s" "lo \<le> length ts"
  shows "wp (simple_statement n pexpr pstmt)
    (\<lambda>x s'. \<exists>us. some_phrase (stmt_phrase (p_path s0)) x us \<and> moved s0 (ts @ us) s') s"
proof -
  have block: "stmt_phrase (p_path s0) (BlockStmt l (Block l sts)) (a # us @ [b])"
    if "is_tok LBRACE a" "stmts_phrase (p_path s0) sts us" "is_tok RBRACE b" "l = tok_loc (p_path s0) a" for l a sts us b
    using ph_block_stmt [OF ph_block [OF that(1-3)]] that(4) by simp
  show ?thesis
    unfolding simple_statement_def bare_block_def
    by (insert s, (rule wp_assign_or_expr [OF s] | rule wp_if_const wp_structure | (rule wp_tokens, assumption)
      | (rule yield_exit, assumption, (simp only: append_assoc append.simps; rule refl), rule some_phraseI,
          rule block; (assumption | (simp; fail)))
      | (intro sticky_rules; fail) | (simp; fail))+)
qed

lemma wp_try_insert:
  assumes s: "moved s0 ts s" "lo \<le> length ts"
  shows "wp (try_insert pexpr (simple_statement n pexpr pstmt))
    (\<lambda>x s'. \<exists>us. some_phrase (stmt_phrase (p_path s0)) x us \<and> moved s0 (ts @ us) s') s"
  unfolding try_insert_def parse_insert_def
  by (insert s, (rule wp_simple_statement [OF s] | (rule wp_put_back, assumption, rule s(1))
      | rule wp_if_const wp_structure | (rule wp_opt_semicolon, assumption) | (rule wp_tokens, assumption)
      | (rule yield_exit, assumption, (simp only: append_assoc append.simps; rule refl), rule some_phraseI,
          rule phrases; (assumption | (simp; fail)))
      | (intro sticky_rules; fail) | (simp; fail))+)

lemma wp_short_statements:
  assumes s: "moved s0 ts s" "lo \<le> length ts"
    and other: "wp other (\<lambda>x s'. \<exists>us. some_phrase (stmt_phrase (p_path s0)) x us \<and> moved s0 (ts @ us) s') s"
      "sticky other"
  defines "Q \<equiv> \<lambda>x s'. \<exists>us. some_phrase (stmt_phrase (p_path s0)) x us \<and> moved s0 (ts @ us) s'"
  shows "wp (lock_stmt other) Q s" "wp (named_stmt ''acquire'' Acquire other) Q s"
    "wp (named_stmt ''release'' Release other) Q s"
    "wp (ifp (match_kw ''return'') (bindp prev_loc (\<lambda>l. bindp (return_value pexpr) (\<lambda>e. returns (Some (Return l e))))) other) Q s"
    "wp (ifp (match_kw ''break'') (bindp prev_loc (\<lambda>l. returns (Some (Break l)))) other) Q s"
  unfolding lock_stmt_def named_stmt_def return_value_def Q_def
  by (insert s(1,2), (rule other | rule wp_if_const wp_structure | (rule wp_opt_semicolon, assumption)
      | (rule wp_tokens, assumption)
      | (rule yield_exit, assumption, (simp only: append_assoc append.simps; rule refl), rule some_phraseI,
          rule phrases; (assumption | (simp; fail)))
      | (intro sticky_rules; fail) | (simp; fail))+)

lemma yields_statement_body:
  "yields s0 lo (statement_body n pexpr pstmt) (some_phrase (stmt_phrase (p_path s0)))"
proof (rule yieldsI)
  fix ts s
  assume s: "moved s0 ts s" "lo \<le> length ts"
  have obj: "wp (parse_object n pexpr (tok_loc (p_path s0) a) False)
        (\<lambda>x s'. \<exists>us. stmt_phrase (p_path s0) x us \<and> moved s0 (ts @ us) s') s'"
    if "is_kw ''object'' a" "moved s0 (ts @ [a]) s'" for a s'
    using wp_obj_form [of False] that s(2) by simp
  have trait: "wp (parse_object n pexpr (tok_loc (p_path s0) a) True)
        (\<lambda>x s'. \<exists>us. stmt_phrase (p_path s0) x us \<and> moved s0 (ts @ us) s') s'"
    if "is_kw ''trait'' a" "moved s0 (ts @ [a]) s'" for a s'
    using wp_obj_form [of True] that s(2) by simp
  note forms = wp_func_form wp_enum_form obj trait wp_if_form wp_loop_form wp_match_form wp_monitor_form wp_join_form
  show "wp (statement_body n pexpr pstmt)
      (\<lambda>x s'. \<exists>us. some_phrase (stmt_phrase (p_path s0)) x us \<and> moved s0 (ts @ us) s') s"
    unfolding statement_body_def
    by (insert s, (rule wp_try_insert [OF s] | rule wp_short_statements [OF s] | (rule wp_some_stmt, rule wp_compiler_stmt [OF s], assumption)
      | (rule wp_keyword_stmt, assumption) | (rule forms, assumption, assumption) | (rule wp_late_import, assumption)
      | rule wp_if_const wp_structure | (rule wp_opt_semicolon, assumption) | (rule wp_tokens, assumption)
      | (rule yield_exit, assumption, (simp only: append_assoc append.simps; rule refl), rule some_phraseI,
          rule phrases; (assumption | (simp; fail)))
      | (intro sticky_rules; fail) | (simp; fail))+)
qed

end

section \<open>The recursive parsers\<close>

text \<open>
  A statement calls the expression parser where it starts, so a statement needs one unit more: twice the
  tokens left bound the fuel.
\<close>

lemma parse_parts_expr:
  assumes "yields s0 (lo + 1) (parse_expression n) (expr_phrase (p_path s0) 9)"
    "yields s0 (lo + 1) (parse_statement n) (some_phrase (stmt_phrase (p_path s0)))" "tokens_left s0 < lo + n"
  shows "parse_parts s0 lo n (parse_expression n) (parse_statement n)"
  using assms by unfold_locales (auto intro: sticky_rules)

lemma yields_step: "(\<And>s. p s = q s) \<Longrightarrow> yields s0 lo q P \<Longrightarrow> yields s0 lo p P"
  by (simp add: yields_def wp_def)

lemma yields_none: "tokens_left s0 \<le> lo \<Longrightarrow> yields s0 lo p P"
  by (auto simp: yields_def dest: moved_length)

lemma yields_recursive:
  shows "2 * tokens_left s0 + 2 \<le> 2 * lo + n \<Longrightarrow> yields s0 lo (parse_expression n) (expr_phrase (p_path s0) 9)"
    and "2 * tokens_left s0 + 3 \<le> 2 * lo + n \<Longrightarrow>
      yields s0 lo (parse_statement n) (some_phrase (stmt_phrase (p_path s0)))"
proof (induction n arbitrary: lo)
  case 0
  {
    case 1
    then show ?case by (intro yields_none) simp
  next
    case 2
    then show ?case by (intro yields_none) simp
  }
next
  case (Suc n)
  have parts: "parse_parts s0 lo n (parse_expression n) (parse_statement n)"
    if "2 * tokens_left s0 + 2 \<le> 2 * lo + Suc n" "lo < tokens_left s0" for lo
    using Suc [of "lo + 1"] that by (intro parse_parts_expr) simp_all
  {
    case 1
    show ?case
    proof (cases "lo < tokens_left s0")
      case True
      show ?thesis
        by (rule yields_step [OF _ parse_parts.yields_expression_body [OF parts [OF 1 True]]]) simp
    qed (simp add: yields_none)
  next
    case 2
    show ?case
    proof (cases "lo < tokens_left s0")
      case True
      have "statement_parts s0 lo n (parse_expression n) (parse_statement n)"
        using parts [of lo] Suc.IH(1) [of lo] 2 True
        by (intro statement_parts.intro statement_parts_axioms.intro) simp_all
      then show ?thesis
        by (intro yields_step [OF _ statement_parts.yields_statement_body]) simp_all
    qed (simp add: yields_none)
  }
qed

text \<open>The contracts hold of the two parsers themselves, from any state and with enough fuel.\<close>

interpretation rec_parts: parse_parts s 0 "2 * tokens_left s + 3" "parse_expression (2 * tokens_left s + 3)"
    "parse_statement (2 * tokens_left s + 3)" for s
  by (rule parse_parts_expr) (simp_all add: yields_recursive)

interpretation recursion: statement_parts s 0 "2 * tokens_left s + 3" "parse_expression (2 * tokens_left s + 3)"
    "parse_statement (2 * tokens_left s + 3)" for s
  by unfold_locales (simp_all add: yields_recursive sticky_rules)

section \<open>Programs\<close>

lemma comma_imports:
  assumes "tokens_left s0 < lo + n"
  shows "yields s0 lo (comma_list n (bindp here (\<lambda>l. bindp expect_name (\<lambda>name.
      returns \<lparr>import_loc = l, import_package = name\<rparr>)))) (comma_sep (import_item (p_path s0)))"
proof -
  have "yields s0 lo (bindp here (\<lambda>l. bindp expect_name (\<lambda>name.
      returns \<lparr>import_loc = l, import_package = name\<rparr>))) (import_item (p_path s0))"
    by (rule yieldsI, (rule wp_structure | (rule wp_tokens, assumption)
      | (rule yield_exit, assumption, (rule refl), (simp add: import_item_def; fail)) | (intro sticky_rules; fail))+)
  then show ?thesis using assms by (intro yields_comma_list sticky_rules)
qed

declare imports_phrase.intros [phrases]

lemma yields_import_loop:
  "lo \<le> hi \<Longrightarrow> tokens_left s0 < lo + n \<Longrightarrow> tokens_left s0 < hi + m \<Longrightarrow>
   yields s0 hi (import_loop m n) (imports_phrase (p_path s0))"
proof (induction m arbitrary: hi)
  case 0
  then show ?case by (intro yields_none) simp
next
  case (Suc m)
  have rest: "yields s0 (hi + 1) (import_loop m n) (imports_phrase (p_path s0))"
    using Suc.prems by (intro Suc.IH) auto
  have items: "yields s0 hi (comma_list n (bindp here (\<lambda>l. bindp expect_name (\<lambda>name.
      returns \<lparr>import_loc = l, import_package = name\<rparr>)))) (comma_sep (import_item (p_path s0)))"
    using Suc.prems by (intro comma_imports) simp
  note wp_yields [OF _ rest, wp_tokens] wp_yields [OF _ items, wp_tokens]
  show ?case
    unfolding import_loop.simps parse_load_package_def parse_load_packages_def
    by (rule yieldsI, (rule wp_if_const wp_structure | (rule wp_tokens, assumption)
      | (rule yield_nothing, assumption, rule phrases)
      | (rule yield_exit, assumption, (simp only: append_assoc append.simps; rule refl),
          rule phrases; (assumption | (simp; fail)))
      | (intro sticky_rules; fail) | (simp; fail))+)
qed

lemma wp_recover_progress:
  "moved s0 ts s \<Longrightarrow> p_pos s \<noteq> start \<Longrightarrow> Q () s \<Longrightarrow> wp (recover_progress n start) Q s"
  unfolding recover_progress_def
  by (rule wp_if_const wp_structure | (rule wp_tokens, assumption) | assumption | (intro sticky_rules; fail) | (simp; fail))+

definition at_end_of :: "parser \<Rightarrow> bool" where
  "at_end_of s \<longleftrightarrow> is_tok END (cur s)"

lemma wp_program_loop:
  assumes "2 * tokens_left s0 + 3 \<le> 2 * lo + n"
  shows "moved s0 ts s \<Longrightarrow> lo \<le> length ts \<Longrightarrow> tokens_left s0 < length ts + m \<Longrightarrow>
    wp (program_loop m n) (\<lambda>sts s'. \<exists>us. stmts_phrase (p_path s0) sts us \<and> moved s0 (ts @ us) s' \<and> at_end_of s') s"
proof (induction m arbitrary: ts s)
  case 0
  then show ?case using moved_length by fastforce
next
  case (Suc m)
  let ?Q = "\<lambda>sts s'. \<exists>us. stmts_phrase (p_path s0) sts us \<and> moved s0 (ts @ us) s' \<and> at_end_of s'"
  note s = Suc.prems(1)
  have sticky: "sticky (recover_progress n b)" for b unfolding recover_progress_def by (intro sticky_rules)
  show ?case
    unfolding program_loop.simps
  proof (rule wp_ifp, rule wp_at_end [OF s], rule wp_if)
    assume "is_tok END (cur s)"
    then show "wp (returns []) ?Q s" using s by (auto intro!: wp_returns exI [of _ "[]"] ph_no_stmts simp: at_end_of_def)
  next
    show "wp (bindp get_pos (\<lambda>start. bindp (parse_statement n) (\<lambda>st. thenp (match_token SEMICOLON)
        (thenp (recover_progress n start) (bindp (program_loop m n) (\<lambda>sts.
          returns (case st of None \<Rightarrow> sts | Some x \<Rightarrow> x # sts))))))) ?Q s"
    proof (rule wp_bindp, rule wp_get_pos [OF s], rule wp_bindp,
        rule wp_yields [OF s yields_recursive(2) [OF assms] _ Suc.prems(2)])
      fix st us s1
      assume "some_phrase (stmt_phrase (p_path s0)) st us" and s1: "moved s0 (ts @ us) s1"
      then obtain x where st: "st = Some x" and x: "stmt_phrase (p_path s0) x us"
        by (auto simp: some_phrase_def)
      have ne: "us \<noteq> []" using phrase_nonempty(3) [OF x] .
      show "wp (thenp (match_token SEMICOLON) (thenp (recover_progress n (p_pos s)) (bindp (program_loop m n) (\<lambda>sts.
          returns (case st of None \<Rightarrow> sts | Some x \<Rightarrow> x # sts))))) ?Q s1"
        unfolding st option.case
      proof (rule wp_thenp, rule wp_opt_semicolon [OF s1])
        fix vs s2
        assume vs: "opt_semicolon vs" and s2: "moved s0 ((ts @ us) @ vs) s2"
        have moved_on: "p_pos s2 \<noteq> p_pos s" using s s2 ne by (auto simp: moved_def)
        have len: "lo \<le> length ((ts @ us) @ vs)" "tokens_left s0 < length ((ts @ us) @ vs) + m"
          using Suc.prems ne by (cases us; simp)+
        show "wp (thenp (recover_progress n (p_pos s)) (bindp (program_loop m n) (\<lambda>sts. returns (x # sts)))) ?Q s2"
        proof (rule wp_thenp, rule wp_recover_progress [OF s2 moved_on], rule wp_bindp, rule wp_mono, rule Suc.IH [OF s2 len])
          fix sts s3
          assume "\<exists>ws. stmts_phrase (p_path s0) sts ws \<and> moved s0 (((ts @ us) @ vs) @ ws) s3 \<and> at_end_of s3"
          then show "wp (returns (x # sts)) ?Q s3"
            using ph_stmts [OF x vs] by (auto intro!: wp_returns)
        qed (intro sticky_rules)+
      qed (intro sticky_rules sticky)
    qed (intro sticky_rules sticky)+
  qed (intro sticky_rules sticky)+
qed

lemma program_exit:
  "is_kw ''package'' a \<Longrightarrow> is_name b \<Longrightarrow> imports_phrase path is us \<Longrightarrow> stmts_phrase path sts vs \<Longrightarrow> moved s0 ws s \<Longrightarrow>
   at_end_of s \<Longrightarrow> ws = a # b # us @ vs \<Longrightarrow>
   \<exists>us. program_phrase path \<lparr>package_loc = tok_loc path a, package_name = text_of b, program_imports = is,
     program_statements = sts\<rparr> us \<and> moved s0 us s \<and> at_end_of s"
  unfolding program_phrase_def by (rule exI [of _ ws]) auto

lemma wp_parse_program:
  assumes ok: "tokens_ok (p_tokens s0)" "p_pos s0 = 0" and fuel: "2 * tokens_left s0 + 3 \<le> n"
  shows "wp (parse_program n) (\<lambda>p s'. \<exists>us. program_phrase (p_path s0) p us \<and> moved s0 us s' \<and> at_end_of s') s0"
proof -
  have s: "moved s0 [] s0" using ok by (intro moved_start) (auto simp: tokens_ok_def)
  have loads: "yields s0 0 (import_loop n n) (imports_phrase (p_path s0))"
    using fuel by (intro yields_import_loop) auto
  have loop: "wp (program_loop n n) Q s"
    if "moved s0 ts s" "\<And>sts us s'. stmts_phrase (p_path s0) sts us \<Longrightarrow> moved s0 (ts @ us) s' \<Longrightarrow> at_end_of s' \<Longrightarrow> Q sts s'"
    for ts s Q
    by (rule wp_mono, rule wp_program_loop [where lo = 0, OF _ that(1)]) (use fuel that(2) in auto)
  note wp_yields [OF _ loads, wp_tokens] loop [wp_tokens]
  show ?thesis
    unfolding parse_program_def
    by (insert s, (rule wp_structure | (rule wp_tokens, assumption)
      | (rule program_exit, assumption, assumption, assumption, assumption, assumption, assumption, (simp; fail))
      | (intro sticky_rules; fail) | (simp; fail))+)
qed

end
