(* ===== verification/Parse_Run.thy ===== *)
theory Parse_Run
  imports Parse_Program Lexer_Tokens
begin

text \<open>
  Running the parser on concrete tokens by simplification. A routine is unfolded only where it is applied
  to a state, so the branches that are not taken stay as they are; fuel is counted down as a numeral.
\<close>

lemmas run_base =
  returns_def crash_def out_of_fuel_def bindp_def cur_token_def prev_token_def text_of_def loc_of_def
  get_pos_def set_pos_def error_at_def boundary_keywords_def primitive_named_def
  looks_like_call_type_args_def first_char_def compiler_forms_def is_recovering_def new_parser_def

lemmas run_defs =
  thenp_def [THEN fun_cong] ifp_def [THEN fun_cong] at_end_def [THEN fun_cong] here_def [THEN fun_cong]
  prev_loc_def [THEN fun_cong] check_token_def [THEN fun_cong] check_kw_def [THEN fun_cong] check_name_def
  [THEN fun_cong] advance_token_def [THEN fun_cong] match_token_def [THEN fun_cong] match_kw_def [THEN
  fun_cong] error_here_def [THEN fun_cong] expect_token_def [THEN fun_cong] expect_kw_def [THEN fun_cong]
  expect_name_def [THEN fun_cong] at_boundary_def [THEN fun_cong] list_until_def [THEN fun_cong]
  node_loc_def [THEN fun_cong] tuple_type_def [THEN fun_cong] map_type_def [THEN fun_cong] array_type_def
  [THEN fun_cong] lambda_type_def [THEN fun_cong] type_body_def [THEN fun_cong] parse_param_def [THEN
  fun_cong] parse_params_def [THEN fun_cong] make_binary_def [THEN fun_cong] parse_binary_def [THEN
  fun_cong] parse_multiplicative_def [THEN fun_cong] parse_additive_def [THEN fun_cong] parse_relational_def
  [THEN fun_cong] parse_equality_def [THEN fun_cong] parse_and_def [THEN fun_cong] parse_or_def [THEN
  fun_cong] parse_pipe_def [THEN fun_cong] call_arguments_def [THEN fun_cong] generic_call_def [THEN
  fun_cong] index_suffix_def [THEN fun_cong] parse_postfix_def [THEN fun_cong] parse_block_def [THEN
  fun_cong] int_payload_def [THEN fun_cong] float_payload_def [THEN fun_cong] literal_def [THEN fun_cong]
  parse_literals_def [THEN fun_cong] parse_cast_def [THEN fun_cong] parse_alloc_def [THEN fun_cong]
  parse_free_def [THEN fun_cong] parse_simd_def [THEN fun_cong] parse_hint_call_def [THEN fun_cong]
  parse_lambda_def [THEN fun_cong] map_entry_def [THEN fun_cong] parse_map_literal_def [THEN fun_cong]
  at_compiler_form_def [THEN fun_cong] parse_compiler_call_def [THEN fun_cong] parse_name_def [THEN
  fun_cong] typed_array_ahead_def [THEN fun_cong] parse_array_or_typed_array_def [THEN fun_cong]
  braced_rest_def [THEN fun_cong] parse_braced_def [THEN fun_cong] parse_primary_def [THEN fun_cong]
  expression_body_def [THEN fun_cong] at_assignment_def [THEN fun_cong] looks_like_braced_destructure_def
  [THEN fun_cong] looks_like_bare_destructure_def [THEN fun_cong] at_underscore_def [THEN fun_cong]
  parse_target_def [THEN fun_cong] parse_targets_def [THEN fun_cong] maybe_attach_lambda_call_def [THEN
  fun_cong] match_assign_op_def [THEN fun_cong] parse_assigned_def [THEN fun_cong] parse_expr_stmt_def [THEN
  fun_cong] parse_assign_or_expr_def [THEN fun_cong] parse_join_def [THEN fun_cong] type_params_def [THEN
  fun_cong] return_type_def [THEN fun_cong] parse_func_def [THEN fun_cong] parse_enum_def [THEN fun_cong]
  field_constraint_def [THEN fun_cong] parse_field_def [THEN fun_cong] parse_object_def [THEN fun_cong]
  apply_branch_hint_def [THEN fun_cong] parse_branch_def [THEN fun_cong] parse_if_def [THEN fun_cong]
  parse_loop_def [THEN fun_cong] parse_match_def [THEN fun_cong] parse_monitor_def [THEN fun_cong]
  typeid_arm_def [THEN fun_cong] parse_reflect_for_def [THEN fun_cong] parse_typeid_match_def [THEN
  fun_cong] parse_compiler_stmt_def [THEN fun_cong] some_stmt_def [THEN fun_cong] keyword_stmt_def [THEN
  fun_cong] named_stmt_def [THEN fun_cong] lock_stmt_def [THEN fun_cong] return_value_def [THEN fun_cong]
  parse_insert_def [THEN fun_cong] try_insert_def [THEN fun_cong] bare_block_def [THEN fun_cong]
  simple_statement_def [THEN fun_cong] late_import_error_def [THEN fun_cong] statement_body_def [THEN
  fun_cong] parse_load_package_def [THEN fun_cong] parse_load_packages_def [THEN fun_cong]
  recover_progress_def [THEN fun_cong] parse_program_def [THEN fun_cong]

lemmas run_loops =
  synchronize.simps [THEN fun_cong] comma_list.simps [THEN fun_cong] parse_type.simps [THEN fun_cong]
  binary_loop.simps [THEN fun_cong] parse_unary.simps [THEN fun_cong] postfix_loop.simps [THEN fun_cong]
  statements_until_brace.simps [THEN fun_cong] skip_names.simps [THEN fun_cong] else_loop.simps [THEN
  fun_cong] case_loop.simps [THEN fun_cong] typeid_loop.simps [THEN fun_cong] import_loop.simps [THEN
  fun_cong] program_loop.simps [THEN fun_cong] match_operator.simps [THEN fun_cong]

lemmas run_numerals =
  synchronize.simps(2) [of "pred_numeral k" for k, folded numeral_eq_Suc, THEN fun_cong] comma_list.simps(2)
  [of "pred_numeral k" for k, folded numeral_eq_Suc, THEN fun_cong] parse_type.simps(2) [of "pred_numeral k"
  for k, folded numeral_eq_Suc, THEN fun_cong] binary_loop.simps(2) [of "pred_numeral k" for k, folded
  numeral_eq_Suc, THEN fun_cong] parse_unary.simps(2) [of "pred_numeral k" for k, folded numeral_eq_Suc,
  THEN fun_cong] postfix_loop.simps(2) [of "pred_numeral k" for k, folded numeral_eq_Suc, THEN fun_cong]
  statements_until_brace.simps(2) [of "pred_numeral k" for k, folded numeral_eq_Suc, THEN fun_cong]
  skip_names.simps(2) [of "pred_numeral k" for k, folded numeral_eq_Suc, THEN fun_cong] else_loop.simps(2)
  [of "pred_numeral k" for k, folded numeral_eq_Suc, THEN fun_cong] case_loop.simps(2) [of "pred_numeral k"
  for k, folded numeral_eq_Suc, THEN fun_cong] typeid_loop.simps(2) [of "pred_numeral k" for k, folded
  numeral_eq_Suc, THEN fun_cong] import_loop.simps(2) [of "pred_numeral k" for k, folded numeral_eq_Suc,
  THEN fun_cong] program_loop.simps(2) [of "pred_numeral k" for k, folded numeral_eq_Suc, THEN fun_cong]
  parse_expression.simps(2) [of "pred_numeral k" for k, folded numeral_eq_Suc] parse_statement.simps(2) [of
  "pred_numeral k" for k, folded numeral_eq_Suc]

lemmas unapplied =
  synchronize.simps comma_list.simps parse_type.simps binary_loop.simps parse_unary.simps postfix_loop.simps
  statements_until_brace.simps skip_names.simps else_loop.simps case_loop.simps typeid_loop.simps
  import_loop.simps program_loop.simps match_operator.simps

lemmas parser_run = run_base run_defs run_loops run_numerals

text \<open>Tokens on one line, for examples: columns counted in tokens.\<close>

definition tok_at :: "int \<Rightarrow> token_type \<Rightarrow> string \<Rightarrow> token" where
  "tok_at c k x = \<lparr>token_line = 1, token_column = c, token_kind = k,
     token_value = (case fixed_payload k of Some v \<Rightarrow> v | None \<Rightarrow> if k = END then CharP (CHR 0x00) else TextP x)\<rparr>"

primrec line_from :: "int \<Rightarrow> (token_type \<times> string) list \<Rightarrow> token list" where
  "line_from c [] = [tok_at c END []]"
| "line_from c (kx # kxs) = tok_at c (fst kx) (snd kx) # line_from (c + 1) kxs"

definition line_of :: "(token_type \<times> string) list \<Rightarrow> token list" where
  "line_of kxs = line_from 1 kxs"

lemmas line_simps = line_of_def tok_at_def fixed_payload_def

lemma fresh_not_failed: "\<not> ctx_failed fresh_context"
  by (simp add: fresh_context_def ctx_failed_def error_ok_def error_success_def)

lemmas failure_simps = failed_def ctx_report_failed span_report_def fresh_not_failed

end
