(* ===== verification/Parse_Faults.thy ===== *)
theory Parse_Faults
  imports Parse_Run
begin

text \<open>
  Where the parser goes wrong: it does not terminate on a token no statement starts with, it reads before
  the first token when the source does not begin with \<open>package\<close>, it follows the null pointer of a missing
  operand, and its lookahead for type arguments runs past the end of the expression.
\<close>

section \<open>A token no statement begins with\<close>

definition stray_kinds :: "token_type list" where
  "stray_kinds = [RPAREN, RBRACKET, COLON, COMMA, ASSIGN, ADD_ASSIGN, ARROW]"

definition infix_kinds :: "token_type list" where
  "infix_kinds = [STAR, SLASH, PERCENT, PLUS, GT, LE, GE, EQ, NE, AND_AND, OR_OR]"

definition at_kind :: "token_type \<Rightarrow> parser \<Rightarrow> bool" where
  "at_kind k0 s \<longleftrightarrow> p_pos s < length (p_tokens s) \<and> token_kind (cur s) = k0 \<and> k0 \<notin> {END, SYMBOL, KEYWORD}"

definition same_place :: "parser \<Rightarrow> parser \<Rightarrow> bool" where
  "same_place s s' \<longleftrightarrow> p_tokens s' = p_tokens s \<and> p_pos s' = p_pos s \<and> p_recover s' = p_recover s"

lemma at_kind_same: "at_kind k0 s \<Longrightarrow> same_place s s' \<Longrightarrow> at_kind k0 s'"
  by (simp add: at_kind_def same_place_def cur_def)

lemma run_at_kind:
  assumes "at_kind k0 s"
  shows "cur_token s = Done (cur s) s" "at_end s = Done False s" "check_kw kw s = Done False s"
    "check_name s = Done False s" "at_underscore s = Done False s" "match_kw kw s = Done False s"
    "k \<noteq> k0 \<Longrightarrow> check_token k s = Done False s" "k \<noteq> k0 \<Longrightarrow> match_token k s = Done False s"
  using assms
  by (auto simp: at_kind_def cur_token_def cur_def at_end_def check_kw_def check_name_def at_underscore_def
      match_kw_def check_token_def match_token_def bindp_def ifp_def returns_def)

text \<open>A run that returns \<open>x\<close> where it started, or runs out of fuel.\<close>

definition idles :: "token_type \<Rightarrow> 'a parsing \<Rightarrow> 'a \<Rightarrow> bool" where
  "idles k0 p x \<longleftrightarrow> (\<forall>s. at_kind k0 s \<longrightarrow> (\<exists>s'. same_place s s' \<and> (p s = Done x s' \<or> p s = OutOfFuel s')))"

lemma idles_returns: "idles k0 (returns x) x"
  by (auto simp: idles_def returns_def same_place_def)

lemma idles_bindp: "idles k0 m x \<Longrightarrow> idles k0 (f x) y \<Longrightarrow> idles k0 (bindp m f) y"
  unfolding idles_def
proof (intro allI impI)
  fix s
  assume m: "\<forall>s. at_kind k0 s \<longrightarrow> (\<exists>s'. same_place s s' \<and> (m s = Done x s' \<or> m s = OutOfFuel s'))"
    and f: "\<forall>s. at_kind k0 s \<longrightarrow> (\<exists>s'. same_place s s' \<and> (f x s = Done y s' \<or> f x s = OutOfFuel s'))" and s: "at_kind k0 s"
  from m s obtain s1 where s1: "same_place s s1" "m s = Done x s1 \<or> m s = OutOfFuel s1" by blast
  from f at_kind_same [OF s s1(1)] obtain s2 where s2: "same_place s1 s2" "f x s1 = Done y s2 \<or> f x s1 = OutOfFuel s2" by blast
  have "same_place s s2" using s1(1) s2(1) by (simp add: same_place_def)
  then show "\<exists>s'. same_place s s' \<and> (bindp m f s = Done y s' \<or> bindp m f s = OutOfFuel s')"
    using s1 s2(2) by (auto simp: bindp_def)
qed

lemma idles_thenp: "idles k0 m x \<Longrightarrow> idles k0 k y \<Longrightarrow> idles k0 (thenp m k) y"
  unfolding thenp_def by (rule idles_bindp)

lemma idles_ifp: "idles k0 c False \<Longrightarrow> idles k0 b y \<Longrightarrow> idles k0 (ifp c a b) y"
  unfolding ifp_def by (rule idles_bindp [where x = False]) simp_all

lemma idles_fuel: "idles k0 out_of_fuel x"
  by (auto simp: idles_def out_of_fuel_def same_place_def)

lemma idles_checks:
  "idles k0 at_end False" "idles k0 (check_kw kw) False" "idles k0 check_name False" "idles k0 (match_kw kw) False"
  "k \<noteq> k0 \<Longrightarrow> idles k0 (check_token k) False" "k \<noteq> k0 \<Longrightarrow> idles k0 (match_token k) False"
  "idles k0 (error_here msg) ()"
  by (auto simp: idles_def run_at_kind same_place_def error_here_def bindp_def error_at_def)

lemma idles_read:
  "(\<And>x. idles k0 (f x) y) \<Longrightarrow> idles k0 (bindp get_pos f) y" "(\<And>x. idles k0 (g x) y) \<Longrightarrow> idles k0 (bindp here g) y"
  by (auto simp: idles_def bindp_def get_pos_def here_def run_at_kind loc_of_def)

lemma idles_looks_like_call: "k0 \<noteq> LT \<Longrightarrow> idles k0 looks_like_call_type_args False"
  by (auto simp: idles_def looks_like_call_type_args_def ifp_def bindp_def run_at_kind returns_def same_place_def)

lemmas idles_rules = idles_read idles_ifp idles_returns idles_thenp idles_fuel idles_checks idles_looks_like_call

lemma idles_primary: "k0 \<in> set stray_kinds \<union> set infix_kinds \<Longrightarrow> idles k0 (parse_primary n pexpr pstmt) NullExpr"
  unfolding parse_primary_def parse_literals_def literal_def
  by (rule idles_rules | (auto simp: stray_kinds_def infix_kinds_def; fail))+

lemma idles_postfix_loop: "k0 \<in> set stray_kinds \<union> set infix_kinds \<Longrightarrow> idles k0 (postfix_loop m n pexpr NullExpr) NullExpr"
  by (cases m; simp) (rule idles_rules | (auto simp: stray_kinds_def infix_kinds_def; fail))+

lemma idles_operators: "k0 \<notin> set (map fst ops) \<Longrightarrow> idles k0 (match_operator ops) None"
  by (induction ops rule: match_operator.induct) (auto intro!: idles_rules)

lemma idles_binary:
  assumes "idles k0 operand NullExpr" "k0 \<notin> set (map fst ops)"
  shows "idles k0 (parse_binary n ops operand) NullExpr"
proof -
  have "idles k0 (binary_loop n ops operand NullExpr) NullExpr"
    by (cases n; simp) (rule idles_rules, rule idles_bindp, rule idles_operators [OF assms(2)], simp add: idles_rules)
  then show ?thesis unfolding parse_binary_def by (rule idles_bindp [OF assms(1)])
qed

lemma idles_unary: "k0 \<in> set stray_kinds \<union> set infix_kinds \<Longrightarrow> idles k0 postfix NullExpr \<Longrightarrow> idles k0 (parse_unary n postfix) NullExpr"
  by (cases n; simp) (rule idles_rules | assumption | (auto simp: stray_kinds_def infix_kinds_def; fail))+

lemma idles_pipe: "k0 \<in> set stray_kinds \<Longrightarrow> idles k0 operand NullExpr \<Longrightarrow> idles k0 (parse_pipe n operand) NullExpr"
  unfolding parse_pipe_def parse_or_def parse_and_def parse_equality_def parse_relational_def parse_additive_def
    parse_multiplicative_def
  by (rule idles_bindp [where x = NullExpr], (rule idles_binary | assumption | (auto simp: stray_kinds_def infix_kinds_def; fail))+,
      (rule idles_rules | (auto simp: stray_kinds_def infix_kinds_def; fail))+)

lemma idles_expression: "k0 \<in> set stray_kinds \<Longrightarrow> idles k0 (parse_expression n) NullExpr"
proof (cases n)
  assume k0: "k0 \<in> set stray_kinds"
  case (Suc m)
  have "idles k0 (parse_postfix m (parse_expression m) (parse_primary m (parse_expression m) (parse_statement m))) NullExpr"
    unfolding parse_postfix_def using k0 by (intro idles_bindp [OF idles_primary] idles_postfix_loop) simp_all
  then have "idles k0 (expression_body m (parse_expression m) (parse_statement m)) NullExpr"
    unfolding expression_body_def using k0 by (intro idles_pipe idles_unary) simp_all
  then show ?thesis using Suc by (simp add: idles_def)
qed (use idles_fuel in \<open>simp add: idles_def\<close>)

lemma idles_assign: "k0 \<in> set stray_kinds \<Longrightarrow> idles k0 (parse_assign_or_expr n (parse_expression k)) None"
  unfolding parse_assign_or_expr_def parse_expr_stmt_def
  by (rule idles_read idles_bindp [OF idles_checks(5)] idles_bindp [OF idles_expression]
      | (simp only: if_False if_True refl; fail) | (simp only: if_False if_True refl) 
      | rule idles_rules | (auto simp: stray_kinds_def infix_kinds_def; fail))+

lemma idles_statement: "k0 \<in> set stray_kinds \<Longrightarrow> idles k0 (parse_statement n) None"
proof (cases n)
  assume k0: "k0 \<in> set stray_kinds"
  case (Suc m)
  have "idles k0 (statement_body m (parse_expression m) (parse_statement m)) None"
    unfolding statement_body_def late_import_error_def keyword_stmt_def named_stmt_def lock_stmt_def try_insert_def
      simple_statement_def looks_like_braced_destructure_def looks_like_bare_destructure_def
    by (insert k0, (rule idles_assign, assumption | rule idles_rules | (auto simp: stray_kinds_def infix_kinds_def; fail))+)
  then show ?thesis using Suc by (simp add: idles_def)
qed (use idles_fuel in \<open>simp add: idles_def\<close>)

definition stray :: "parser \<Rightarrow> bool" where
  "stray s \<longleftrightarrow> (\<exists>k0\<in>set stray_kinds. at_kind k0 s)"

lemma stray_same: "stray s \<Longrightarrow> same_place s s' \<Longrightarrow> stray s'"
  using at_kind_same by (auto simp: stray_def)

lemma run_stray: "stray s \<Longrightarrow> at_end s = Done False s" "stray s \<Longrightarrow> check_token RBRACE s = Done False s"
  "stray s \<Longrightarrow> match_token SEMICOLON s = Done False s"
  by (auto simp: stray_def stray_kinds_def run_at_kind)

lemma statement_idles: "stray s \<Longrightarrow> \<exists>s'. same_place s s' \<and> (parse_statement n s = Done None s' \<or> parse_statement n s = OutOfFuel s')"
  using idles_statement by (auto simp: idles_def stray_def)

lemma block_hangs: "stray s \<Longrightarrow> \<exists>s'. statements_until_brace m (parse_statement n) s = OutOfFuel s'"
proof (induction m arbitrary: s)
  case (Suc m)
  obtain s1 where s1: "same_place s s1" "parse_statement n s = Done None s1 \<or> parse_statement n s = OutOfFuel s1"
    using statement_idles [OF Suc.prems] by blast
  note st = stray_same [OF Suc.prems s1(1)]
  show ?case
    using s1(2) Suc.IH [OF st]
    by (auto simp: ifp_def bindp_def thenp_def run_stray [OF Suc.prems] run_stray [OF st])
qed (simp add: out_of_fuel_def)

lemma program_hangs: "stray s \<Longrightarrow> \<not> p_recover s \<Longrightarrow> \<exists>s'. program_loop m n s = OutOfFuel s'"
proof (induction m arbitrary: s)
  case (Suc m)
  obtain s1 where s1: "same_place s s1" "parse_statement n s = Done None s1 \<or> parse_statement n s = OutOfFuel s1"
    using statement_idles [OF Suc.prems(1)] by blast
  note st = stray_same [OF Suc.prems(1) s1(1)]
  have rec: "\<not> p_recover s1" using s1(1) Suc.prems(2) by (simp add: same_place_def)
  show ?case
    using s1(2) Suc.IH [OF st rec] rec
    by (auto simp: ifp_def bindp_def thenp_def run_stray [OF Suc.prems(1)] run_stray [OF st] get_pos_def
        recover_progress_def is_recovering_def returns_def)
qed (simp add: out_of_fuel_def)

text \<open>
  C26. On a token that begins no statement (\<open>)\<close>, \<open>]\<close>, \<open>:\<close>, \<open>,\<close>, \<open>=\<close>, \<open>+=\<close>, \<open>=>\<close>) the statement loops report an
  error and start again at the same token for ever, whatever the fuel: the loop of a block always, the
  loop of the program unless the parser is in the language server's recovery mode.
\<close>

theorem stray_token_hangs:
  assumes "stray s"
  shows "(\<exists>s'. statements_until_brace m (parse_statement n) s = OutOfFuel s') \<and>
    (p_recover s \<or> (\<exists>s'. program_loop m n s = OutOfFuel s'))"
  using block_hangs [OF assms] program_hangs [OF assms] by blast+

theorem stray_token_hangs_witness:
  "let s = new_parser (line_of [(RPAREN, '')'')]) ''a.mx'' False fresh_context
   in (\<exists>s'. statements_until_brace 9 (parse_statement 9) s = OutOfFuel s') \<and> (\<exists>s'. program_loop 9 9 s = OutOfFuel s')"
proof -
  let ?s = "new_parser (line_of [(RPAREN, '')'')]) ''a.mx'' False fresh_context"
  have "at_kind RPAREN ?s" by (simp add: at_kind_def new_parser_def cur_def line_simps)
  then have "stray ?s" by (auto simp: stray_def stray_kinds_def)
  moreover have "\<not> p_recover ?s" by (simp add: new_parser_def)
  ultimately show ?thesis using stray_token_hangs [of ?s 9 9] by (simp only: Let_def simp_thms)
qed

section \<open>Reading before the first token\<close>

lemma no_package_crashes:
  assumes s: "moved s [] s" "p_pos s = 0" and kw: "\<not> is_kw ''package'' (cur s)"
  shows "\<exists>s'. parse_program n s = Crashed s' \<and> p_pos s' = 0 \<and> failed s'"
proof -
  have kw: "check_kw ''package'' s = Done False s" using run_checks(3) [OF s(1)] kw by simp
  obtain s' where e: "expect_kw ''package'' s = Done () s'" "failed s'" "p_pos s' = 0"
    using error_fails [of "cur s" "''expected `'' @ ''package'' @ ''`''" s] s(2)
    by (simp add: expect_kw_def match_kw_def ifp_def kw returns_def error_here_def bindp_def
        moved_cur_token [OF s(1)] error_at_def)
  then have "parse_program n s = Crashed s'"
    by (simp add: parse_program_def thenp_def bindp_def prev_loc_def prev_token_def)
  with e show ?thesis by blast
qed

text \<open>
  A source that does not begin with \<open>package\<close> makes the parser read the token before the first one
  (\<open>loc_of(prev())\<close> at position 0), after it has reported the error.
\<close>

theorem missing_package_crashes:
  assumes "tokens_ok ts" "\<not> is_kw ''package'' (hd ts)"
  shows "\<exists>s'. parse_program n (new_parser ts path rec ctx) = Crashed s' \<and> p_pos s' = 0 \<and> failed s'"
proof (rule no_package_crashes)
  show "moved (new_parser ts path rec ctx) [] (new_parser ts path rec ctx)"
    using assms(1) by (intro moved_start) (auto simp: tokens_ok_def new_parser_def)
  show "\<not> is_kw ''package'' (cur (new_parser ts path rec ctx))"
    using assms by (simp add: cur_def new_parser_def tokens_ok_def hd_conv_nth)
qed (simp add: new_parser_def)

theorem missing_package_crashes_witness:
  "\<exists>s'. parse_program 20 (new_parser (line_of [(SYMBOL, ''x''), (ASSIGN, ''=''), (SYMBOL, ''y'')]) ''a.mx'' False
      fresh_context) = Crashed s' \<and> p_pos s' = 0 \<and> failed s'"
  by (rule missing_package_crashes) (simp_all add: tokens_ok_def payloads_ok_def is_kw_def line_simps)

section \<open>A missing operand\<close>

lemma null_operand_crashes: "make_binary op NullExpr right s = Crashed s"
  by (simp add: make_binary_def bindp_def node_loc_def crash_def)

definition never_returns :: "token_type \<Rightarrow> 'a parsing \<Rightarrow> bool" where
  "never_returns k0 p \<longleftrightarrow> (\<forall>s x s'. at_kind k0 s \<longrightarrow> p s \<noteq> Done x s')"

lemma never_bindp: "never_returns k0 m \<Longrightarrow> never_returns k0 (bindp m f)"
  by (auto simp: never_returns_def bindp_def split: presult.split)

lemma idle_bindp: "idles k0 m x \<Longrightarrow> never_returns k0 (f x) \<Longrightarrow> never_returns k0 (bindp m f)"
  unfolding never_returns_def
proof (intro allI impI notI)
  fix s y s'
  assume m: "idles k0 m x" and f: "\<forall>s y s'. at_kind k0 s \<longrightarrow> f x s \<noteq> Done y s'" and s: "at_kind k0 s"
    and run: "bindp m f s = Done y s'"
  obtain s1 where "same_place s s1" "m s = Done x s1 \<or> m s = OutOfFuel s1" using m s by (auto simp: idles_def)
  then show False using run f at_kind_same [OF s] by (auto simp: bindp_def)
qed

lemma finds_operator: "at_kind k0 s \<Longrightarrow> k0 \<in> set (map fst ops) \<Longrightarrow> match_operator ops s = Done r s' \<Longrightarrow> r \<noteq> None"
proof (induction ops rule: match_operator.induct)
  case (2 kind op ops)
  show ?case
  proof (cases "kind = k0")
    case True
    have "check_token kind s = Done True s"
      using 2(2) True by (simp add: check_token_def bindp_def run_at_kind(1) [OF 2(2)] returns_def at_kind_def)
    then show ?thesis
      using 2(4) by (auto simp: ifp_def bindp_def match_token_def thenp_def returns_def split: presult.splits)
  next
    case False
    then show ?thesis
      using 2 by (auto simp: ifp_def bindp_def run_at_kind(8) [OF 2(2)])
  qed
qed simp

lemma binary_never_returns:
  "idles k0 operand NullExpr \<Longrightarrow> k0 \<in> set (map fst ops) \<Longrightarrow> never_returns k0 (parse_binary n ops operand)"
  unfolding parse_binary_def
proof (rule idle_bindp, assumption)
  assume k0: "k0 \<in> set (map fst ops)"
  show "never_returns k0 (binary_loop n ops operand NullExpr)"
  proof (cases n)
    case (Suc m)
    show ?thesis
      unfolding never_returns_def
    proof (intro allI impI notI)
      fix s x s'
      assume s: "at_kind k0 s" and run: "binary_loop n ops operand NullExpr s = Done x s'"
      then show False
        using Suc finds_operator [OF s k0]
        by (auto simp: bindp_def null_operand_crashes split: presult.splits option.splits)
    qed
  qed (simp add: never_returns_def out_of_fuel_def)
qed

text \<open>After the levels with the operators \<open>ks\<close>: one of them has met the null operand, or nothing happened.\<close>

definition level_reached :: "token_type \<Rightarrow> token_type set \<Rightarrow> expr parsing \<Rightarrow> bool" where
  "level_reached k0 ks p \<longleftrightarrow> (if k0 \<in> ks then never_returns k0 p else idles k0 p NullExpr)"

lemma level_binary:
  "level_reached k0 ks p \<Longrightarrow> level_reached k0 (ks \<union> set (map fst ops)) (parse_binary n ops p)"
  using binary_never_returns [of k0 p ops n] idles_binary [of k0 p ops n] never_bindp [of k0 p]
  by (auto simp: level_reached_def parse_binary_def split: if_splits)



end
