(* ===== verification/Parse_Front.thy ===== *)
theory Parse_Front
  imports Parse_Run
begin

text \<open>
  The parser's contract, for token lists and for source texts, and a program of the grammar that the parser
  refuses.
\<close>

section \<open>Soundness\<close>

lemma moved_prefix:
  assumes "moved s0 us s" "at_end_of s" "p_pos s0 = 0"
  shows "us = takeWhile (\<lambda>t. token_kind t \<noteq> END) (p_tokens s0)"
proof -
  let ?ts = "p_tokens s0" and ?P = "\<lambda>t. token_kind t \<noteq> END"
  have len: "length us < length ?ts" and us: "take (length us) ?ts = us"
    and no_end: "\<forall>t\<in>set us. ?P t" and pos: "p_pos s = length us" "p_tokens s = ?ts"
    using assms(1,3) by (auto simp: moved_def)
  have stop: "\<not> ?P (?ts ! length us)"
    using assms(2) pos by (simp add: at_end_of_def is_tok_def cur_def)
  have "?ts = us @ ?ts ! length us # drop (Suc (length us)) ?ts"
    by (subst id_take_nth_drop [OF len]) (simp add: us)
  then have "takeWhile ?P ?ts = takeWhile ?P (us @ ?ts ! length us # drop (Suc (length us)) ?ts)" by (rule arg_cong)
  also have "\<dots> = us" using no_end stop by (simp add: takeWhile_append2)
  finally show ?thesis by simp
qed

lemma parse_program_result:
  assumes "tokens_ok ts" "2 * length ts + 3 \<le> n"
  shows "failed (final_state (parse_program n (new_parser ts path rec ctx))) \<or>
    (\<exists>p s. parse_program n (new_parser ts path rec ctx) = Done p s \<and> p_context s = ctx \<and>
      program_phrase path p (takeWhile (\<lambda>t. token_kind t \<noteq> END) ts))"
proof -
  let ?s = "new_parser ts path rec ctx"
  have "wp (parse_program n) (\<lambda>p s'. \<exists>us. program_phrase (p_path ?s) p us \<and> moved ?s us s' \<and> at_end_of s') ?s"
    using assms by (intro wp_parse_program) (simp_all add: new_parser_def tokens_left_def)
  then show ?thesis
    using moved_prefix [of ?s] by (auto simp: wp_def new_parser_def moved_def)
qed

text \<open>
  C5. The parser of a complete list of tokens terminates without a crash unless it has reported an error,
  with twice the number of tokens and three as fuel: it returns a program whose tree is a phrase of the
  grammar for exactly the tokens before the end, with every location in the tree, and it has reported
  nothing.
\<close>

theorem parse_program_sound:
  assumes "tokens_ok ts" "2 * length ts + 3 \<le> n"
  shows "failed (final_state (parse_program n (new_parser ts path rec ctx))) \<or>
    (\<exists>p s. parse_program n (new_parser ts path rec ctx) = Done p s \<and> p_context s = ctx \<and>
      program_phrase path p (takeWhile (\<lambda>t. token_kind t \<noteq> END) ts))"
  using assms by (rule parse_program_result)

theorem parse_program_sound_witness:
  "\<exists>p s. parse_program 19 (new_parser (line_of [(KEYWORD, ''package''), (SYMBOL, ''a''), (SYMBOL, ''x''), (ASSIGN, ''=''),
      (SYMBOL, ''y''), (STAR, ''*''), (SYMBOL, ''z'')]) ''a.mx'' False fresh_context) = Done p s \<and>
     program_phrase ''a.mx'' p (butlast (line_of [(KEYWORD, ''package''), (SYMBOL, ''a''), (SYMBOL, ''x''), (ASSIGN, ''=''),
      (SYMBOL, ''y''), (STAR, ''*''), (SYMBOL, ''z'')]))"
proof -
  let ?ts = "line_of [(KEYWORD, ''package''), (SYMBOL, ''a''), (SYMBOL, ''x''), (ASSIGN, ''=''),
      (SYMBOL, ''y''), (STAR, ''*''), (SYMBOL, ''z'')]"
  have ok: "tokens_ok ?ts" "2 * length ?ts + 3 \<le> 19"
    by (simp_all add: tokens_ok_def payloads_ok_def line_simps)
  have "\<not> failed (final_state (parse_program 19 (new_parser ?ts ''a.mx'' False fresh_context)))"
    by (simp add: parser_run line_simps failure_simps del: unapplied)
  moreover have "takeWhile (\<lambda>t. token_kind t \<noteq> END) ?ts = butlast ?ts"
    by (simp add: line_simps)
  ultimately show ?thesis
    using parse_program_sound [OF ok, of "''a.mx''" False fresh_context] by auto
qed

section \<open>From source text to tree\<close>

lemma tokenize_ends:
  assumes "tokenize path source ctx = Some (tokens, l)"
  shows "tokens \<noteq> [] \<and> token_kind (last tokens) = END"
proof -
  have "tokens \<noteq> [] \<and> token_kind (last tokens) = END" if "tokenize_loop s = Some (tokens, l)" for s
    using that by (induction rule: tokenize_loop_induct) (auto simp: Lexer.make_def)
  then show ?thesis using assms by (auto simp: tokenize_def)
qed

lemma lexed_payload: "payload_ok kws (token_kind t) (token_value t) \<Longrightarrow> payloads_ok t"
  by (cases "token_kind t"; cases "token_value t"; simp add: payloads_ok_def payload_ok_def is_text_def)

lemma tokenize_tokens_ok:
  assumes "tokenize path source ctx = Some (tokens, l)"
  shows "tokens_ok tokens"
proof -
  have "payloads_ok t" if "t \<in> set tokens" for t
    using tokens_payload [OF assms] that lexed_payload by blast
  then show ?thesis using tokenize_ends [OF assms] by (simp add: tokens_ok_def)
qed

text \<open>
  C15. The front end on a source text: when the lexer returns, the tokens it made are all the parser needs,
  so parsing either reports an error or returns a tree of the grammar for the tokens of the whole text.
\<close>

theorem source_parses_or_reports:
  assumes "tokenize path source ctx = Some (tokens, l)" "2 * length tokens + 3 \<le> n"
  shows "failed (final_state (parse_program n (new_parser tokens path rec (lex_context l)))) \<or>
    (\<exists>p s. parse_program n (new_parser tokens path rec (lex_context l)) = Done p s \<and>
      program_phrase path p (takeWhile (\<lambda>t. token_kind t \<noteq> END) tokens))"
  using parse_program_result [OF tokenize_tokens_ok [OF assms(1)] assms(2)] by blast

theorem source_parses_or_reports_witness:
  "\<exists>tokens l p s. tokenize ''a.mx'' ''package a f(1)'' fresh_context = Some (tokens, l) \<and>
     parse_program 17 (new_parser tokens ''a.mx'' False (lex_context l)) = Done p s \<and>
     program_phrase ''a.mx'' p (butlast tokens)"
proof -
  let ?kvs = "[(KEYWORD, TextP ''package''), (SYMBOL, TextP ''a''), (SYMBOL, TextP ''f''), (LPAREN, CharP CHR ''(''),
    (INT_LITERAL, IntP 1), (RPAREN, CharP CHR '')''), (END, CharP CHR 0x00)]"
  have "map_option (\<lambda>(ts, l). (map (\<lambda>t. (token_kind t, token_value t)) ts, ctx_failed (lex_context l)))
      (tokenize ''a.mx'' ''package a f(1)'' fresh_context) = Some (?kvs, False)"
    by code_simp
  then obtain ts l where run: "tokenize ''a.mx'' ''package a f(1)'' fresh_context = Some (ts, l)"
    and kvs: "map (\<lambda>t. (token_kind t, token_value t)) ts = ?kvs" and ok: "\<not> ctx_failed (lex_context l)"
    by auto
  from kvs obtain t1 t2 t3 t4 t5 t6 t7 where ts: "ts = [t1, t2, t3, t4, t5, t6, t7]" by (auto simp: map_eq_Cons_conv)
  have kinds: "token_kind t1 = KEYWORD" "token_kind t2 = SYMBOL" "token_kind t3 = SYMBOL" "token_kind t4 = LPAREN"
    "token_kind t5 = INT_LITERAL" "token_kind t6 = RPAREN" "token_kind t7 = END" "token_value t1 = TextP ''package''"
    "token_value t5 = IntP 1"
    using kvs unfolding ts by simp_all
  have "\<not> failed (final_state (parse_program 17 (new_parser ts ''a.mx'' False (lex_context l))))"
    unfolding ts by (simp add: parser_run kinds failed_def ok del: unapplied)
  moreover have "2 * length ts + 3 \<le> 17" "takeWhile (\<lambda>t. token_kind t \<noteq> END) ts = butlast ts"
    by (simp_all add: ts kinds)
  ultimately have "\<exists>p s. parse_program 17 (new_parser ts ''a.mx'' False (lex_context l)) = Done p s \<and>
      program_phrase ''a.mx'' p (butlast ts)"
    using source_parses_or_reports [OF run, of 17 False] by auto
  with run show ?thesis by blast
qed

section \<open>A program the parser refuses\<close>

lemma loosen_to: "k \<le> m \<Longrightarrow> expr_phrase path k e ts \<Longrightarrow> expr_phrase path m e ts"
  by (induction m rule: dec_induct) (auto intro: ph_loosen)

lemma name_phrase: "token_kind t = SYMBOL \<Longrightarrow> expr_phrase path k (Identifier (tok_loc path t) (text_of t)) [t]"
  by (rule loosen_to [of 0], simp, rule ph_identifier) (simp add: is_plain_name_def)

lemma assign_phrase:
  assumes "token_kind x = SYMBOL" "text_of x \<noteq> ''_''" "is_tok ASSIGN a" "expr_phrase path 9 e ts"
  shows "stmt_phrase path (Assignment (tok_loc path x)
    [\<lparr>target_loc = tok_loc path x, target_discard = False, target_name = text_of x\<rparr>] Assign e) (x # a # ts)"
proof -
  have "targets_phrase path [\<lparr>target_loc = tok_loc path x, target_discard = False, target_name = text_of x\<rparr>] [x]"
    using assms(1,2) by (auto simp: targets_phrase_def target_phrase_def is_name_def intro!: comma_one)
  from ph_assign [OF this _ assms(4), of Assign a] show ?thesis
    using assms(3) by (simp add: assign_token_def)
qed

lemma comparison_phrase:
  assumes "binary_token op = Some (5, k)" "expr_phrase path 5 e ts" "expr_phrase path 4 f us" "expr_loc e = Some l"
    "is_tok k a"
  shows "expr_phrase path 9 (Binary l op e f) (ts @ a # us)"
  using ph_binary [of op 4 k path e ts l a f us] assms by (simp add: loosen_to [of 5 9])

lemma two_statements_phrase:
  assumes kw: "is_kw ''package'' a" and names: "\<forall>t\<in>{b, x, i, n, f, c, d}. token_kind t = SYMBOL" "text_of x \<noteq> ''_''"
    and toks: "is_tok ASSIGN eq" "is_tok LT lt" "is_tok LPAREN o1" "is_tok GT gt" "is_tok LPAREN o2" "is_tok RPAREN c2"
      "is_tok RPAREN c1"
  shows "\<exists>p. program_phrase path p [a, b, x, eq, i, lt, n, f, o1, c, gt, o2, d, c2, c1]"
proof -
  have name: "expr_phrase path k (Identifier (tok_loc path t) (text_of t)) [t]" if "t \<in> {b, x, i, n, f, c, d}" for k t
    using names(1) that by (intro name_phrase) blast
  have "\<exists>e. expr_phrase path 9 e [i, lt, n]"
    using comparison_phrase [of OpLt LT path _ "[i]" _ "[n]" _ lt, OF _ name name _ toks(2)] by auto
  then obtain st where st: "stmt_phrase path st [x, eq, i, lt, n]"
    using assign_phrase [OF _ names(2) toks(1)] names(1) by blast
  have "expr_phrase path 4 (Identifier (tok_loc path d) (text_of d)) [o2, d, c2]"
    using ph_parens [OF toks(5) name toks(6), of d] by (intro loosen_to [of 0 4]) simp_all
  then have "\<exists>e. expr_phrase path 9 e [c, gt, o2, d, c2]"
    using comparison_phrase [of OpGt GT path _ "[c]" _ "[o2, d, c2]" _ gt, OF _ name _ _ toks(4)] by auto
  then obtain arg where "list_of (expr_phrase path 9) [arg] [c, gt, o2, d, c2]"
    by (auto simp: list_of_def intro: comma_one)
  from ph_call [OF name _ toks(3) this toks(7), of f] have
    "expr_phrase path 1 (Call (tok_loc path f) (Identifier (tok_loc path f) (text_of f)) [] [arg]) [f, o1, c, gt, o2, d, c2, c1]"
    by simp
  then have "\<exists>st. stmt_phrase path st [f, o1, c, gt, o2, d, c2, c1]"
    using ph_expr [OF loosen_to [of 1 9]] by fastforce
  then obtain st' where "stmts_phrase path [st'] [f, o1, c, gt, o2, d, c2, c1]"
    using ph_stmts [OF _ _ ph_no_stmts, of path _ _ "[]"] by (auto simp: opt_semicolon_def)
  then have "stmts_phrase path [st, st'] [x, eq, i, lt, n, f, o1, c, gt, o2, d, c2, c1]"
    using ph_stmts [OF st, of "[]"] by (simp add: opt_semicolon_def)
  then show ?thesis
    using kw names(1) ph_no_imports [of path] unfolding program_phrase_def is_name_def
    by (intro exI [of _ "\<lparr>package_loc = tok_loc path a, package_name = text_of b, program_imports = [],
        program_statements = [st, st']\<rparr>"] exI [of _ a] exI [of _ b] exI [of _ "[]"]
        exI [of _ "[x, eq, i, lt, n, f, o1, c, gt, o2, d, c2, c1]"]) simp
qed

text \<open>
  C28. Without semicolons, which are optional, a comparison \<open>i < n\<close> is taken for the type arguments of a
  generic call when any \<open>> (\<close> follows in the file: the scan of \<open>looks_like_call_type_args\<close> does not stop at
  the end of the expression. The statements \<open>x = i < n\<close> and \<open>f(c > (d))\<close> are a program of the grammar,
  and the parser reports an error.
\<close>

theorem comparison_taken_for_type_arguments:
  "\<exists>p ts. ts = line_of [(KEYWORD, ''package''), (SYMBOL, ''a''), (SYMBOL, ''x''), (ASSIGN, ''=''), (SYMBOL, ''i''), (LT, ''<''),
      (SYMBOL, ''n''), (SYMBOL, ''f''), (LPAREN, ''(''), (SYMBOL, ''c''), (GT, ''>''), (LPAREN, ''(''), (SYMBOL, ''d''),
      (RPAREN, '')''), (RPAREN, '')'')] \<and>
     program_phrase path p (butlast ts) \<and>
     failed (final_state (parse_program 35 (new_parser ts path rec fresh_context)))"
proof -
  let ?ts = "line_of [(KEYWORD, ''package''), (SYMBOL, ''a''), (SYMBOL, ''x''), (ASSIGN, ''=''), (SYMBOL, ''i''), (LT, ''<''),
      (SYMBOL, ''n''), (SYMBOL, ''f''), (LPAREN, ''(''), (SYMBOL, ''c''), (GT, ''>''), (LPAREN, ''(''), (SYMBOL, ''d''),
      (RPAREN, '')''), (RPAREN, '')'')]"
  have "failed (final_state (parse_program 35 (new_parser ?ts path rec fresh_context)))"
    by (simp add: parser_run line_simps failure_simps del: unapplied)
  moreover have "\<exists>p. program_phrase path p (butlast ?ts)"
    by (simp add: line_of_def, rule two_statements_phrase) (simp_all add: tok_at_def fixed_payload_def is_kw_def is_tok_def text_of_def)
  ultimately show ?thesis by blast
qed

end
