(* ===== verification/Json.thy ===== *)
theory Json
  imports Lexer
begin

text \<open>
  The JSON reader of the virtual machine (\<open>include/json.hpp\<close>, the class \<open>parser\<close>). The state is its
  members: the text, the offset, and the first error. A routine goes on after an error where the code
  does. Arrays and maps are built afresh, so the shared pointers of the value model form a tree; a
  \<open>double\<close> keeps the text that \<open>strtod\<close> read, and whether \<open>strtod\<close> accepts a text with a finite result is
  the parameter \<open>strtod_ok\<close>. Nested values spend fuel.
\<close>

section \<open>The reader's state\<close>

datatype json_value =
  JNull
| JBool bool
| JInt int
| JFloat string
| JString string
| JArray "json_value list"
| JObject "(string \<times> json_value) list"

record json_reader =
  jp_text :: string
  jp_pos :: nat
  jp_ok :: bool
  jp_message :: string

definition json_fail :: "string \<Rightarrow> json_reader \<Rightarrow> json_reader" where
  "json_fail msg s =
     (if jp_ok s then s\<lparr>jp_ok := False, jp_message := msg @ '' at offset '' @ decimal (jp_pos s)\<rparr> else s)"

definition json_at_end :: "json_reader \<Rightarrow> bool" where
  "json_at_end s \<longleftrightarrow> length (jp_text s) \<le> jp_pos s"

definition json_peek :: "json_reader \<Rightarrow> char" where
  "json_peek s = (if json_at_end s then CHR 0x00 else jp_text s ! jp_pos s)"

definition json_step :: "json_reader \<Rightarrow> json_reader" where
  "json_step s = s\<lparr>jp_pos := jp_pos s + 1\<rparr>"

definition json_get :: "json_reader \<Rightarrow> char \<times> json_reader" where
  "json_get s =
     (if json_at_end s then (CHR 0x00, json_fail ''unexpected end of input'' s)
      else (jp_text s ! jp_pos s, json_step s))"

definition json_space :: "char \<Rightarrow> bool" where
  "json_space c \<longleftrightarrow> c = CHR '' '' \<or> c = CHR 0x09 \<or> c = CHR 0x0A \<or> c = CHR 0x0D"

function json_skip_ws :: "json_reader \<Rightarrow> json_reader" where
  "json_skip_ws s =
     (if \<not> json_at_end s \<and> json_space (jp_text s ! jp_pos s) then json_skip_ws (json_step s) else s)"
  by pat_completeness auto
termination
  by (relation "measure (\<lambda>s. length (jp_text s) - jp_pos s)") (auto simp: json_at_end_def json_step_def)

declare json_skip_ws.simps [simp del]

definition json_match :: "char \<Rightarrow> json_reader \<Rightarrow> bool \<times> json_reader" where
  "json_match c s = (if json_peek s \<noteq> c then (False, s) else (True, json_step s))"

definition json_expect :: "char \<Rightarrow> json_reader \<Rightarrow> json_reader" where
  "json_expect c s = (case json_match c s of (ok, s') \<Rightarrow>
     if ok then s' else json_fail (''expected '' @ [CHR 0x27, c, CHR 0x27]) s')"

section \<open>Words and strings\<close>

definition json_word_here :: "string \<Rightarrow> json_reader \<Rightarrow> bool" where
  "json_word_here w s \<longleftrightarrow> take (length w) (drop (jp_pos s) (jp_text s)) = w"

definition json_skip :: "nat \<Rightarrow> json_reader \<Rightarrow> json_reader" where
  "json_skip n s = s\<lparr>jp_pos := jp_pos s + n\<rparr>"

definition json_parse_null :: "json_reader \<Rightarrow> json_value \<times> json_reader" where
  "json_parse_null s =
     (if json_word_here ''null'' s then (JNull, json_skip 4 s) else (JNull, json_fail ''expected null'' s))"

definition json_parse_bool :: "json_reader \<Rightarrow> json_value \<times> json_reader" where
  "json_parse_bool s =
     (if json_word_here ''true'' s then (JBool True, json_skip 4 s)
      else if json_word_here ''false'' s then (JBool False, json_skip 5 s)
      else (JNull, json_fail ''expected true or false'' s))"

definition hex_digit :: "char \<Rightarrow> nat option" where
  "hex_digit h =
     (let n = of_char h in
      if 48 \<le> n \<and> n \<le> 57 then Some (n - 48)
      else if 97 \<le> n \<and> n \<le> 102 then Some (n - 97 + 10)
      else if 65 \<le> n \<and> n \<le> 70 then Some (n - 65 + 10)
      else None)"

text \<open>The four digits of \<open>\u\<close>, most significant first; \<open>None\<close> when the reader has failed.\<close>

primrec unicode_digits :: "nat \<Rightarrow> nat \<Rightarrow> json_reader \<Rightarrow> nat option \<times> json_reader" where
  "unicode_digits 0 code s = (Some code, s)"
| "unicode_digits (Suc i) code s = (case json_get s of (h, s') \<Rightarrow>
     if \<not> jp_ok s' then (None, s')
     else case hex_digit h of
       None \<Rightarrow> (None, json_fail ''invalid unicode escape'' s')
     | Some d \<Rightarrow> unicode_digits i (16 * code + d) s')"

text \<open>UTF-8 of a code unit, three bytes for every one from \<open>U+0800\<close> up, surrogates included.\<close>

definition utf8_unit :: "nat \<Rightarrow> string" where
  "utf8_unit code =
     (if code \<le> 0x7F then [char_of code]
      else if code \<le> 0x7FF then [char_of (0xC0 + code div 64 mod 32), char_of (0x80 + code mod 64)]
      else [char_of (0xE0 + code div 4096 mod 16), char_of (0x80 + code div 64 mod 64), char_of (0x80 + code mod 64)])"

definition simple_escape :: "char \<Rightarrow> char option" where
  "simple_escape e = map_of
     [(CHR 0x22, CHR 0x22), (CHR 0x5C, CHR 0x5C), (CHR ''/'', CHR ''/''), (CHR ''b'', CHR 0x08),
      (CHR ''f'', CHR 0x0C), (CHR ''n'', CHR 0x0A), (CHR ''r'', CHR 0x0D), (CHR ''t'', CHR 0x09)] e"

text \<open>What a backslash stands for: the characters to append, or nothing after an error.\<close>

definition json_escape :: "json_reader \<Rightarrow> string option \<times> json_reader" where
  "json_escape s = (case json_get s of (e, s') \<Rightarrow>
     if \<not> jp_ok s' then (None, s')
     else case simple_escape e of
       Some c \<Rightarrow> (Some [c], s')
     | None \<Rightarrow>
         if e = CHR ''u'' then (case unicode_digits 4 0 s' of (code, s'') \<Rightarrow> (map_option utf8_unit code, s''))
         else (None, json_fail ''invalid escape sequence'' s'))"

lemma json_fail_kept [simp]: "jp_text (json_fail m s) = jp_text s" "jp_pos (json_fail m s) = jp_pos s"
  by (simp_all add: json_fail_def)

lemma unicode_digits_kept:
  "unicode_digits i code s = (r, s') \<Longrightarrow> jp_text s' = jp_text s \<and> jp_pos s \<le> jp_pos s'"
proof (induction i arbitrary: code s)
  case (Suc i)
  then show ?case
    by (auto simp: json_get_def json_step_def split: prod.splits if_splits option.splits dest!: Suc.IH)
qed simp

lemma json_escape_kept: "json_escape s = (r, s') \<Longrightarrow> jp_text s' = jp_text s \<and> jp_pos s \<le> jp_pos s'"
  by (auto simp: json_escape_def json_get_def json_step_def split: prod.splits if_splits option.splits
      dest!: unicode_digits_kept)

function json_string_loop :: "string \<Rightarrow> json_reader \<Rightarrow> string \<times> json_reader" where
  "json_string_loop out s =
     (if \<not> (jp_ok s \<and> \<not> json_at_end s) then (out, json_fail ''unterminated string'' s)
      else let c = jp_text s ! jp_pos s; s' = json_step s in
        if c = CHR 0x22 then (out, s')
        else if c = CHR 0x5C then
          (case json_escape s' of (Some x, s'') \<Rightarrow> json_string_loop (out @ x) s'' | (None, s'') \<Rightarrow> (out, s''))
        else if of_char c < (32 :: nat) then (out, json_fail ''unescaped control character in string'' s')
        else json_string_loop (out @ [c]) s')"
  by pat_completeness auto
termination
proof (relation "measure (\<lambda>(out, s). length (jp_text s) - jp_pos s)")
  fix out s c s' r s'' x
  assume "\<not> \<not> (jp_ok s \<and> \<not> json_at_end s)" "s' = json_step s" "(r, s'') = json_escape s'"
  then show "((out @ x, s''), (out, s)) \<in> measure (\<lambda>(out, s). length (jp_text s) - jp_pos s)"
    using json_escape_kept [of s' r s''] by (auto simp: json_at_end_def json_step_def)
qed (auto simp: json_at_end_def json_step_def)

declare json_string_loop.simps [simp del]

definition json_parse_string :: "json_reader \<Rightarrow> string \<times> json_reader" where
  "json_parse_string s = json_string_loop [] (json_expect (CHR 0x22) s)"

section \<open>Numbers\<close>

definition json_digit :: "char \<Rightarrow> bool" where
  "json_digit c \<longleftrightarrow> is_digit c"

function json_skip_digits :: "json_reader \<Rightarrow> json_reader" where
  "json_skip_digits s = (if json_digit (json_peek s) then json_skip_digits (json_step s) else s)"
  by pat_completeness auto
termination
  by (relation "measure (\<lambda>s. length (jp_text s) - jp_pos s)")
    (auto simp: json_peek_def json_digit_def is_digit_def in_range_def json_at_end_def json_step_def split: if_splits)

declare json_skip_digits.simps [simp del]

text \<open>The value of a number's text: \<open>strtoll\<close> for an integer that fits, else \<open>strtod\<close>.\<close>

definition json_integer :: "string \<Rightarrow> int" where
  "json_integer x = (case x of
     [] \<Rightarrow> 0
   | c # ds \<Rightarrow> if c = CHR ''-'' then - decimal_value ds else decimal_value x)"

definition fits_int64 :: "int \<Rightarrow> bool" where
  "fits_int64 i \<longleftrightarrow> - 9223372036854775808 \<le> i \<and> i \<le> 9223372036854775807"

definition number_value :: "(string \<Rightarrow> bool) \<Rightarrow> bool \<Rightarrow> string \<Rightarrow> json_value option" where
  "number_value strtod_ok is_float x =
     (if \<not> is_float \<and> fits_int64 (json_integer x) then Some (JInt (json_integer x))
      else if strtod_ok x then Some (JFloat x) else None)"

text \<open>The fraction and the exponent: whether there is one, after a failure \<open>None\<close>.\<close>

definition json_fraction :: "json_reader \<Rightarrow> bool option \<times> json_reader" where
  "json_fraction s = (case json_match (CHR ''.'') s of (dot, s') \<Rightarrow>
     if \<not> dot then (Some False, s')
     else if \<not> json_digit (json_peek s') then (None, json_fail ''invalid fractional number'' s')
     else (Some True, json_skip_digits s'))"

definition json_exponent :: "json_reader \<Rightarrow> bool option \<times> json_reader" where
  "json_exponent s =
     (if json_peek s = CHR ''e'' \<or> json_peek s = CHR ''E''
      then (let s1 = json_step s;
                s2 = (if json_peek s1 = CHR ''+'' \<or> json_peek s1 = CHR ''-'' then json_step s1 else s1)
            in if \<not> json_digit (json_peek s2) then (None, json_fail ''invalid exponent'' s2)
               else (Some True, json_skip_digits s2))
      else (Some False, s))"

definition json_finish_number :: "(string \<Rightarrow> bool) \<Rightarrow> nat \<Rightarrow> bool \<Rightarrow> json_reader \<Rightarrow> json_value \<times> json_reader" where
  "json_finish_number strtod_ok start is_float s =
     (case number_value strtod_ok is_float (take (jp_pos s - start) (drop start (jp_text s))) of
        Some v \<Rightarrow> (v, s) | None \<Rightarrow> (JNull, json_fail ''invalid number'' s))"

definition json_parse_number :: "(string \<Rightarrow> bool) \<Rightarrow> json_reader \<Rightarrow> json_value \<times> json_reader" where
  "json_parse_number strtod_ok s =
     (let s1 = snd (json_match (CHR ''-'') s) in
      if \<not> json_digit (json_peek s1) then (JNull, json_fail ''invalid number'' s1)
      else let s2 = (if json_peek s1 = CHR ''0'' then json_step s1 else json_skip_digits s1) in
        (case json_fraction s2 of
           (None, s3) \<Rightarrow> (JNull, s3)
         | (Some frac, s3) \<Rightarrow> (case json_exponent s3 of
             (None, s4) \<Rightarrow> (JNull, s4)
           | (Some ex, s4) \<Rightarrow> json_finish_number strtod_ok (jp_pos s) (frac \<or> ex) s4)))"

section \<open>Values\<close>

text \<open>\<open>map_store_entry\<close> with a string key: the first entry with the key is replaced.\<close>

fun map_store :: "string \<Rightarrow> json_value \<Rightarrow> (string \<times> json_value) list \<Rightarrow> (string \<times> json_value) list" where
  "map_store key v [] = [(key, v)]"
| "map_store key v ((k, w) # es) = (if k = key then (k, v) # es else (k, w) # map_store key v es)"

text \<open>The loops of \<open>parse_array\<close> and \<open>parse_object\<close> carry the items read so far.\<close>

fun json_parse_value :: "nat \<Rightarrow> (string \<Rightarrow> bool) \<Rightarrow> json_reader \<Rightarrow> (json_value \<times> json_reader) option"
  and json_array_loop :: "nat \<Rightarrow> (string \<Rightarrow> bool) \<Rightarrow> json_value list \<Rightarrow> json_reader \<Rightarrow> (json_value \<times> json_reader) option"
  and json_object_loop :: "nat \<Rightarrow> (string \<Rightarrow> bool) \<Rightarrow> (string \<times> json_value) list \<Rightarrow> json_reader \<Rightarrow>
    (json_value \<times> json_reader) option" where
  "json_parse_value 0 strtod_ok s = None"
| "json_parse_value (Suc n) strtod_ok s =
     (if \<not> jp_ok s then Some (JNull, s)
      else let s1 = json_skip_ws s; c = json_peek s1 in
        if c = CHR 0x7B then
          (let s2 = json_skip_ws (json_expect (CHR 0x7B) s1) in
           case json_match (CHR 0x7D) s2 of (close, s3) \<Rightarrow>
             if close then Some (JObject [], s3) else json_object_loop n strtod_ok [] s3)
        else if c = CHR ''['' then
          (let s2 = json_skip_ws (json_expect (CHR ''['') s1) in
           case json_match (CHR '']'') s2 of (close, s3) \<Rightarrow>
             if close then Some (JArray [], s3) else json_array_loop n strtod_ok [] s3)
        else if c = CHR 0x22 then Some (map_prod JString id (json_parse_string s1))
        else if c = CHR ''t'' \<or> c = CHR ''f'' then Some (json_parse_bool s1)
        else if c = CHR ''n'' then Some (json_parse_null s1)
        else if c = CHR ''-'' \<or> json_digit c then Some (json_parse_number strtod_ok s1)
        else Some (JNull, json_fail ''invalid JSON value'' s1))"
| "json_array_loop 0 strtod_ok items s = None"
| "json_array_loop (Suc n) strtod_ok items s =
     (if \<not> jp_ok s then Some (JArray items, s)
      else case json_parse_value n strtod_ok s of None \<Rightarrow> None | Some (v, s1) \<Rightarrow>
        if \<not> jp_ok s1 then Some (JNull, s1)
        else case json_match (CHR '']'') (json_skip_ws s1) of (close, s2) \<Rightarrow>
          if close then Some (JArray (items @ [v]), s2)
          else json_array_loop n strtod_ok (items @ [v]) (json_skip_ws (json_expect (CHR '','') s2)))"
| "json_object_loop 0 strtod_ok entries s = None"
| "json_object_loop (Suc n) strtod_ok entries s =
     (if \<not> jp_ok s then Some (JObject entries, s)
      else let s1 = json_skip_ws s in
        if json_peek s1 \<noteq> CHR 0x22 then Some (JNull, json_fail ''object keys must be strings'' s1)
        else case json_parse_string s1 of (key, s2) \<Rightarrow>
          if \<not> jp_ok s2 then Some (JNull, s2)
          else let s3 = json_expect (CHR '':'') (json_skip_ws s2) in
            if \<not> jp_ok s3 then Some (JNull, s3)
            else case json_parse_value n strtod_ok s3 of None \<Rightarrow> None | Some (v, s4) \<Rightarrow>
              if \<not> jp_ok s4 then Some (JNull, s4)
              else case json_match (CHR 0x7D) (json_skip_ws s4) of (close, s5) \<Rightarrow>
                if close then Some (JObject (map_store key v entries), s5)
                else json_object_loop n strtod_ok (map_store key v entries) (json_skip_ws (json_expect (CHR '','') s5)))"

text \<open>\<open>parse\<close>: the value, or the message of the first error.\<close>

definition new_json_reader :: "string \<Rightarrow> json_reader" where
  "new_json_reader x = \<lparr>jp_text = x, jp_pos = 0, jp_ok = True, jp_message = []\<rparr>"

definition json_parse :: "nat \<Rightarrow> (string \<Rightarrow> bool) \<Rightarrow> string \<Rightarrow> (string + json_value) option" where
  "json_parse n strtod_ok x =
     (case json_parse_value n strtod_ok (json_skip_ws (new_json_reader x)) of None \<Rightarrow> None | Some (v, s) \<Rightarrow>
        if \<not> jp_ok s then Some (Inl (jp_message s))
        else let s' = json_skip_ws s in
          if jp_pos s' \<noteq> length (jp_text s') then Some (Inl (jp_message (json_fail ''unexpected trailing input'' s')))
          else Some (Inr v))"

section \<open>Typed access\<close>

text \<open>
  What a program asks of a value it has read. A failed request raises the given text (\<open>Inl\<close>). \<open>dbl\<close> is the
  integer a \<open>double\<close> is equal to, if any; a cast to 64 bits of the value \<open>2 ^ 63\<close>, which the test lets pass, is
  undefined (\<open>None\<close>).
\<close>

definition value_kind_name :: "json_value \<Rightarrow> string" where
  "value_kind_name v = (case v of
     JNull \<Rightarrow> ''null'' | JString _ \<Rightarrow> ''string'' | JInt _ \<Rightarrow> ''int'' | JFloat _ \<Rightarrow> ''float'' | JBool _ \<Rightarrow> ''bool''
   | JObject _ \<Rightarrow> ''object'' | JArray _ \<Rightarrow> ''array'')"

definition kind_error :: "string \<Rightarrow> json_value \<Rightarrow> string \<Rightarrow> (string + json_value) option" where
  "kind_error kind v ctx = Some (Inl (ctx @ '': expected '' @ kind @ '', got '' @ value_kind_name v))"

definition require_int :: "(string \<Rightarrow> int option) \<Rightarrow> json_value \<Rightarrow> string \<Rightarrow> (string + json_value) option" where
  "require_int dbl v ctx = (case v of
     JInt _ \<Rightarrow> Some (Inr v)
   | JFloat x \<Rightarrow> (case dbl x of
       None \<Rightarrow> kind_error ''int'' v ctx
     | Some i \<Rightarrow> if i < - 9223372036854775808 \<or> 9223372036854775808 < i then kind_error ''int'' v ctx
                 else if i = 9223372036854775808 then None
                 else Some (Inr (JInt i)))
   | _ \<Rightarrow> kind_error ''int'' v ctx)"

definition require_kind :: "(string \<Rightarrow> int option) \<Rightarrow> json_value \<Rightarrow> string \<Rightarrow> string \<Rightarrow> (string + json_value) option" where
  "require_kind dbl v kind ctx =
     (if kind = ''string'' then (case v of JString _ \<Rightarrow> Some (Inr v) | _ \<Rightarrow> kind_error kind v ctx)
      else if kind = ''int'' then require_int dbl v ctx
      else if kind = ''float'' then
        (case v of JFloat _ \<Rightarrow> Some (Inr v) | JInt i \<Rightarrow> Some (Inr (JFloat (to_string i))) | _ \<Rightarrow> kind_error kind v ctx)
      else if kind = ''bool'' then (case v of JBool _ \<Rightarrow> Some (Inr v) | _ \<Rightarrow> kind_error kind v ctx)
      else if kind = ''object'' then (case v of JObject _ \<Rightarrow> Some (Inr v) | _ \<Rightarrow> kind_error kind v ctx)
      else if kind = ''array'' then (case v of JArray _ \<Rightarrow> Some (Inr v) | _ \<Rightarrow> kind_error kind v ctx)
      else Some (Inl (ctx @ '': unknown JSON kind `'' @ kind @ ''`'')))"

definition field_required :: "json_value \<Rightarrow> string \<Rightarrow> string \<Rightarrow> string + json_value" where
  "field_required v key ctx = (case v of
     JObject es \<Rightarrow> (case map_of es key of
       Some w \<Rightarrow> Inr w | None \<Rightarrow> Inl (ctx @ '': missing required field `'' @ key @ ''`''))
   | _ \<Rightarrow> Inl (ctx @ '': expected object before reading field `'' @ key @ ''`''))"

end
