(* ===== verification/Json_Grammar.thy ===== *)
theory Json_Grammar
  imports Json
begin

text \<open>
  The JSON texts of RFC 8259 as a reference for the reader, over the bytes of the text: which strings are
  values, and for which value. Two things are the reader's own: the entries of an object are stored one
  after the other, so the last one with a key counts, and every \<open>\u\<close> escape is one code unit.
\<close>

section \<open>Strings and numbers\<close>

definition json_ws :: "string \<Rightarrow> bool" where
  "json_ws x \<longleftrightarrow> (\<forall>c\<in>set x. json_space c)"

inductive json_chars :: "string \<Rightarrow> string \<Rightarrow> bool" where
  jc_nil: "json_chars [] []"
| jc_plain: "c \<noteq> CHR 0x22 \<Longrightarrow> c \<noteq> CHR 0x5C \<Longrightarrow> 32 \<le> (of_char c :: nat) \<Longrightarrow> json_chars x t \<Longrightarrow> json_chars (c # x) (c # t)"
| jc_escape: "simple_escape e = Some c \<Longrightarrow> json_chars x t \<Longrightarrow> json_chars (c # x) (CHR 0x5C # e # t)"
| jc_unicode: "hex_digit h1 = Some d1 \<Longrightarrow> hex_digit h2 = Some d2 \<Longrightarrow> hex_digit h3 = Some d3 \<Longrightarrow> hex_digit h4 = Some d4 \<Longrightarrow>
    json_chars x t \<Longrightarrow>
    json_chars (utf8_unit (4096 * d1 + 256 * d2 + 16 * d3 + d4) @ x) (CHR 0x5C # CHR ''u'' # h1 # h2 # h3 # h4 # t)"

definition json_digits :: "string \<Rightarrow> bool" where
  "json_digits x \<longleftrightarrow> x \<noteq> [] \<and> (\<forall>c\<in>set x. json_digit c)"

definition json_int_text :: "string \<Rightarrow> bool" where
  "json_int_text x \<longleftrightarrow> x = ''0'' \<or> json_digits x \<and> hd x \<noteq> CHR ''0''"

definition json_frac_text :: "string \<Rightarrow> bool" where
  "json_frac_text x \<longleftrightarrow> x = [] \<or> (\<exists>ds. x = CHR ''.'' # ds \<and> json_digits ds)"

definition json_exp_text :: "string \<Rightarrow> bool" where
  "json_exp_text x \<longleftrightarrow> x = [] \<or>
     (\<exists>e sg ds. x = e # sg @ ds \<and> (e = CHR ''e'' \<or> e = CHR ''E'') \<and> (sg = [] \<or> sg = ''+'' \<or> sg = ''-'') \<and> json_digits ds)"

definition json_number_text :: "bool \<Rightarrow> string \<Rightarrow> bool" where
  "json_number_text is_float x \<longleftrightarrow> (\<exists>sg i fr ex. x = sg @ i @ fr @ ex \<and> (sg = [] \<or> sg = ''-'') \<and> json_int_text i \<and>
     json_frac_text fr \<and> json_exp_text ex \<and> is_float = (fr \<noteq> [] \<or> ex \<noteq> []))"

section \<open>Values\<close>

definition store_all :: "(string \<times> json_value) list \<Rightarrow> (string \<times> json_value) list \<Rightarrow> (string \<times> json_value) list" where
  "store_all kvs es = fold (\<lambda>(k, v). map_store k v) kvs es"

inductive
  is_json :: "(string \<Rightarrow> bool) \<Rightarrow> json_value \<Rightarrow> string \<Rightarrow> bool" and
  json_elements :: "(string \<Rightarrow> bool) \<Rightarrow> json_value list \<Rightarrow> string \<Rightarrow> bool" and
  json_members :: "(string \<Rightarrow> bool) \<Rightarrow> (string \<times> json_value) list \<Rightarrow> string \<Rightarrow> bool"
  for strtod_ok where
  js_null: "is_json strtod_ok JNull ''null''"
| js_true: "is_json strtod_ok (JBool True) ''true''"
| js_false: "is_json strtod_ok (JBool False) ''false''"
| js_number: "json_number_text f x \<Longrightarrow> number_value strtod_ok f x = Some v \<Longrightarrow> is_json strtod_ok v x"
| js_string: "json_chars x t \<Longrightarrow> is_json strtod_ok (JString x) (CHR 0x22 # t @ [CHR 0x22])"
| js_empty_array: "json_ws w \<Longrightarrow> is_json strtod_ok (JArray []) (CHR ''['' # w @ '']'')"
| js_array: "json_elements strtod_ok vs t \<Longrightarrow> is_json strtod_ok (JArray vs) (CHR ''['' # t @ '']'')"
| js_empty_object: "json_ws w \<Longrightarrow> is_json strtod_ok (JObject []) (CHR 0x7B # w @ [CHR 0x7D])"
| js_object: "json_members strtod_ok kvs t \<Longrightarrow> is_json strtod_ok (JObject (store_all kvs [])) (CHR 0x7B # t @ [CHR 0x7D])"
| js_element: "json_ws a \<Longrightarrow> is_json strtod_ok v t \<Longrightarrow> json_ws b \<Longrightarrow> json_elements strtod_ok [v] (a @ t @ b)"
| js_elements: "json_ws a \<Longrightarrow> is_json strtod_ok v t \<Longrightarrow> json_ws b \<Longrightarrow> json_elements strtod_ok vs u \<Longrightarrow>
    json_elements strtod_ok (v # vs) (a @ t @ b @ CHR '','' # u)"
| js_member: "json_ws a \<Longrightarrow> json_chars k s \<Longrightarrow> json_ws b \<Longrightarrow> json_ws c \<Longrightarrow> is_json strtod_ok v t \<Longrightarrow> json_ws d \<Longrightarrow>
    json_members strtod_ok [(k, v)] (a @ CHR 0x22 # s @ CHR 0x22 # b @ CHR '':'' # c @ t @ d)"
| js_members: "json_ws a \<Longrightarrow> json_chars k s \<Longrightarrow> json_ws b \<Longrightarrow> json_ws c \<Longrightarrow> is_json strtod_ok v t \<Longrightarrow> json_ws d \<Longrightarrow>
    json_members strtod_ok kvs u \<Longrightarrow>
    json_members strtod_ok ((k, v) # kvs) (a @ CHR 0x22 # s @ CHR 0x22 # b @ CHR '':'' # c @ t @ d @ CHR '','' # u)"

definition json_document :: "(string \<Rightarrow> bool) \<Rightarrow> json_value \<Rightarrow> string \<Rightarrow> bool" where
  "json_document strtod_ok v x \<longleftrightarrow> (\<exists>a t b. x = a @ t @ b \<and> json_ws a \<and> is_json strtod_ok v t \<and> json_ws b)"

section \<open>The reader in front of a text\<close>

text \<open>A state without an error, split at its offset.\<close>

definition rd :: "string \<Rightarrow> string \<Rightarrow> json_reader" where
  "rd pre r = \<lparr>jp_text = pre @ r, jp_pos = length pre, jp_ok = True, jp_message = []\<rparr>"

lemma rd_sel [simp]: "jp_ok (rd pre r)" "jp_text (rd pre r) = pre @ r" "jp_pos (rd pre r) = length pre"
  by (simp_all add: rd_def)

lemma rd_nth [simp]: "(pre @ c # r) ! length pre = c"
  by simp

lemma rd_end [simp]: "json_at_end (rd pre r) \<longleftrightarrow> r = []"
  by (auto simp: json_at_end_def)

lemma rd_peek [simp]: "json_peek (rd pre (c # r)) = c" "json_peek (rd pre []) = CHR 0x00"
  by (simp_all add: json_peek_def)

lemma rd_step [simp]: "json_step (rd pre (c # r)) = rd (pre @ [c]) r"
  by (simp add: json_step_def rd_def)

lemma rd_get [simp]: "json_get (rd pre (c # r)) = (c, rd (pre @ [c]) r)"
  by (simp add: json_get_def)

lemma rd_get_end: "\<not> jp_ok (snd (json_get (rd pre [])))"
  by (simp add: json_get_def json_fail_def)

lemma rd_match [simp]:
  "json_match k (rd pre (c # r)) = (if c = k then (True, rd (pre @ [c]) r) else (False, rd pre (c # r)))"
  "k \<noteq> CHR 0x00 \<Longrightarrow> json_match k (rd pre []) = (False, rd pre [])"
  by (simp_all add: json_match_def)

lemma not_ok_fail [simp]: "\<not> jp_ok (json_fail m s)"
  by (simp add: json_fail_def)

lemma rd_skip_ws: "json_skip_ws (rd pre r) = rd (pre @ takeWhile json_space r) (dropWhile json_space r)"
proof (induction r arbitrary: pre)
  case (Cons c r)
  then show ?case by (simp add: json_skip_ws.simps [of "rd pre (c # r)"])
qed (subst json_skip_ws.simps, simp)

lemma rd_skip_digits: "json_skip_digits (rd pre r) = rd (pre @ takeWhile json_digit r) (dropWhile json_digit r)"
proof (induction r arbitrary: pre)
  case (Cons c r)
  then show ?case by (simp add: json_skip_digits.simps [of "rd pre (c # r)"])
qed (subst json_skip_digits.simps, simp add: json_digit_def is_digit_def in_range_def)

lemma rd_skip [simp]: "json_skip (length w) (rd pre (w @ r)) = rd (pre @ w) r"
  by (simp add: json_skip_def rd_def)

lemma rd_word: "json_word_here w (rd pre r) \<longleftrightarrow> (\<exists>r'. r = w @ r')"
  by (auto simp: json_word_here_def) (metis append_take_drop_id)

end
