(* ===== verification/Json_Sound.thy ===== *)
theory Json_Sound
  imports Json_Grammar
begin

text \<open>
  What the JSON reader accepts is a JSON text for the value it returns, and it stops right after it.
\<close>

section \<open>Strings\<close>

lemma json_get_ok: "json_get (rd pre r) = (c, s') \<Longrightarrow> jp_ok s' \<Longrightarrow> \<exists>r'. r = c # r' \<and> s' = rd (pre @ [c]) r'"
  by (cases r) (auto simp: json_get_def)

lemma unicode_digits_ok:
  "unicode_digits i code (rd pre r) = (Some k, s') \<Longrightarrow>
   \<exists>hs ds r'. r = hs @ r' \<and> s' = rd (pre @ hs) r' \<and> length hs = i \<and> map hex_digit hs = map Some ds \<and>
     k = foldl (\<lambda>a d. 16 * a + d) code ds"
proof (induction i arbitrary: code pre r)
  case (Suc i)
  obtain h r1 d where "r = h # r1" "hex_digit h = Some d" "unicode_digits i (16 * code + d) (rd (pre @ [h]) r1) = (Some k, s')"
    using Suc.prems by (cases r) (auto simp: json_get_def json_fail_def split: option.splits)
  moreover from Suc.IH [OF this(3)] obtain hs ds r' where "r1 = hs @ r'" "s' = rd ((pre @ [h]) @ hs) r'" "length hs = i"
    "map hex_digit hs = map Some ds" "k = foldl (\<lambda>a d. 16 * a + d) (16 * code + d) ds" by blast
  ultimately show ?case
    by (intro exI [of _ "h # hs"] exI [of _ "d # ds"] exI [of _ r']) simp
qed auto

lemma unicode_digits_none: "unicode_digits i code s = (None, s') \<Longrightarrow> \<not> jp_ok s'"
  by (induction i arbitrary: code s) (auto split: prod.splits option.splits if_splits)

lemma json_escape_none: "json_escape s = (None, s') \<Longrightarrow> \<not> jp_ok s'"
  by (auto simp: json_escape_def split: prod.splits option.splits if_splits dest: unicode_digits_none)

lemma json_escape_ok:
  assumes "json_escape (rd pre r) = (Some x, s')"
  shows "\<exists>t r'. r = t @ r' \<and> s' = rd (pre @ t) r' \<and> (\<forall>y u. json_chars y u \<longrightarrow> json_chars (x @ y) (CHR 0x5C # t @ u))"
proof (cases r)
  case Nil
  with assms show ?thesis by (simp add: json_escape_def json_get_def)
next
  case (Cons e r1)
  show ?thesis
  proof (cases "simple_escape e")
    case None
    with assms Cons obtain k where e: "e = CHR ''u''" and k: "unicode_digits 4 0 (rd (pre @ [e]) r1) = (Some k, s')" "x = utf8_unit k"
      by (auto simp: json_escape_def split: if_splits prod.splits)
    from unicode_digits_ok [OF k(1)] obtain hs ds r' where u: "r1 = hs @ r'" "s' = rd ((pre @ [e]) @ hs) r'"
      "length hs = 4" "map hex_digit hs = map Some ds" "k = foldl (\<lambda>a d. 16 * a + d) 0 ds" by blast
    from u(3) obtain h1 h2 h3 h4 where hs: "hs = [h1, h2, h3, h4]"
      by (auto simp: numeral_eq_Suc length_Suc_conv)
    from u(4) hs obtain d1 d2 d3 d4 where ds: "ds = [d1, d2, d3, d4]" "hex_digit h1 = Some d1" "hex_digit h2 = Some d2"
      "hex_digit h3 = Some d3" "hex_digit h4 = Some d4" by auto
    have "k = 4096 * d1 + 256 * d2 + 16 * d3 + d4" using u(5) ds(1) by simp
    then have "\<forall>y u. json_chars y u \<longrightarrow> json_chars (x @ y) (CHR 0x5C # (e # hs) @ u)"
      using jc_unicode [OF ds(2-5)] k(2) e hs by auto
    with u Cons show ?thesis by (intro exI [of _ "e # hs"] exI [of _ r']) simp
  next
    case (Some c)
    with assms Cons have "x = [c]" "s' = rd (pre @ [e]) r1" by (auto simp: json_escape_def)
    with Some Cons show ?thesis by (intro exI [of _ "[e]"] exI [of _ r1]) (auto intro: jc_escape)
  qed
qed

lemma string_loop_rd:
  "json_string_loop out (rd pre (c # r)) =
     (if c = CHR 0x22 then (out, rd (pre @ [c]) r)
      else if c = CHR 0x5C then
        (case json_escape (rd (pre @ [c]) r) of (Some x, s) \<Rightarrow> json_string_loop (out @ x) s | (None, s) \<Rightarrow> (out, s))
      else if of_char c < (32 :: nat) then (out, json_fail ''unescaped control character in string'' (rd (pre @ [c]) r))
      else json_string_loop (out @ [c]) (rd (pre @ [c]) r))"
  by (simp add: json_string_loop.simps [of out "rd pre (c # r)"])

lemma string_loop_ok:
  assumes "json_string_loop out s = (x, s')" "jp_ok s'" "s = rd pre r"
  shows "\<exists>y t r'. x = out @ y \<and> r = t @ CHR 0x22 # r' \<and> json_chars y t \<and> s' = rd (pre @ t @ [CHR 0x22]) r'"
  using assms
proof (induction out s arbitrary: pre r rule: json_string_loop.induct)
  case (1 out s)
  note IH = "1.IH" and run = "1.prems"(1) and ok = "1.prems"(2) and s = "1.prems"(3)
  obtain c r1 where r: "r = c # r1"
    using run ok s by (cases r) (auto simp: json_string_loop.simps [of out "rd pre []"])
  have pre: "\<not> \<not> (jp_ok s \<and> \<not> json_at_end s)" using s r by simp
  have c: "jp_text s ! jp_pos s = c" and s1: "json_step s = rd (pre @ [c]) r1" using s r by simp_all
  consider (quote) "c = CHR 0x22" | (escape) "c \<noteq> CHR 0x22" "c = CHR 0x5C"
    | (control) "c \<noteq> CHR 0x22" "c \<noteq> CHR 0x5C" "of_char c < (32 :: nat)"
    | (plain) "c \<noteq> CHR 0x22" "c \<noteq> CHR 0x5C" "\<not> of_char c < (32 :: nat)" by blast
  then show ?case
  proof cases
    case quote
    with run s r have "x = out" "s' = rd (pre @ [c]) r1" by (simp_all add: string_loop_rd)
    with quote r show ?thesis by (intro exI [of _ "[]"] exI [of _ r1]) (auto intro: jc_nil)
  next
    case escape
    obtain oe s2 where e: "json_escape (rd (pre @ [c]) r1) = (oe, s2)" by fastforce
    have run': "(case oe of Some z \<Rightarrow> json_string_loop (out @ z) s2 | None \<Rightarrow> (out, s2)) = (x, s')"
      using run escape s r e by (simp add: string_loop_rd)
    with ok json_escape_none [of _ s2] e obtain z where z: "oe = Some z" "json_string_loop (out @ z) s2 = (x, s')"
      by (cases oe) auto
    from json_escape_ok e z(1) obtain t r' where t: "r1 = t @ r'" "s2 = rd ((pre @ [c]) @ t) r'"
      "\<forall>y u. json_chars y u \<longrightarrow> json_chars (z @ y) (CHR 0x5C # t @ u)" by blast
    have "\<exists>y u r''. x = (out @ z) @ y \<and> r' = u @ CHR 0x22 # r'' \<and> json_chars y u \<and> s' = rd (((pre @ [c]) @ t) @ u @ [CHR 0x22]) r''"
      using IH(1) [OF pre refl refl _ _ _ refl z(2) ok t(2)] escape c s1 e z(1) by simp
    then obtain y u r'' where "x = (out @ z) @ y" "r' = u @ CHR 0x22 # r''" "json_chars y u" "s' = rd (((pre @ [c]) @ t) @ u @ [CHR 0x22]) r''" by blast
    with t r escape show ?thesis by (intro exI [of _ "z @ y"] exI [of _ "c # t @ u"] exI [of _ r'']) auto
  next
    case control
    with run ok s r show ?thesis by (auto simp: string_loop_rd)
  next
    case plain
    have run': "json_string_loop (out @ [c]) (rd (pre @ [c]) r1) = (x, s')"
      using run plain s r by (simp add: string_loop_rd)
    have "\<exists>y u r''. x = (out @ [c]) @ y \<and> r1 = u @ CHR 0x22 # r'' \<and> json_chars y u \<and> s' = rd ((pre @ [c]) @ u @ [CHR 0x22]) r''"
      using IH(2) [OF pre refl refl _ _ _ _ ok s1] plain c s1 run' by simp
    then obtain y u r'' where "x = (out @ [c]) @ y" "r1 = u @ CHR 0x22 # r''" "json_chars y u" "s' = rd ((pre @ [c]) @ u @ [CHR 0x22]) r''" by blast
    with r plain show ?thesis
      by (intro exI [of _ "c # y"] exI [of _ "c # u"] exI [of _ r'']) (auto intro: jc_plain)
  qed
qed

lemma parse_string_ok:
  assumes "json_parse_string (rd pre (CHR 0x22 # r)) = (x, s')" "jp_ok s'"
  shows "\<exists>t r'. r = t @ CHR 0x22 # r' \<and> json_chars x t \<and> s' = rd (pre @ CHR 0x22 # t @ [CHR 0x22]) r'"
  using string_loop_ok [of "[]" "rd (pre @ [CHR 0x22]) r" x s' "pre @ [CHR 0x22]" r] assms
  by (auto simp: json_parse_string_def json_expect_def)

section \<open>Numbers\<close>

lemma digits_split: "r = c # r1 \<Longrightarrow> json_digit c \<Longrightarrow>
   r = takeWhile json_digit r @ dropWhile json_digit r \<and> json_digits (takeWhile json_digit r)"
  by (auto simp: json_digits_def dest: set_takeWhileD)

lemma digit_peek: "json_digit (json_peek (rd pre r)) \<longleftrightarrow> (\<exists>c r1. r = c # r1 \<and> json_digit c)"
  by (cases r) (auto simp: json_digit_def is_digit_def in_range_def)

lemma fraction_none: "json_fraction s = (None, s') \<Longrightarrow> \<not> jp_ok s'"
  by (auto simp: json_fraction_def split: prod.splits if_splits)

lemma exponent_none: "json_exponent s = (None, s') \<Longrightarrow> \<not> jp_ok s'"
  by (auto simp: json_exponent_def Let_def split: if_splits)

lemma fraction_ok:
  assumes "json_fraction (rd pre r) = (Some f, s')"
  shows "\<exists>t r'. r = t @ r' \<and> json_frac_text t \<and> f = (t \<noteq> []) \<and> s' = rd (pre @ t) r'"
proof (cases "\<exists>r1. r = CHR ''.'' # r1")
  case True
  then obtain r1 where r: "r = CHR ''.'' # r1" by blast
  from assms r have d: "json_digit (json_peek (rd (pre @ [CHR ''.'']) r1))" "f"
    "s' = rd (pre @ CHR ''.'' # takeWhile json_digit r1) (dropWhile json_digit r1)"
    by (auto simp: json_fraction_def rd_skip_digits split: if_splits)
  then obtain c r2 where "r1 = c # r2" "json_digit c" using digit_peek by blast
  from digits_split [OF this] d r show ?thesis
    by (intro exI [of _ "CHR ''.'' # takeWhile json_digit r1"] exI [of _ "dropWhile json_digit r1"])
      (auto simp: json_frac_text_def)
next
  case False
  with assms have "f = False" "s' = rd pre r" by (cases r; auto simp: json_fraction_def)+
  then show ?thesis by (auto simp: json_frac_text_def)
qed

lemma exponent_ok:
  assumes "json_exponent (rd pre r) = (Some f, s')"
  shows "\<exists>t r'. r = t @ r' \<and> json_exp_text t \<and> f = (t \<noteq> []) \<and> s' = rd (pre @ t) r'"
proof (cases "\<exists>e r1. r = e # r1 \<and> (e = CHR ''e'' \<or> e = CHR ''E'')")
  case True
  then obtain e r1 where r: "r = e # r1" and e: "e = CHR ''e'' \<or> e = CHR ''E''" by blast
  obtain sg r2 where sg: "r1 = sg @ r2" "sg = [] \<or> sg = ''+'' \<or> sg = ''-''"
    and s2: "(if json_peek (rd (pre @ [e]) r1) = CHR ''+'' \<or> json_peek (rd (pre @ [e]) r1) = CHR ''-''
       then json_step (rd (pre @ [e]) r1) else rd (pre @ [e]) r1) = rd (pre @ e # sg) r2"
  proof (cases r1)
    case (Cons x r2)
    show ?thesis
    proof (cases "x = CHR ''+'' \<or> x = CHR ''-''")
      case True
      with Cons show ?thesis by (intro that [of "[x]" r2]) auto
    next
      case False
      with Cons show ?thesis by (intro that [of "[]" "x # r2"]) auto
    qed
  qed (rule that [of "[]" "[]"], auto)
  from assms r e s2 have d: "json_digit (json_peek (rd (pre @ e # sg) r2))" "f"
    "s' = rd (pre @ e # sg @ takeWhile json_digit r2) (dropWhile json_digit r2)"
    by (auto simp: json_exponent_def rd_skip_digits Let_def split: if_splits)
  then obtain c r3 where "r2 = c # r3" "json_digit c" using digit_peek by blast
  from digits_split [OF this] d r sg e show ?thesis
    by (intro exI [of _ "e # sg @ takeWhile json_digit r2"] exI [of _ "dropWhile json_digit r2"])
      (auto simp: json_exp_text_def)
next
  case False
  with assms have "f = False" "s' = rd pre r" by (cases r; auto simp: json_exponent_def)+
  then show ?thesis by (auto simp: json_exp_text_def)
qed

lemma finish_number_ok:
  "json_finish_number strtod_ok (length pre) f (rd (pre @ t) r) = (v, s') \<Longrightarrow> jp_ok s' \<Longrightarrow>
   number_value strtod_ok f t = Some v \<and> s' = rd (pre @ t) r"
  by (auto simp: json_finish_number_def split: option.splits)

lemma sign_ok: "\<exists>sg r1. r = sg @ r1 \<and> (sg = [] \<or> sg = ''-'') \<and> snd (json_match (CHR ''-'') (rd pre r)) = rd (pre @ sg) r1"
proof (cases "\<exists>r1. r = CHR ''-'' # r1")
  case True
  then obtain r1 where "r = CHR ''-'' # r1" by blast
  then show ?thesis by (intro exI [of _ "''-''"] exI [of _ r1]) simp
next
  case False
  then show ?thesis by (intro exI [of _ "[]"] exI [of _ r]) (cases r; auto)
qed

lemma integer_ok:
  assumes "json_digit (json_peek (rd pre r))"
  shows "\<exists>i r1. r = i @ r1 \<and> json_int_text i \<and>
    (if json_peek (rd pre r) = CHR ''0'' then json_step (rd pre r) else json_skip_digits (rd pre r)) = rd (pre @ i) r1"
proof -
  obtain c r2 where r: "r = c # r2" "json_digit c" using assms digit_peek by blast
  show ?thesis
  proof (cases "c = CHR ''0''")
    case True
    with r show ?thesis by (intro exI [of _ "''0''"] exI [of _ r2]) (auto simp: json_int_text_def)
  next
    case False
    with r digits_split [OF r] show ?thesis
      by (intro exI [of _ "takeWhile json_digit r"] exI [of _ "dropWhile json_digit r"])
        (auto simp: json_int_text_def rd_skip_digits)
  qed
qed

lemma parse_number_ok:
  assumes run: "json_parse_number strtod_ok (rd pre r) = (v, s')" and ok: "jp_ok s'"
  shows "\<exists>f t r'. r = t @ r' \<and> json_number_text f t \<and> number_value strtod_ok f t = Some v \<and> s' = rd (pre @ t) r'"
proof -
  obtain sg r1 where sg: "r = sg @ r1" "sg = [] \<or> sg = ''-''"
    "snd (json_match (CHR ''-'') (rd pre r)) = rd (pre @ sg) r1" using sign_ok by blast
  have dig: "json_digit (json_peek (rd (pre @ sg) r1))"
    using run ok sg(3) by (auto simp: json_parse_number_def Let_def split: if_splits)
  obtain i r2 where i: "r1 = i @ r2" "json_int_text i"
    "(if json_peek (rd (pre @ sg) r1) = CHR ''0'' then json_step (rd (pre @ sg) r1) else json_skip_digits (rd (pre @ sg) r1)) =
      rd ((pre @ sg) @ i) r2"
    using integer_ok [OF dig] by blast
  obtain of3 s3 where f3: "json_fraction (rd ((pre @ sg) @ i) r2) = (of3, s3)" by fastforce
  with run ok sg(3) dig i(3) fraction_none obtain f where "of3 = Some f"
    by (cases of3) (auto simp: json_parse_number_def Let_def)
  with fraction_ok f3 obtain fr r3 where fr: "r2 = fr @ r3" "json_frac_text fr" "f = (fr \<noteq> [])" "s3 = rd (((pre @ sg) @ i) @ fr) r3"
    by blast
  obtain oe s4 where f4: "json_exponent (rd (((pre @ sg) @ i) @ fr) r3) = (oe, s4)" by fastforce
  have eq: "json_parse_number strtod_ok (rd pre r) = (case oe of None \<Rightarrow> (JNull, s4) | Some ex \<Rightarrow>
     json_finish_number strtod_ok (length pre) (f \<or> ex) s4)"
    using sg(3) dig i(3) f3 \<open>of3 = Some f\<close> fr(4) f4
    by (cases oe) (simp_all add: json_parse_number_def Let_def del: append_assoc)
  with run ok obtain e where "oe = Some e"
    using exponent_none f4 by (cases oe) auto
  with exponent_ok f4 obtain ex r4 where ex: "r3 = ex @ r4" "json_exp_text ex" "e = (ex \<noteq> [])" "s4 = rd ((((pre @ sg) @ i) @ fr) @ ex) r4"
    by blast
  from finish_number_ok [of strtod_ok pre "f \<or> e" "sg @ i @ fr @ ex" r4 v s'] eq run ok ex(4) \<open>oe = Some e\<close>
  have "number_value strtod_ok (f \<or> e) (sg @ i @ fr @ ex) = Some v" "s' = rd (pre @ sg @ i @ fr @ ex) r4" by auto
  moreover have "json_number_text (f \<or> e) (sg @ i @ fr @ ex)"
    unfolding json_number_text_def using sg(2) i(2) fr(2,3) ex(2,3) by blast
  ultimately show ?thesis using sg(1) i(1) fr(1) ex(1)
    by (intro exI [of _ "f \<or> e"] exI [of _ "sg @ i @ fr @ ex"] exI [of _ r4]) simp
qed

section \<open>Values\<close>

lemma rd_skip_words: "json_skip 4 (rd pre (c1 # c2 # c3 # c4 # r)) = rd (pre @ [c1, c2, c3, c4]) r"
  "json_skip 5 (rd pre (c1 # c2 # c3 # c4 # c5 # r)) = rd (pre @ [c1, c2, c3, c4, c5]) r"
  by (simp_all add: json_skip_def rd_def)

lemma parse_null_ok:
  assumes "json_parse_null (rd pre r) = (v, s')" "jp_ok s'"
  shows "\<exists>t r'. r = t @ r' \<and> is_json strtod_ok v t \<and> s' = rd (pre @ t) r'"
proof -
  obtain r' where "r = ''null'' @ r'" "v = JNull" "s' = rd (pre @ ''null'') r'"
    using assms by (auto simp: json_parse_null_def rd_word rd_skip_words split: if_splits)
  then show ?thesis using js_null by blast
qed

lemma parse_bool_ok:
  assumes "json_parse_bool (rd pre r) = (v, s')" "jp_ok s'"
  shows "\<exists>t r'. r = t @ r' \<and> is_json strtod_ok v t \<and> s' = rd (pre @ t) r'"
proof -
  consider r' where "r = ''true'' @ r'" "v = JBool True" "s' = rd (pre @ ''true'') r'"
    | r' where "r = ''false'' @ r'" "v = JBool False" "s' = rd (pre @ ''false'') r'"
    using assms by (auto simp: json_parse_bool_def rd_word rd_skip_words split: if_splits)
  then show ?thesis using js_true js_false by cases blast+
qed

lemma json_ws_append [simp]: "json_ws (a @ b) \<longleftrightarrow> json_ws a \<and> json_ws b"
  by (auto simp: json_ws_def)

lemma json_ws_take [simp]: "json_ws (takeWhile json_space r)"
  by (auto simp: json_ws_def dest: set_takeWhileD)

lemma elements_ws: "json_elements strtod_ok vs t \<Longrightarrow> json_ws a \<Longrightarrow> json_elements strtod_ok vs (a @ t)"
proof (induction rule: json_elements.cases)
  case (js_element b v t c)
  then show ?case using is_json_json_elements_json_members.js_element [of "a @ b" strtod_ok v t c] by simp
next
  case (js_elements b v t c vs u)
  then show ?case using is_json_json_elements_json_members.js_elements [of "a @ b" strtod_ok v t c vs u] by simp
qed

lemma members_ws: "json_members strtod_ok kvs t \<Longrightarrow> json_ws a \<Longrightarrow> json_members strtod_ok kvs (a @ t)"
proof (induction rule: json_members.cases)
  case (js_member a' k s b c v t d)
  then show ?case using is_json_json_elements_json_members.js_member [of "a @ a'" k s b c strtod_ok v t d] by simp
next
  case (js_members a' k s b c v t d kvs u)
  then show ?case using is_json_json_elements_json_members.js_members [of "a @ a'" k s b c strtod_ok v t d kvs u] by simp
qed

lemma skip_ws_ok: "jp_ok (json_skip_ws s) = jp_ok s"
  by (induction s rule: json_skip_ws.induct) (subst json_skip_ws.simps, simp add: json_step_def)

lemma rd_no_match: "k \<noteq> CHR 0x00 \<Longrightarrow> (\<And>r1. r \<noteq> k # r1) \<Longrightarrow> json_match k (rd pre r) = (False, rd pre r)"
  by (cases r) auto

lemma expect_ok: "jp_ok (json_expect k (rd pre r)) \<Longrightarrow> k \<noteq> CHR 0x00 \<Longrightarrow> \<exists>r1. r = k # r1"
  by (cases r) (auto simp: json_expect_def split: if_splits)

lemma drop_space: "dropWhile json_space r = x \<Longrightarrow> r = takeWhile json_space r @ x"
  using takeWhile_dropWhile_id [of json_space r] by simp

text \<open>What the three recursive routines promise at one amount of fuel.\<close>

definition value_sound :: "nat \<Rightarrow> (string \<Rightarrow> bool) \<Rightarrow> bool" where
  "value_sound n strtod_ok \<longleftrightarrow> (\<forall>pre r v s'. json_parse_value n strtod_ok (rd pre r) = Some (v, s') \<longrightarrow> jp_ok s' \<longrightarrow>
      (\<exists>a t r'. r = a @ t @ r' \<and> json_ws a \<and> is_json strtod_ok v t \<and> s' = rd (pre @ a @ t) r'))"

definition array_sound :: "nat \<Rightarrow> (string \<Rightarrow> bool) \<Rightarrow> bool" where
  "array_sound n strtod_ok \<longleftrightarrow> (\<forall>pre r items v s'. json_array_loop n strtod_ok items (rd pre r) = Some (v, s') \<longrightarrow> jp_ok s' \<longrightarrow>
      (\<exists>vs t r'. r = t @ CHR '']'' # r' \<and> json_elements strtod_ok vs t \<and> v = JArray (items @ vs) \<and> s' = rd (pre @ t @ '']'') r'))"

definition object_sound :: "nat \<Rightarrow> (string \<Rightarrow> bool) \<Rightarrow> bool" where
  "object_sound n strtod_ok \<longleftrightarrow> (\<forall>pre r entries v s'. json_object_loop n strtod_ok entries (rd pre r) = Some (v, s') \<longrightarrow> jp_ok s' \<longrightarrow>
      (\<exists>kvs t r'. r = t @ CHR 0x7D # r' \<and> json_members strtod_ok kvs t \<and> v = JObject (store_all kvs entries) \<and> s' = rd (pre @ t @ [CHR 0x7D]) r'))"

lemma value_soundD: "value_sound n strtod_ok \<Longrightarrow> json_parse_value n strtod_ok (rd pre r) = Some (v, s') \<Longrightarrow> jp_ok s' \<Longrightarrow>
      \<exists>a t r'. r = a @ t @ r' \<and> json_ws a \<and> is_json strtod_ok v t \<and> s' = rd (pre @ a @ t) r'"
  by (simp add: value_sound_def)

lemma array_soundD: "array_sound n strtod_ok \<Longrightarrow> json_array_loop n strtod_ok items (rd pre r) = Some (v, s') \<Longrightarrow> jp_ok s' \<Longrightarrow>
      \<exists>vs t r'. r = t @ CHR '']'' # r' \<and> json_elements strtod_ok vs t \<and> v = JArray (items @ vs) \<and> s' = rd (pre @ t @ '']'') r'"
  by (simp add: array_sound_def)

lemma object_soundD: "object_sound n strtod_ok \<Longrightarrow> json_object_loop n strtod_ok entries (rd pre r) = Some (v, s') \<Longrightarrow> jp_ok s' \<Longrightarrow>
      \<exists>kvs t r'. r = t @ CHR 0x7D # r' \<and> json_members strtod_ok kvs t \<and> v = JObject (store_all kvs entries) \<and> s' = rd (pre @ t @ [CHR 0x7D]) r'"
  by (simp add: object_sound_def)

lemma loop_stops:
  "json_array_loop n strtod_ok items s = Some (v, s') \<Longrightarrow> \<not> jp_ok s \<Longrightarrow> \<not> jp_ok s'"
  "json_object_loop n strtod_ok entries s = Some (v, s') \<Longrightarrow> \<not> jp_ok s \<Longrightarrow> \<not> jp_ok s'"
  by (cases n; simp)+

lemma array_loop_ok:
  assumes IH: "value_sound n strtod_ok"
    and loop: "array_sound n strtod_ok"
    and run: "json_array_loop (Suc n) strtod_ok items (rd pre r) = Some (v, s')" and ok: "jp_ok s'"
  shows "\<exists>vs t r'. r = t @ CHR '']'' # r' \<and> json_elements strtod_ok vs t \<and> v = JArray (items @ vs) \<and> s' = rd (pre @ t @ '']'') r'"
proof -
  obtain w s1 where w: "json_parse_value n strtod_ok (rd pre r) = Some (w, s1)" "jp_ok s1"
    using run ok by (auto split: option.splits if_splits)
  from value_soundD [OF IH this] obtain a t r1 where t: "r = a @ t @ r1" "json_ws a" "is_json strtod_ok w t" "s1 = rd (pre @ a @ t) r1" by blast
  let ?b = "takeWhile json_space r1" and ?p = "pre @ a @ t @ takeWhile json_space r1"
  have skip: "json_skip_ws s1 = rd ?p (dropWhile json_space r1)" using t(4) by (simp add: rd_skip_ws)
  show ?thesis
  proof (cases "\<exists>r2. dropWhile json_space r1 = CHR '']'' # r2")
    case True
    then obtain r2 where r2: "dropWhile json_space r1 = CHR '']'' # r2" by blast
    have "v = JArray (items @ [w])" "s' = rd (?p @ '']'') r2" using run w skip r2 by simp_all
    moreover have "r1 = ?b @ CHR '']'' # r2" using r2 takeWhile_dropWhile_id [of json_space r1] by simp
    ultimately show ?thesis using t js_element [of a strtod_ok w t ?b]
      by (intro exI [of _ "[w]"] exI [of _ "a @ t @ ?b"] exI [of _ r2]) simp
  next
    case False
    then have no: "json_match (CHR '']'') (rd ?p (dropWhile json_space r1)) = (False, rd ?p (dropWhile json_space r1))"
      by (intro rd_no_match) auto
    have go: "json_array_loop n strtod_ok (items @ [w]) (json_skip_ws (json_expect (CHR '','') (rd ?p (dropWhile json_space r1)))) = Some (v, s')"
      using run w skip no by simp
    have "jp_ok (json_skip_ws (json_expect (CHR '','') (rd ?p (dropWhile json_space r1))))" using loop_stops go ok by blast
    then obtain r3 where r3: "dropWhile json_space r1 = CHR '','' # r3"
      using expect_ok [of "CHR '',''" ?p "dropWhile json_space r1"] by (auto simp: skip_ws_ok)
    let ?c = "takeWhile json_space r3"
    have "json_array_loop n strtod_ok (items @ [w]) (rd (?p @ CHR '','' # ?c) (dropWhile json_space r3)) = Some (v, s')"
      using go r3 by (simp add: json_expect_def rd_skip_ws)
    from array_soundD [OF loop this ok] obtain vs u r' where u: "dropWhile json_space r3 = u @ CHR '']'' # r'" "json_elements strtod_ok vs u"
      "v = JArray ((items @ [w]) @ vs)" "s' = rd ((?p @ CHR '','' # ?c) @ u @ '']'') r'" by blast
    have "r1 = ?b @ CHR '','' # r3" using r3 takeWhile_dropWhile_id [of json_space r1] by simp
    moreover have "r3 = ?c @ u @ CHR '']'' # r'" using u(1) takeWhile_dropWhile_id [of json_space r3] by simp
    ultimately have "r1 = ?b @ CHR '','' # ?c @ u @ CHR '']'' # r'" by simp
    then show ?thesis using t u js_elements [of a strtod_ok w t ?b vs "?c @ u"] elements_ws [OF u(2), of ?c]
      by (intro exI [of _ "w # vs"] exI [of _ "a @ t @ ?b @ CHR '','' # ?c @ u"] exI [of _ r']) simp
  qed
qed

lemma object_loop_ok:
  assumes IH: "value_sound n strtod_ok"
    and loop: "object_sound n strtod_ok"
    and run: "json_object_loop (Suc n) strtod_ok entries (rd pre r) = Some (v, s')" and ok: "jp_ok s'"
  shows "\<exists>kvs t r'. r = t @ CHR 0x7D # r' \<and> json_members strtod_ok kvs t \<and> v = JObject (store_all kvs entries) \<and> s' = rd (pre @ t @ [CHR 0x7D]) r'"
proof -
  let ?a = "takeWhile json_space r"
  have s1: "json_skip_ws (rd pre r) = rd (pre @ ?a) (dropWhile json_space r)" by (rule rd_skip_ws)
  obtain r1 where r1: "dropWhile json_space r = CHR 0x22 # r1"
    using run ok s1 by (cases "dropWhile json_space r") (auto simp: Let_def split: if_splits)
  obtain key s2 where k: "json_parse_string (rd (pre @ ?a) (CHR 0x22 # r1)) = (key, s2)" by fastforce
  have ok2: "jp_ok s2" using run ok s1 r1 k by (auto simp: Let_def split: if_splits)
  from parse_string_ok [OF k ok2] obtain ks r2 where ks: "r1 = ks @ CHR 0x22 # r2" "json_chars key ks"
    "s2 = rd ((pre @ ?a) @ CHR 0x22 # ks @ [CHR 0x22]) r2" by blast
  let ?b = "takeWhile json_space r2"
  let ?p = "(pre @ ?a) @ CHR 0x22 # ks @ CHR 0x22 # ?b"
  have s3: "json_skip_ws s2 = rd ?p (dropWhile json_space r2)" using ks(3) by (simp add: rd_skip_ws)
  have "jp_ok (json_expect (CHR '':'') (json_skip_ws s2))" using run ok s1 r1 k ok2 by (auto simp: Let_def split: if_splits)
  with s3 obtain r3 where r3: "dropWhile json_space r2 = CHR '':'' # r3" using expect_ok [of "CHR '':''"] by auto
  let ?q = "?p @ '':''"
  have s4: "json_expect (CHR '':'') (json_skip_ws s2) = rd ?q r3" using s3 r3 by (simp add: json_expect_def)
  obtain w s5 where w: "json_parse_value n strtod_ok (rd ?q r3) = Some (w, s5)" "jp_ok s5"
    using run ok s1 r1 k ok2 s4 by (auto simp: Let_def simp del: append_assoc split: option.splits if_splits)
  from value_soundD [OF IH this] obtain c t r4 where t: "r3 = c @ t @ r4" "json_ws c" "is_json strtod_ok w t" "s5 = rd (?q @ c @ t) r4" by blast
  let ?d = "takeWhile json_space r4"
  let ?e = "(?q @ c @ t) @ ?d"
  have s6: "json_skip_ws s5 = rd ?e (dropWhile json_space r4)" using t(4) by (simp add: rd_skip_ws)
  have rr: "r = ?a @ CHR 0x22 # ks @ CHR 0x22 # ?b @ CHR '':'' # c @ t @ r4"
    using drop_space [OF r1] ks(1) drop_space [OF r3] t(1) by simp
  have run': "json_object_loop (Suc n) strtod_ok entries (rd pre r) =
    (case json_match (CHR 0x7D) (rd ?e (dropWhile json_space r4)) of (close, s5) \<Rightarrow>
                if close then Some (JObject (map_store key w entries), s5)
                else json_object_loop n strtod_ok (map_store key w entries) (json_skip_ws (json_expect (CHR '','') s5)))"
    using s1 r1 k ok2 s4 w s6 by (simp add: Let_def del: append_assoc)
  show ?thesis
  proof (cases "\<exists>r5. dropWhile json_space r4 = CHR 0x7D # r5")
    case True
    then obtain r5 where r5: "dropWhile json_space r4 = CHR 0x7D # r5" by blast
    have "v = JObject (map_store key w entries)" "s' = rd (?e @ [CHR 0x7D]) r5" using run run' r5 by simp_all
    then show ?thesis using rr drop_space [OF r5] js_member [of ?a key ks ?b c strtod_ok w t ?d] ks(2) t
      by (intro exI [of _ "[(key, w)]"] exI [of _ "?a @ CHR 0x22 # ks @ CHR 0x22 # ?b @ CHR '':'' # c @ t @ ?d"] exI [of _ r5])
        (simp add: store_all_def)
  next
    case False
    then have no: "json_match (CHR 0x7D) (rd ?e (dropWhile json_space r4)) = (False, rd ?e (dropWhile json_space r4))"
      by (intro rd_no_match) auto
    have go: "json_object_loop n strtod_ok (map_store key w entries) (json_skip_ws (json_expect (CHR '','') (rd ?e (dropWhile json_space r4)))) = Some (v, s')"
      using run run' no by simp
    have "jp_ok (json_skip_ws (json_expect (CHR '','') (rd ?e (dropWhile json_space r4))))" using loop_stops go ok by blast
    then obtain r5 where r5: "dropWhile json_space r4 = CHR '','' # r5"
      using expect_ok [of "CHR '',''" ?e "dropWhile json_space r4"] by (auto simp: skip_ws_ok)
    let ?f = "takeWhile json_space r5"
    have "json_object_loop n strtod_ok (map_store key w entries) (rd (?e @ CHR '','' # ?f) (dropWhile json_space r5)) = Some (v, s')"
      using go r5 by (simp add: json_expect_def rd_skip_ws)
    from object_soundD [OF loop this ok] obtain kvs u r' where u: "dropWhile json_space r5 = u @ CHR 0x7D # r'" "json_members strtod_ok kvs u"
      "v = JObject (store_all kvs (map_store key w entries))" "s' = rd ((?e @ CHR '','' # ?f) @ u @ [CHR 0x7D]) r'" by blast
    have "r4 = ?d @ CHR '','' # ?f @ u @ CHR 0x7D # r'" using drop_space [OF r5] drop_space [OF u(1)] by simp
    then show ?thesis using rr u js_members [of ?a key ks ?b c strtod_ok w t ?d kvs "?f @ u"] members_ws [OF u(2), of ?f] ks(2) t
      by (intro exI [of _ "(key, w) # kvs"] exI [of _ "?a @ CHR 0x22 # ks @ CHR 0x22 # ?b @ CHR '':'' # c @ t @ ?d @ CHR '','' # ?f @ u"] exI [of _ r'])
        (simp add: store_all_def)
  qed
qed

lemma expect_here [simp]: "json_expect k (rd pre (k # r)) = rd (pre @ [k]) r"
  by (simp add: json_expect_def)

text \<open>A value that opens with a bracket, before its loop is entered.\<close>

lemma open_array_ok:
  assumes loop: "array_sound n strtod_ok"
    and run: "(case json_match (CHR '']'') (json_skip_ws (json_expect (CHR ''['') (rd pre (CHR ''['' # r)))) of (close, s3) \<Rightarrow>
      if close then Some (JArray [], s3) else json_array_loop n strtod_ok [] s3) = Some (v, s')" and ok: "jp_ok s'"
  shows "\<exists>t r'. CHR ''['' # r = t @ r' \<and> is_json strtod_ok v t \<and> s' = rd (pre @ t) r'"
proof -
  let ?a = "takeWhile json_space r" and ?p = "(pre @ ''['') @ takeWhile json_space r"
  have s2: "json_skip_ws (json_expect (CHR ''['') (rd pre (CHR ''['' # r))) = rd ?p (dropWhile json_space r)"
    by (simp add: rd_skip_ws)
  show ?thesis
  proof (cases "\<exists>r2. dropWhile json_space r = CHR '']'' # r2")
    case True
    then obtain r2 where r2: "dropWhile json_space r = CHR '']'' # r2" by blast
    have "v = JArray []" "s' = rd (?p @ '']'') r2" using run s2 r2 by simp_all
    then show ?thesis using drop_space [OF r2] js_empty_array [of ?a strtod_ok]
      by (intro exI [of _ "CHR ''['' # ?a @ '']''"] exI [of _ r2]) simp
  next
    case False
    then have "json_match (CHR '']'') (rd ?p (dropWhile json_space r)) = (False, rd ?p (dropWhile json_space r))"
      by (intro rd_no_match) auto
    then have "json_array_loop n strtod_ok [] (rd ?p (dropWhile json_space r)) = Some (v, s')" using run s2 by simp
    from array_soundD [OF loop this ok] obtain vs t r' where t: "dropWhile json_space r = t @ CHR '']'' # r'" "json_elements strtod_ok vs t"
      "v = JArray ([] @ vs)" "s' = rd (?p @ t @ '']'') r'" by blast
    then show ?thesis using drop_space [OF t(1)] js_array [OF elements_ws [OF t(2), of ?a]]
      by (intro exI [of _ "CHR ''['' # ?a @ t @ '']''"] exI [of _ r']) simp
  qed
qed

lemma open_object_ok:
  assumes loop: "object_sound n strtod_ok"
    and run: "(case json_match (CHR 0x7D) (json_skip_ws (json_expect (CHR 0x7B) (rd pre (CHR 0x7B # r)))) of (close, s3) \<Rightarrow>
      if close then Some (JObject [], s3) else json_object_loop n strtod_ok [] s3) = Some (v, s')" and ok: "jp_ok s'"
  shows "\<exists>t r'. CHR 0x7B # r = t @ r' \<and> is_json strtod_ok v t \<and> s' = rd (pre @ t) r'"
proof -
  let ?a = "takeWhile json_space r" and ?p = "(pre @ [CHR 0x7B]) @ takeWhile json_space r"
  have s2: "json_skip_ws (json_expect (CHR 0x7B) (rd pre (CHR 0x7B # r))) = rd ?p (dropWhile json_space r)"
    by (simp add: rd_skip_ws)
  show ?thesis
  proof (cases "\<exists>r2. dropWhile json_space r = CHR 0x7D # r2")
    case True
    then obtain r2 where r2: "dropWhile json_space r = CHR 0x7D # r2" by blast
    have "v = JObject []" "s' = rd (?p @ [CHR 0x7D]) r2" using run s2 r2 by simp_all
    then show ?thesis using drop_space [OF r2] js_empty_object [of ?a strtod_ok]
      by (intro exI [of _ "CHR 0x7B # ?a @ [CHR 0x7D]"] exI [of _ r2]) simp
  next
    case False
    then have "json_match (CHR 0x7D) (rd ?p (dropWhile json_space r)) = (False, rd ?p (dropWhile json_space r))"
      by (intro rd_no_match) auto
    then have "json_object_loop n strtod_ok [] (rd ?p (dropWhile json_space r)) = Some (v, s')" using run s2 by simp
    from object_soundD [OF loop this ok] obtain kvs t r' where t: "dropWhile json_space r = t @ CHR 0x7D # r'" "json_members strtod_ok kvs t"
      "v = JObject (store_all kvs [])" "s' = rd (?p @ t @ [CHR 0x7D]) r'" by blast
    then show ?thesis using drop_space [OF t(1)] js_object [OF members_ws [OF t(2), of ?a]]
      by (intro exI [of _ "CHR 0x7B # ?a @ t @ [CHR 0x7D]"] exI [of _ r']) simp
  qed
qed

lemma value_here_ok:
  assumes arr: "array_sound n strtod_ok"
    and obj: "object_sound n strtod_ok"
    and run: "json_parse_value (Suc n) strtod_ok (rd pre r) = Some (v, s')" and ok: "jp_ok s'"
  shows "\<exists>t r'. dropWhile json_space r = t @ r' \<and> is_json strtod_ok v t \<and> s' = rd ((pre @ takeWhile json_space r) @ t) r'"
proof -
  let ?p = "pre @ takeWhile json_space r"
  have s1: "json_skip_ws (rd pre r) = rd ?p (dropWhile json_space r)" by (rule rd_skip_ws)
  show ?thesis
  proof (cases "dropWhile json_space r")
    case Nil
    with run ok s1 show ?thesis by (auto simp: json_digit_def is_digit_def in_range_def Let_def simp del: dropWhile_eq_Nil_conv)
  next
    case (Cons c r1)
    note run' = run [unfolded json_parse_value.simps s1 Cons Let_def rd_sel rd_peek if_True not_True_eq_False simp_thms if_False]
    consider "c = CHR 0x7B" | "c = CHR ''[''" | "c = CHR 0x22" | "c = CHR ''t'' \<or> c = CHR ''f''" | "c = CHR ''n''"
      | (number) "c \<noteq> CHR 0x7B" "c \<noteq> CHR ''[''" "c \<noteq> CHR 0x22" "c \<noteq> CHR ''t''" "c \<noteq> CHR ''f''" "c \<noteq> CHR ''n''" by blast
    then show ?thesis
    proof cases
      case 1
      have "\<exists>t r'. CHR 0x7B # r1 = t @ r' \<and> is_json strtod_ok v t \<and> s' = rd (?p @ t) r'"
        by (rule open_object_ok [where n = n]) (use obj run' ok 1 in \<open>simp_all\<close>)
      then show ?thesis using Cons 1 by simp
    next
      case 2
      have "\<exists>t r'. CHR ''['' # r1 = t @ r' \<and> is_json strtod_ok v t \<and> s' = rd (?p @ t) r'"
        by (rule open_array_ok [where n = n]) (use arr run' ok 2 in \<open>simp_all\<close>)
      then show ?thesis using Cons 2 by simp
    next
      case 3
      then obtain x where x: "json_parse_string (rd ?p (CHR 0x22 # r1)) = (x, s')" "v = JString x"
        using run' by (cases "json_parse_string (rd ?p (CHR 0x22 # r1))") auto
      from parse_string_ok [OF x(1) ok] obtain t r' where "r1 = t @ CHR 0x22 # r'" "json_chars x t"
        "s' = rd (?p @ CHR 0x22 # t @ [CHR 0x22]) r'" by blast
      with x(2) js_string [of x t strtod_ok] 3 Cons show ?thesis
        by (intro exI [of _ "CHR 0x22 # t @ [CHR 0x22]"] exI [of _ r']) simp
    next
      case 4
      then have "json_parse_bool (rd ?p (c # r1)) = (v, s')" using run' by auto
      from parse_bool_ok [OF this ok] Cons show ?thesis by simp
    next
      case 5
      then have "json_parse_null (rd ?p (c # r1)) = (v, s')" using run' by auto
      from parse_null_ok [OF this ok] Cons show ?thesis by simp
    next
      case number
      then have "json_parse_number strtod_ok (rd ?p (c # r1)) = (v, s')" using run' ok by (auto split: if_splits)
      from parse_number_ok [OF this ok] obtain f t r' where t: "c # r1 = t @ r'" "s' = rd (?p @ t) r'"
        and num: "json_number_text f t" "number_value strtod_ok f t = Some v" by blast
      from js_number [OF num] t Cons show ?thesis by (intro exI [of _ t] exI [of _ r']) simp
    qed
  qed
qed

lemma json_sound: "value_sound n strtod_ok \<and> array_sound n strtod_ok \<and> object_sound n strtod_ok"
proof (induction n)
  case 0
  then show ?case by (simp add: value_sound_def array_sound_def object_sound_def)
next
  case (Suc n)
  have "value_sound (Suc n) strtod_ok"
    unfolding value_sound_def
  proof (intro allI impI)
    fix pre r v s'
    assume run: "json_parse_value (Suc n) strtod_ok (rd pre r) = Some (v, s')" "jp_ok s'"
    let ?a = "takeWhile json_space r"
    obtain t r' where t: "dropWhile json_space r = t @ r'" "is_json strtod_ok v t" "s' = rd ((pre @ ?a) @ t) r'"
      using value_here_ok [OF _ _ run] Suc.IH by blast
    then show "\<exists>a t r'. r = a @ t @ r' \<and> json_ws a \<and> is_json strtod_ok v t \<and> s' = rd (pre @ a @ t) r'"
      using drop_space [OF t(1)] by (intro exI [of _ ?a] exI [of _ t] exI [of _ r']) simp
  qed
  moreover have "array_sound (Suc n) strtod_ok"
    unfolding array_sound_def using array_loop_ok [of n strtod_ok] Suc.IH by blast
  moreover have "object_sound (Suc n) strtod_ok"
    unfolding object_sound_def using object_loop_ok [of n strtod_ok] Suc.IH by blast
  ultimately show ?case by blast
qed

end
