(* ===== verification/Json_Complete.thy ===== *)
theory Json_Complete
  imports Json_Sound
begin

text \<open>
  Every JSON text is read to its value, whatever follows it that may follow a value; and twice the length
  of the text is fuel enough for every text, JSON or not.
\<close>

section \<open>Strings and numbers\<close>

lemma json_escape_complete:
  "simple_escape e = Some c \<Longrightarrow> json_escape (rd pre (e # r)) = (Some [c], rd (pre @ [e]) r)"
  by (simp add: json_escape_def)

lemma unicode_digits_complete:
  "map hex_digit hs = map Some ds \<Longrightarrow>
   unicode_digits (length hs) code (rd pre (hs @ r)) = (Some (foldl (\<lambda>a d. 16 * a + d) code ds), rd (pre @ hs) r)"
proof (induction hs arbitrary: ds code pre)
  case (Cons h hs)
  then obtain d ds' where "ds = d # ds'" "hex_digit h = Some d" "map hex_digit hs = map Some ds'" by (cases ds) auto
  with Cons.IH [of ds' "16 * code + d" "pre @ [h]"] show ?case by simp
qed simp

lemma json_escape_unicode:
  assumes "hex_digit h1 = Some d1" "hex_digit h2 = Some d2" "hex_digit h3 = Some d3" "hex_digit h4 = Some d4"
  shows "json_escape (rd pre (CHR ''u'' # h1 # h2 # h3 # h4 # r)) =
    (Some (utf8_unit (4096 * d1 + 256 * d2 + 16 * d3 + d4)), rd (pre @ [CHR ''u'', h1, h2, h3, h4]) r)"
proof -
  have four: "(4 :: nat) = Suc (Suc (Suc (Suc 0)))" by simp
  have "unicode_digits 4 0 (rd (pre @ ''u'') (h1 # h2 # h3 # h4 # r)) =
      (Some (4096 * d1 + 256 * d2 + 16 * d3 + d4), rd (pre @ [CHR ''u'', h1, h2, h3, h4]) r)"
    using unicode_digits_complete [of "[h1, h2, h3, h4]" "[d1, d2, d3, d4]" 0 "pre @ ''u''" r] assms
    by (simp del: unicode_digits.simps add: four algebra_simps)
  then show ?thesis by (simp add: json_escape_def simple_escape_def)
qed

lemma string_loop_complete:
  "json_chars y t \<Longrightarrow> json_string_loop out (rd pre (t @ CHR 0x22 # r)) = (out @ y, rd (pre @ t @ [CHR 0x22]) r)"
proof (induction arbitrary: out pre rule: json_chars.induct)
  case jc_nil
  then show ?case by (simp add: string_loop_rd)
next
  case (jc_plain c x t)
  then show ?case by (simp add: string_loop_rd)
next
  case (jc_escape e c x t)
  then show ?case by (simp add: string_loop_rd json_escape_complete)
next
  case (jc_unicode h1 d1 h2 d2 h3 d3 h4 d4 x t)
  then show ?case by (simp add: string_loop_rd json_escape_unicode)
qed

lemma parse_string_complete:
  "json_chars y t \<Longrightarrow> json_parse_string (rd pre (CHR 0x22 # t @ CHR 0x22 # r)) = (y, rd (pre @ CHR 0x22 # t @ [CHR 0x22]) r)"
  using string_loop_complete [of y t "[]" "pre @ [CHR 0x22]" r] by (simp add: json_parse_string_def)

definition no_digit :: "string \<Rightarrow> bool" where
  "no_digit r \<longleftrightarrow> r = [] \<or> \<not> json_digit (hd r)"

lemma skip_digits_to:
  "json_digits ds \<Longrightarrow> no_digit r \<Longrightarrow> json_skip_digits (rd pre (ds @ r)) = rd (pre @ ds) r"
  by (cases r) (auto simp: rd_skip_digits json_digits_def no_digit_def takeWhile_append dropWhile_append
      takeWhile_eq_all_conv [THEN iffD2] dropWhile_eq_Nil_conv [THEN iffD2])

text \<open>What may follow a value.\<close>

definition json_follow :: "string \<Rightarrow> bool" where
  "json_follow r \<longleftrightarrow> r = [] \<or> json_space (hd r) \<or> hd r \<in> {CHR '','', CHR '']'', CHR 0x7D}"

lemma follow_facts:
  "json_follow (c # r) \<Longrightarrow> \<not> json_digit c \<and> c \<noteq> CHR ''.'' \<and> c \<noteq> CHR ''e'' \<and> c \<noteq> CHR ''E''"
  by (auto simp: json_follow_def json_space_def json_digit_def is_digit_def in_range_def)

lemma digit_not: "json_digit c \<Longrightarrow> c \<noteq> CHR ''-'' \<and> c \<noteq> CHR ''+'' \<and> c \<noteq> CHR ''.'' \<and> c \<noteq> CHR ''e'' \<and> c \<noteq> CHR ''E''"
  by (auto simp: json_digit_def is_digit_def in_range_def)

lemma digits_cons: "json_digits ds \<Longrightarrow> \<exists>c cs. ds = c # cs \<and> json_digit c"
  by (cases ds) (auto simp: json_digits_def)

lemma sign_complete:
  "sg = [] \<or> sg = ''-'' \<Longrightarrow> json_digit c \<Longrightarrow> snd (json_match (CHR ''-'') (rd pre (sg @ c # r))) = rd (pre @ sg) (c # r)"
  using digit_not [of c] by auto

lemma integer_complete:
  assumes "json_int_text i" "no_digit r"
  shows "(if json_peek (rd pre (i @ r)) = CHR ''0'' then json_step (rd pre (i @ r)) else json_skip_digits (rd pre (i @ r))) =
      rd (pre @ i) r"
proof (cases "i = ''0''")
  case False
  with assms(1) have d: "json_digits i" "hd i \<noteq> CHR ''0''" by (auto simp: json_int_text_def)
  with digits_cons show ?thesis using skip_digits_to [OF d(1) assms(2)] by fastforce
qed simp

lemma fraction_complete:
  assumes "json_frac_text fr" "no_digit r" "fr = [] \<Longrightarrow> r = [] \<or> hd r \<noteq> CHR ''.''"
  shows "json_fraction (rd pre (fr @ r)) = (Some (fr \<noteq> []), rd (pre @ fr) r)"
proof (cases "fr = []")
  case True
  with assms(3) show ?thesis by (cases r) (auto simp: json_fraction_def)
next
  case False
  with assms(1) obtain ds where ds: "fr = CHR ''.'' # ds" "json_digits ds" by (auto simp: json_frac_text_def)
  from digits_cons [OF ds(2)] obtain c cs where "ds = c # cs" "json_digit c" by blast
  with ds skip_digits_to [OF ds(2) assms(2), of "pre @ ''.''"] show ?thesis by (simp add: json_fraction_def)
qed

lemma exponent_complete:
  assumes "json_exp_text ex" "json_follow r"
  shows "json_exponent (rd pre (ex @ r)) = (Some (ex \<noteq> []), rd (pre @ ex) r)"
proof (cases "ex = []")
  case True
  with follow_facts assms(2) show ?thesis by (cases r) (auto simp: json_exponent_def)
next
  case False
  with assms(1) obtain e sg ds where ds: "ex = e # sg @ ds" "e = CHR ''e'' \<or> e = CHR ''E''"
    "sg = [] \<or> sg = ''+'' \<or> sg = ''-''" "json_digits ds" by (auto simp: json_exp_text_def)
  from digits_cons [OF ds(4)] obtain c cs where c: "ds = c # cs" "json_digit c" by blast
  have nd: "no_digit r" using follow_facts assms(2) by (cases r) (auto simp: no_digit_def)
  from ds(3) have "json_skip_digits (rd (pre @ e # sg) (ds @ r)) = rd (pre @ e # sg @ ds) r"
    using skip_digits_to [OF ds(4) nd, of "pre @ e # sg"] by simp
  with ds c digit_not [OF c(2)] show ?thesis by (auto simp: json_exponent_def Let_def)
qed

lemma digit_zero: "json_digit (CHR ''0'')"
  by (simp add: json_digit_def is_digit_def in_range_def)

lemma follow_no_digit: "json_follow r \<Longrightarrow> no_digit r \<and> (r = [] \<or> hd r \<noteq> CHR ''.'')"
  using follow_facts by (cases r) (auto simp: no_digit_def)

lemma no_digit_append: "no_digit x \<Longrightarrow> no_digit r \<Longrightarrow> no_digit (x @ r)"
  by (cases x) (auto simp: no_digit_def)

lemma frac_head: "json_frac_text fr \<Longrightarrow> no_digit fr"
  by (auto simp: json_frac_text_def no_digit_def json_digit_def is_digit_def in_range_def)

lemma exp_head: "json_exp_text ex \<Longrightarrow> no_digit ex \<and> (ex = [] \<or> hd ex \<noteq> CHR ''.'')"
  by (auto simp: json_exp_text_def no_digit_def json_digit_def is_digit_def in_range_def)

lemma parse_number_complete:
  assumes t: "json_number_text f t" and v: "number_value strtod_ok f t = Some v" and r: "json_follow r"
  shows "json_parse_number strtod_ok (rd pre (t @ r)) = (v, rd (pre @ t) r)"
proof -
  obtain sg i fr ex where p: "t = sg @ i @ fr @ ex" "sg = [] \<or> sg = ''-''" "json_int_text i" "json_frac_text fr"
    "json_exp_text ex" "f = (fr \<noteq> [] \<or> ex \<noteq> [])"
    using t by (auto simp: json_number_text_def)
  have nr: "no_digit r" "r = [] \<or> hd r \<noteq> CHR ''.''" using follow_no_digit [OF r] by simp_all
  note heads = frac_head [OF p(4)] exp_head [OF p(5)]
  have ir: "no_digit (ex @ r)" "no_digit (fr @ ex @ r)" "fr = [] \<Longrightarrow> ex @ r = [] \<or> hd (ex @ r) \<noteq> CHR ''.''"
    using heads nr no_digit_append by (simp, simp, cases ex, simp_all)
  obtain c cs where c: "i = c # cs" "json_digit c"
    using p(3) digits_cons [of i] digit_zero by (fastforce simp: json_int_text_def)
  have sign: "snd (json_match (CHR ''-'') (rd pre (sg @ i @ fr @ ex @ r))) = rd (pre @ sg) (i @ fr @ ex @ r)"
    using sign_complete [OF p(2) c(2), of pre "cs @ fr @ ex @ r"] c(1) by simp
  have dig: "json_digit (json_peek (rd (pre @ sg) (i @ fr @ ex @ r)))" using c by simp
  note steps = sign dig integer_complete [OF p(3) ir(2), of "pre @ sg"] fraction_complete [OF p(4) ir(1,3), of "pre @ sg @ i"]
    exponent_complete [OF p(5) r, of "pre @ sg @ i @ fr"]
  have "json_finish_number strtod_ok (length pre) f (rd (pre @ t) r) = (v, rd (pre @ t) r)"
    using v by (simp add: json_finish_number_def)
  then show ?thesis using steps by (simp add: json_parse_number_def Let_def p(1,6))
qed

section \<open>Values\<close>

lemma skip_ws_over: "json_ws a \<Longrightarrow> json_skip_ws (rd pre (a @ x)) = json_skip_ws (rd (pre @ a) x)"
  by (simp add: rd_skip_ws json_ws_def takeWhile_append dropWhile_append takeWhile_eq_all_conv [THEN iffD2])

lemma skip_ws_here: "\<not> json_space c \<Longrightarrow> json_skip_ws (rd pre (c # x)) = rd pre (c # x)"
  by (simp add: rd_skip_ws)

lemma skip_ws_twice: "json_skip_ws (json_skip_ws (rd pre x)) = json_skip_ws (rd pre x)"
  using takeWhile_dropWhile_id [of json_space x] hd_dropWhile [of json_space x]
  by (cases "dropWhile json_space x") (auto simp: rd_skip_ws simp del: dropWhile_eq_Nil_conv)

lemma routines_skip_ws:
  "json_parse_value n strtod_ok (json_skip_ws (rd pre x)) = json_parse_value n strtod_ok (rd pre x)"
  "json_array_loop n strtod_ok items (json_skip_ws (rd pre x)) = json_array_loop n strtod_ok items (rd pre x)"
  "json_object_loop n strtod_ok entries (json_skip_ws (rd pre x)) = json_object_loop n strtod_ok entries (rd pre x)"
proof -
  show v: "json_parse_value n strtod_ok (json_skip_ws (rd pre x)) = json_parse_value n strtod_ok (rd pre x)" for n
    by (cases n) (simp_all add: skip_ws_twice skip_ws_ok)
  show "json_array_loop n strtod_ok items (json_skip_ws (rd pre x)) = json_array_loop n strtod_ok items (rd pre x)"
    by (cases n) (simp_all add: v skip_ws_ok)
  show "json_object_loop n strtod_ok entries (json_skip_ws (rd pre x)) = json_object_loop n strtod_ok entries (rd pre x)"
    by (cases n) (simp_all add: skip_ws_twice skip_ws_ok)
qed

lemma routines_ws:
  assumes "json_ws a"
  shows "json_parse_value n strtod_ok (rd pre (a @ x)) = json_parse_value n strtod_ok (rd (pre @ a) x)"
    "json_object_loop n strtod_ok entries (rd pre (a @ x)) = json_object_loop n strtod_ok entries (rd (pre @ a) x)"
  using routines_skip_ws skip_ws_over [OF assms] by metis+

lemma is_json_start:
  "is_json strtod_ok v t \<Longrightarrow> \<exists>c t'. t = c # t' \<and> \<not> json_space c \<and> c \<noteq> CHR '']'' \<and> c \<noteq> CHR '','' \<and> c \<noteq> CHR 0x7D"
proof (induction rule: is_json.cases)
  case (js_number f x v)
  then obtain sg i y where "x = sg @ i @ y" "sg = [] \<or> sg = ''-''" "json_int_text i" by (auto simp: json_number_text_def)
  moreover then obtain c cs where "i = c # cs" "json_digit c"
    using digits_cons [of i] digit_zero by (fastforce simp: json_int_text_def)
  ultimately show ?case using js_number(2) by (auto simp: json_digit_def is_digit_def in_range_def json_space_def)
qed (auto simp: json_space_def)

definition value_reads :: "(string \<Rightarrow> bool) \<Rightarrow> json_value \<Rightarrow> string \<Rightarrow> bool" where
  "value_reads strtod_ok v t \<longleftrightarrow> (\<forall>pre r n. json_follow r \<longrightarrow> 2 * length t < n \<longrightarrow>
     json_parse_value n strtod_ok (rd pre (t @ r)) = Some (v, rd (pre @ t) r))"

definition elements_read :: "(string \<Rightarrow> bool) \<Rightarrow> json_value list \<Rightarrow> string \<Rightarrow> bool" where
  "elements_read strtod_ok vs t \<longleftrightarrow> (\<forall>pre r n items. 2 * length t + 1 < n \<longrightarrow>
     json_array_loop n strtod_ok items (rd pre (t @ CHR '']'' # r)) = Some (JArray (items @ vs), rd (pre @ t @ '']'') r))"

definition members_read :: "(string \<Rightarrow> bool) \<Rightarrow> (string \<times> json_value) list \<Rightarrow> string \<Rightarrow> bool" where
  "members_read strtod_ok kvs t \<longleftrightarrow> (\<forall>pre r n entries. 2 * length t + 1 < n \<longrightarrow>
     json_object_loop n strtod_ok entries (rd pre (t @ CHR 0x7D # r)) =
       Some (JObject (store_all kvs entries), rd (pre @ t @ [CHR 0x7D]) r))"

lemma follow_ws: "json_ws b \<Longrightarrow> json_follow (c # r) \<Longrightarrow> json_follow (b @ c # r)"
  by (cases b) (auto simp: json_follow_def json_ws_def)

lemma follow_marks [simp]: "json_follow (CHR '','' # r)" "json_follow (CHR '']'' # r)" "json_follow (CHR 0x7D # r)"
  by (simp_all add: json_follow_def)

lemma marks_no_space [simp]: "\<not> json_space (CHR '','')" "\<not> json_space (CHR '']'')" "\<not> json_space (CHR 0x7D)"
  "\<not> json_space (CHR 0x22)" "\<not> json_space (CHR '':'')" "\<not> json_space (CHR ''['')" "\<not> json_space (CHR 0x7B)"
  by (simp_all add: json_space_def)

text \<open>One element, up to the mark that follows it.\<close>

lemma element_reads:
  assumes "value_reads strtod_ok v t" "json_ws a" "json_ws b" "json_follow (c # r)" "2 * length t < n" "\<not> json_space c"
  shows "json_parse_value n strtod_ok (rd pre (a @ t @ b @ c # r)) = Some (v, rd (pre @ a @ t) (b @ c # r))"
    and "json_skip_ws (rd (pre @ a @ t) (b @ c # r)) = rd (pre @ a @ t @ b) (c # r)"
  using assms(1) follow_ws [OF assms(3,4)] assms(5)
  by (simp_all add: routines_ws(1) [OF assms(2)] value_reads_def skip_ws_over [OF assms(3)] skip_ws_here [OF assms(6)])

lemma element_last:
  assumes "value_reads strtod_ok v t" "json_ws a" "json_ws b" "is_json strtod_ok v t"
  shows "elements_read strtod_ok [v] (a @ t @ b)"
  unfolding elements_read_def
proof (intro allI impI)
  fix pre r n items
  assume n: "2 * length (a @ t @ b) + 1 < n"
  then obtain m where m: "n = Suc m" "2 * length t < m" by (cases n) auto
  show "json_array_loop n strtod_ok items (rd pre ((a @ t @ b) @ CHR '']'' # r)) =
      Some (JArray (items @ [v]), rd (pre @ (a @ t @ b) @ '']'') r)"
    using element_reads [OF assms(1-3), of "CHR '']''" r m pre] m by simp
qed

lemma element_more:
  assumes "value_reads strtod_ok v t" "json_ws a" "json_ws b" "elements_read strtod_ok vs u"
  shows "elements_read strtod_ok (v # vs) (a @ t @ b @ CHR '','' # u)"
  unfolding elements_read_def
proof (intro allI impI)
  fix pre r n items
  assume n: "2 * length (a @ t @ b @ CHR '','' # u) + 1 < n"
  then obtain m where m: "n = Suc m" "2 * length t < m" "2 * length u + 1 < m" by (cases n) auto
  have "json_array_loop m strtod_ok (items @ [v]) (rd (pre @ a @ t @ b @ '','') (u @ CHR '']'' # r)) =
      Some (JArray ((items @ [v]) @ vs), rd ((pre @ a @ t @ b @ '','') @ u @ '']'') r)"
    using assms(4) m(3) unfolding elements_read_def by blast
  then show "json_array_loop n strtod_ok items (rd pre ((a @ t @ b @ CHR '','' # u) @ CHR '']'' # r)) =
      Some (JArray (items @ v # vs), rd (pre @ (a @ t @ b @ CHR '','' # u) @ '']'') r)"
    using element_reads [OF assms(1-3), of "CHR '',''" "u @ CHR '']'' # r" m pre] m
    by (simp add: routines_skip_ws)
qed

lemma member_reads:
  assumes "value_reads strtod_ok v t" "json_ws a" "json_ws b" "json_ws c" "json_ws d" "json_chars key s"
    "json_follow (k # r)" "2 * length t < m" "\<not> json_space k"
  shows "json_object_loop (Suc m) strtod_ok entries (rd pre (a @ CHR 0x22 # s @ CHR 0x22 # b @ CHR '':'' # c @ t @ d @ k # r)) =
    (case json_match (CHR 0x7D) (rd (pre @ a @ CHR 0x22 # s @ CHR 0x22 # b @ CHR '':'' # c @ t @ d) (k # r)) of (close, s5) \<Rightarrow>
      if close then Some (JObject (map_store key v entries), s5)
      else json_object_loop m strtod_ok (map_store key v entries) (json_skip_ws (json_expect (CHR '','') s5)))"
proof -
  let ?p = "pre @ a" and ?x = "b @ CHR '':'' # c @ t @ d @ k # r"
  let ?q = "?p @ CHR 0x22 # s @ [CHR 0x22]"
  have 1: "json_skip_ws (rd ?p (CHR 0x22 # s @ CHR 0x22 # ?x)) = rd ?p (CHR 0x22 # s @ CHR 0x22 # ?x)"
    by (simp add: skip_ws_here)
  have 2: "json_parse_string (rd ?p (CHR 0x22 # s @ CHR 0x22 # ?x)) = (key, rd ?q ?x)"
    using parse_string_complete [OF assms(6)] by simp
  have 3: "json_skip_ws (rd ?q ?x) = rd (?q @ b) (CHR '':'' # c @ t @ d @ k # r)"
    by (simp add: skip_ws_over [OF assms(3)] skip_ws_here)
  have 4: "json_parse_value m strtod_ok (rd (?q @ b @ '':'') (c @ t @ d @ k # r)) = Some (v, rd (?q @ b @ CHR '':'' # c @ t) (d @ k # r))"
    "json_skip_ws (rd (?q @ b @ CHR '':'' # c @ t) (d @ k # r)) = rd (?q @ b @ CHR '':'' # c @ t @ d) (k # r)"
    using element_reads [OF assms(1,4,5,7-9), of "?q @ b @ '':''"] by simp_all
  have "json_object_loop (Suc m) strtod_ok entries (rd ?p (CHR 0x22 # s @ CHR 0x22 # ?x)) =
    (case json_match (CHR 0x7D) (rd (?q @ b @ CHR '':'' # c @ t @ d) (k # r)) of (close, s5) \<Rightarrow>
      if close then Some (JObject (map_store key v entries), s5)
      else json_object_loop m strtod_ok (map_store key v entries) (json_skip_ws (json_expect (CHR '','') s5)))"
    using 1 2 3 4 by (simp add: Let_def del: rd_match)
  then show ?thesis using routines_ws(2) [OF assms(2)] by simp
qed

lemma member_last:
  assumes "value_reads strtod_ok v t" "json_ws a" "json_ws b" "json_ws c" "json_ws d" "json_chars key s"
  shows "members_read strtod_ok [(key, v)] (a @ CHR 0x22 # s @ CHR 0x22 # b @ CHR '':'' # c @ t @ d)"
  unfolding members_read_def
proof (intro allI impI)
  fix pre r n entries
  assume n: "2 * length (a @ CHR 0x22 # s @ CHR 0x22 # b @ CHR '':'' # c @ t @ d) + 1 < n"
  then obtain m where m: "n = Suc m" "2 * length t < m" by (cases n) auto
  show "json_object_loop n strtod_ok entries (rd pre ((a @ CHR 0x22 # s @ CHR 0x22 # b @ CHR '':'' # c @ t @ d) @ CHR 0x7D # r)) =
      Some (JObject (store_all [(key, v)] entries), rd (pre @ (a @ CHR 0x22 # s @ CHR 0x22 # b @ CHR '':'' # c @ t @ d) @ [CHR 0x7D]) r)"
    using member_reads [OF assms, of "CHR 0x7D" r m entries pre] m by (simp add: store_all_def)
qed

lemma member_more:
  assumes "value_reads strtod_ok v t" "json_ws a" "json_ws b" "json_ws c" "json_ws d" "json_chars key s"
    "members_read strtod_ok kvs u"
  shows "members_read strtod_ok ((key, v) # kvs) (a @ CHR 0x22 # s @ CHR 0x22 # b @ CHR '':'' # c @ t @ d @ CHR '','' # u)"
  unfolding members_read_def
proof (intro allI impI)
  fix pre r n entries
  let ?h = "a @ CHR 0x22 # s @ CHR 0x22 # b @ CHR '':'' # c @ t @ d"
  assume n: "2 * length (a @ CHR 0x22 # s @ CHR 0x22 # b @ CHR '':'' # c @ t @ d @ CHR '','' # u) + 1 < n"
  then obtain m where m: "n = Suc m" "2 * length t < m" "2 * length u + 1 < m" by (cases n) auto
  have "json_object_loop m strtod_ok (map_store key v entries) (rd (pre @ ?h @ '','') (u @ CHR 0x7D # r)) =
      Some (JObject (store_all kvs (map_store key v entries)), rd ((pre @ ?h @ '','') @ u @ [CHR 0x7D]) r)"
    using assms(7) m(3) unfolding members_read_def by blast
  then show "json_object_loop n strtod_ok entries (rd pre ((a @ CHR 0x22 # s @ CHR 0x22 # b @ CHR '':'' # c @ t @ d @ CHR '','' # u) @ CHR 0x7D # r)) =
      Some (JObject (store_all ((key, v) # kvs) entries), rd (pre @ (a @ CHR 0x22 # s @ CHR 0x22 # b @ CHR '':'' # c @ t @ d @ CHR '','' # u) @ [CHR 0x7D]) r)"
    using member_reads [OF assms(1-6), of "CHR '',''" "u @ CHR 0x7D # r" m entries pre] m
    by (simp add: routines_skip_ws store_all_def)
qed

lemma value_readsI:
  assumes "\<And>pre r m. json_follow r \<Longrightarrow> 2 * length t \<le> m \<Longrightarrow>
    json_parse_value (Suc m) strtod_ok (rd pre (t @ r)) = Some (v, rd (pre @ t) r)"
  shows "value_reads strtod_ok v t"
  unfolding value_reads_def
proof (intro allI impI)
  fix pre r n
  assume "json_follow r" "2 * length t < n"
  with assms [of r "n - 1" pre] show "json_parse_value n strtod_ok (rd pre (t @ r)) = Some (v, rd (pre @ t) r)" by simp
qed

lemma plain_values:
  "value_reads strtod_ok JNull ''null''" "value_reads strtod_ok (JBool True) ''true''" "value_reads strtod_ok (JBool False) ''false''"
  by (rule value_readsI, simp add: skip_ws_here json_space_def json_parse_null_def json_parse_bool_def rd_word rd_skip_words Let_def)+

lemma number_reads:
  assumes "json_number_text f x" "number_value strtod_ok f x = Some v"
  shows "value_reads strtod_ok v x"
proof (rule value_readsI)
  fix pre r m
  assume r: "json_follow r"
  obtain c x' where c: "x = c # x'" "\<not> json_space c" using is_json_start [OF js_number [OF assms]] by blast
  moreover have "c = CHR ''-'' \<or> json_digit c"
  proof -
    obtain sg i y where "x = sg @ i @ y" "sg = [] \<or> sg = ''-''" "json_int_text i" using assms(1) by (auto simp: json_number_text_def)
    moreover then obtain c' cs where "i = c' # cs" "json_digit c'"
      using digits_cons [of i] digit_zero by (fastforce simp: json_int_text_def)
    ultimately show ?thesis using c(1) by auto
  qed
  then have "c \<noteq> CHR 0x7B \<and> c \<noteq> CHR ''['' \<and> c \<noteq> CHR 0x22 \<and> c \<noteq> CHR ''t'' \<and> c \<noteq> CHR ''f'' \<and> c \<noteq> CHR ''n'' \<and>
      (c = CHR ''-'' \<or> json_digit c)"
    by (auto simp: json_digit_def is_digit_def in_range_def)
  then show "json_parse_value (Suc m) strtod_ok (rd pre (x @ r)) = Some (v, rd (pre @ x) r)"
    using parse_number_complete [OF assms r, of pre] c by (simp add: skip_ws_here Let_def)
qed

lemma string_reads: "json_chars x t \<Longrightarrow> value_reads strtod_ok (JString x) (CHR 0x22 # t @ [CHR 0x22])"
  using parse_string_complete [of x t] by (intro value_readsI) (simp add: skip_ws_here Let_def)

lemma empty_array_reads: "json_ws w \<Longrightarrow> value_reads strtod_ok (JArray []) (CHR ''['' # w @ '']'')"
  by (rule value_readsI) (simp add: skip_ws_here skip_ws_over)

lemma empty_object_reads: "json_ws w \<Longrightarrow> value_reads strtod_ok (JObject []) (CHR 0x7B # w @ [CHR 0x7D])"
  by (rule value_readsI) (simp add: skip_ws_here skip_ws_over)

lemma elements_start: "json_elements strtod_ok vs t \<Longrightarrow> \<exists>a c t'. t = a @ c # t' \<and> json_ws a \<and> \<not> json_space c \<and> c \<noteq> CHR '']''"
  by (erule json_elements.cases; drule is_json_start; fastforce)

lemma members_start: "json_members strtod_ok kvs t \<Longrightarrow> \<exists>a t'. t = a @ CHR 0x22 # t' \<and> json_ws a"
  by (erule json_members.cases) blast+

lemma array_reads:
  assumes "json_elements strtod_ok vs t" "elements_read strtod_ok vs t"
  shows "value_reads strtod_ok (JArray vs) (CHR ''['' # t @ '']'')"
proof (rule value_readsI)
  fix pre r m
  assume m: "2 * length (CHR ''['' # t @ '']'') \<le> m"
  obtain a c t' where t: "t = a @ c # t'" "json_ws a" "\<not> json_space c" "c \<noteq> CHR '']''"
    using elements_start [OF assms(1)] by blast
  have "json_skip_ws (rd (pre @ ''['') (t @ CHR '']'' # r)) = rd (pre @ CHR ''['' # a) (c # t' @ CHR '']'' # r)"
    using t by (simp add: skip_ws_over skip_ws_here)
  moreover have "json_array_loop m strtod_ok [] (rd (pre @ CHR ''['' # a) (c # t' @ CHR '']'' # r)) =
      json_array_loop m strtod_ok [] (rd (pre @ ''['') (t @ CHR '']'' # r))"
    using calculation routines_skip_ws(2) by metis
  moreover have "json_array_loop m strtod_ok [] (rd (pre @ ''['') (t @ CHR '']'' # r)) =
      Some (JArray ([] @ vs), rd ((pre @ ''['') @ t @ '']'') r)"
    using assms(2) m unfolding elements_read_def by auto
  ultimately show "json_parse_value (Suc m) strtod_ok (rd pre ((CHR ''['' # t @ '']'') @ r)) =
      Some (JArray vs, rd (pre @ CHR ''['' # t @ '']'') r)"
    using t(4) by (simp add: skip_ws_here)
qed

lemma object_reads:
  assumes "json_members strtod_ok kvs t" "members_read strtod_ok kvs t"
  shows "value_reads strtod_ok (JObject (store_all kvs [])) (CHR 0x7B # t @ [CHR 0x7D])"
proof (rule value_readsI)
  fix pre r m
  assume m: "2 * length (CHR 0x7B # t @ [CHR 0x7D]) \<le> m"
  obtain a t' where t: "t = a @ CHR 0x22 # t'" "json_ws a" using members_start [OF assms(1)] by blast
  have "json_skip_ws (rd (pre @ [CHR 0x7B]) (t @ CHR 0x7D # r)) = rd (pre @ CHR 0x7B # a) (CHR 0x22 # t' @ CHR 0x7D # r)"
    using t by (simp add: skip_ws_over skip_ws_here)
  moreover have "json_object_loop m strtod_ok [] (rd (pre @ CHR 0x7B # a) (CHR 0x22 # t' @ CHR 0x7D # r)) =
      json_object_loop m strtod_ok [] (rd (pre @ [CHR 0x7B]) (t @ CHR 0x7D # r))"
    using calculation routines_skip_ws(3) by metis
  moreover have "json_object_loop m strtod_ok [] (rd (pre @ [CHR 0x7B]) (t @ CHR 0x7D # r)) =
      Some (JObject (store_all kvs []), rd ((pre @ [CHR 0x7B]) @ t @ [CHR 0x7D]) r)"
    using assms(2) m unfolding members_read_def by auto
  ultimately show "json_parse_value (Suc m) strtod_ok (rd pre ((CHR 0x7B # t @ [CHR 0x7D]) @ r)) =
      Some (JObject (store_all kvs []), rd (pre @ CHR 0x7B # t @ [CHR 0x7D]) r)"
    by (simp add: skip_ws_here)
qed

lemma json_complete:
  "is_json strtod_ok v t \<Longrightarrow> value_reads strtod_ok v t"
  "json_elements strtod_ok vs t \<Longrightarrow> elements_read strtod_ok vs t"
  "json_members strtod_ok kvs t \<Longrightarrow> members_read strtod_ok kvs t"
proof (induction rule: is_json_json_elements_json_members.inducts)
qed (auto intro: plain_values number_reads string_reads empty_array_reads empty_object_reads array_reads object_reads
    element_last element_more member_last member_more)

section \<open>Every text\<close>

definition routines_end :: "(string \<Rightarrow> bool) \<Rightarrow> nat \<Rightarrow> bool" where
  "routines_end strtod_ok n \<longleftrightarrow> (\<forall>pre r items entries.
     (2 * length r < n \<longrightarrow> json_parse_value n strtod_ok (rd pre r) \<noteq> None) \<and>
     (2 * length r + 1 < n \<longrightarrow> json_array_loop n strtod_ok items (rd pre r) \<noteq> None) \<and>
     (2 * length r + 1 < n \<longrightarrow> json_object_loop n strtod_ok entries (rd pre r) \<noteq> None))"

lemma failed_loops_end:
  "\<not> jp_ok s \<Longrightarrow> 0 < n \<Longrightarrow> json_array_loop n strtod_ok items s \<noteq> None"
  "\<not> jp_ok s \<Longrightarrow> 0 < n \<Longrightarrow> json_object_loop n strtod_ok entries s \<noteq> None"
  by (cases n; simp)+

lemma expect_skip_cases:
  assumes "k \<noteq> CHR 0x00"
  obtains "\<not> jp_ok (json_skip_ws (json_expect k (rd pre r)))"
  | p r' where "json_skip_ws (json_expect k (rd pre r)) = rd p r'" "length r' < length r"
proof (cases "\<exists>r1. r = k # r1")
  case True
  then obtain r1 where "r = k # r1" by blast
  then show ?thesis by (intro that(2) [of "pre @ k # takeWhile json_space r1" "dropWhile json_space r1"])
      (simp_all add: rd_skip_ws length_dropWhile_le less_Suc_eq_le)
next
  case False
  then show ?thesis using expect_ok [of k pre r] assms by (intro that(1)) (auto simp: skip_ws_ok)
qed

lemma parsed_shorter:
  assumes "json_parse_value n strtod_ok (rd pre r) = Some (v, s')" "jp_ok s'"
  obtains p r' where "json_skip_ws s' = rd p r'" "length r' < length r"
proof -
  from value_soundD [OF conjunct1 [OF json_sound] assms] obtain a t r1
    where t: "r = a @ t @ r1" "is_json strtod_ok v t" "s' = rd (pre @ a @ t) r1" by blast
  have "length (dropWhile json_space r1) < length r"
    using t(1) is_json_start [OF t(2)] length_dropWhile_le [of json_space r1] by auto
  then show ?thesis using that t(3) by (simp add: rd_skip_ws)
qed

lemma match_end: "k \<noteq> CHR 0x00 \<Longrightarrow> json_match k (rd p r) = (b, s) \<Longrightarrow> \<not> b \<Longrightarrow> s = rd p r"
  by (cases r) (auto split: if_splits)

lemma array_loop_ends:
  assumes IH: "routines_end strtod_ok n" and n: "2 * length r < n"
  shows "json_array_loop (Suc n) strtod_ok items (rd pre r) \<noteq> None"
proof -
  obtain v s1 where v: "json_parse_value n strtod_ok (rd pre r) = Some (v, s1)"
    using IH n unfolding routines_end_def by fastforce
  show ?thesis
  proof (cases "jp_ok s1")
    case True
    from parsed_shorter [OF v this] obtain p r' where r': "json_skip_ws s1 = rd p r'" "length r' < length r" by blast
    have "json_array_loop n strtod_ok (items @ [v]) (json_skip_ws (json_expect (CHR '','') (rd p r'))) \<noteq> None"
    proof (rule expect_skip_cases [of "CHR '',''" p r'])
      fix q r''
      assume "json_skip_ws (json_expect (CHR '','') (rd p r')) = rd q r''" "length r'' < length r'"
      with IH n r'(2) show ?thesis unfolding routines_end_def by simp
    qed (use failed_loops_end n in simp_all)
    then show ?thesis using v True r' match_end [of "CHR '']''" p r'] by (auto split: prod.split)
  qed (simp add: v)
qed

lemma object_loop_ends:
  assumes IH: "routines_end strtod_ok n" and n: "2 * length r < n"
  shows "json_object_loop (Suc n) strtod_ok entries (rd pre r) \<noteq> None"
proof (cases "\<exists>r1. dropWhile json_space r = CHR 0x22 # r1")
  case False
  then have "json_peek (rd (pre @ takeWhile json_space r) (dropWhile json_space r)) \<noteq> CHR 0x22"
    by (cases "dropWhile json_space r") (auto simp del: dropWhile_eq_Nil_conv)
  then show ?thesis by (simp add: rd_skip_ws Let_def)
next
  case True
  then obtain r1 where r1: "dropWhile json_space r = CHR 0x22 # r1" by blast
  let ?p = "pre @ takeWhile json_space r"
  obtain key s2 where k: "json_parse_string (rd ?p (CHR 0x22 # r1)) = (key, s2)" by fastforce
  let ?s3 = "json_expect (CHR '':'') (json_skip_ws s2)"
  show ?thesis
  proof (cases "jp_ok s2 \<and> jp_ok ?s3")
    case True
    from parse_string_ok [OF k] True obtain t r2 where t: "r1 = t @ CHR 0x22 # r2" "s2 = rd (?p @ CHR 0x22 # t @ [CHR 0x22]) r2"
      by blast
    with True obtain r3 where r3: "dropWhile json_space r2 = CHR '':'' # r3"
      using expect_ok [of "CHR '':''"] by (auto simp: rd_skip_ws)
    have "length r3 < length r"
      using arg_cong [OF drop_space [OF r1], of length] arg_cong [OF drop_space [OF r3], of length] t(1) by simp
    moreover obtain q where s3: "?s3 = rd q r3" using t(2) r3 by (auto simp: rd_skip_ws)
    ultimately obtain v s4 where v: "json_parse_value n strtod_ok (rd q r3) = Some (v, s4)"
      using IH n unfolding routines_end_def by fastforce
    show ?thesis
    proof (cases "jp_ok s4")
      case ok: True
      from parsed_shorter [OF v ok] obtain p r' where r': "json_skip_ws s4 = rd p r'" "length r' < length r3" by blast
      have "json_object_loop n strtod_ok (map_store key v entries) (json_skip_ws (json_expect (CHR '','') (rd p r'))) \<noteq> None"
      proof (rule expect_skip_cases [of "CHR '',''" p r'])
        fix q r''
        assume "json_skip_ws (json_expect (CHR '','') (rd p r')) = rd q r''" "length r'' < length r'"
        with IH n r'(2) \<open>length r3 < length r\<close> show ?thesis unfolding routines_end_def by simp
      qed (use failed_loops_end n in simp_all)
      then show ?thesis using r1 k True s3 v ok r' match_end [of "CHR 0x7D" p r']
        by (auto simp: rd_skip_ws [of pre] Let_def split: prod.split)
    qed (use r1 k True s3 v in \<open>simp add: rd_skip_ws [of pre] Let_def\<close>)
  qed (use r1 k in \<open>auto simp: rd_skip_ws [of pre] Let_def\<close>)
qed

lemma value_ends:
  assumes IH: "routines_end strtod_ok m" and r: "2 * length r < Suc m"
  shows "json_parse_value (Suc m) strtod_ok (rd pre r) \<noteq> None"
proof (cases "dropWhile json_space r")
  case Nil
  then show ?thesis by (simp add: rd_skip_ws Let_def json_digit_def is_digit_def in_range_def del: dropWhile_eq_Nil_conv)
next
  case (Cons c r1)
  have len: "2 * length (dropWhile json_space r1) + 1 < m"
    using arg_cong [OF drop_space [OF Cons], of length] length_dropWhile_le [of json_space r1] r by simp
  have ends: "json_array_loop m strtod_ok [] (rd q (dropWhile json_space r1)) \<noteq> None"
    "json_object_loop m strtod_ok [] (rd q (dropWhile json_space r1)) \<noteq> None" for q
    using IH len unfolding routines_end_def by blast+
  let ?q = "(pre @ takeWhile json_space r) @ c # takeWhile json_space r1"
  obtain b1 s1 b2 s2 where m: "json_match (CHR 0x7D) (rd ?q (dropWhile json_space r1)) = (b1, s1)"
    "json_match (CHR '']'') (rd ?q (dropWhile json_space r1)) = (b2, s2)" by fastforce
  have loops: "\<not> b1 \<Longrightarrow> json_object_loop m strtod_ok [] s1 \<noteq> None" "\<not> b2 \<Longrightarrow> json_array_loop m strtod_ok [] s2 \<noteq> None"
    using ends match_end [OF _ m(1)] match_end [OF _ m(2)] by auto
  consider "c = CHR 0x7B" | "c = CHR ''[''" | "c \<noteq> CHR 0x7B" "c \<noteq> CHR ''[''" by blast
  then show ?thesis
  proof cases
    case 1
    then show ?thesis using loops(1) m(1) by (simp add: rd_skip_ws Cons Let_def del: rd_match)
  next
    case 2
    then show ?thesis using loops(2) m(2) by (simp add: rd_skip_ws Cons Let_def del: rd_match)
  next
    case 3
    then show ?thesis by (simp add: rd_skip_ws Cons Let_def)
  qed
qed

lemma json_ends: "routines_end strtod_ok n"
proof (induction n)
  case (Suc n)
  then show ?case
    unfolding routines_end_def [of strtod_ok "Suc n"] using value_ends array_loop_ends object_loop_ends by auto
qed (simp add: routines_end_def)

lemma reader_start: "new_json_reader x = rd [] x"
  by (simp add: new_json_reader_def rd_def)

lemma json_parse_document:
  "json_parse (2 * length x + 1 + k) strtod_ok x \<noteq> None \<and>
   (json_parse (2 * length x + 1 + k) strtod_ok x = Some (Inr v)) = json_document strtod_ok v x"
proof -
  define n where "n = 2 * length x + 1 + k"
  then have enough: "2 * length x < n" by simp
  have "json_parse n strtod_ok x \<noteq> None"
  proof -
    have "json_parse_value n strtod_ok (rd [] x) \<noteq> None"
      using json_ends [of strtod_ok n] enough unfolding routines_end_def by simp
    then obtain w s where "json_parse_value n strtod_ok (rd [] x) = Some (w, s)" by auto
    then show ?thesis by (simp add: json_parse_def reader_start routines_skip_ws Let_def)
  qed
  moreover have "(json_parse n strtod_ok x = Some (Inr v)) = json_document strtod_ok v x"
  proof
    assume "json_parse n strtod_ok x = Some (Inr v)"
    then obtain s where s: "json_parse_value n strtod_ok (rd [] x) = Some (v, s)" "jp_ok s"
      "jp_pos (json_skip_ws s) = length (jp_text (json_skip_ws s))"
      by (auto simp: json_parse_def reader_start routines_skip_ws Let_def split: option.splits if_splits)
    from value_soundD [OF conjunct1 [OF json_sound] s(1,2)] obtain a t r
      where t: "x = a @ t @ r" "json_ws a" "is_json strtod_ok v t" "s = rd ([] @ a @ t) r" by blast
    have "length (takeWhile json_space r) = length r" using s(3) by (simp add: t(4) rd_skip_ws)
    then have "takeWhile json_space r = r" using takeWhile_eq_take [of json_space r] by simp
    then have "json_ws r" using json_ws_take [of r] by (simp del: takeWhile_eq_all_conv)
    with t show "json_document strtod_ok v x" unfolding json_document_def by blast
  next
    assume "json_document strtod_ok v x"
    then obtain a t b where x: "x = a @ t @ b" "json_ws a" "is_json strtod_ok v t" "json_ws b"
      unfolding json_document_def by blast
    have "json_follow b" using x(4) by (cases b) (auto simp: json_follow_def json_ws_def)
    moreover have "2 * length t < n" using enough x(1) by simp
    ultimately have "json_parse_value n strtod_ok (rd a (t @ b)) = Some (v, rd (a @ t) b)"
      using json_complete(1) [OF x(3)] unfolding value_reads_def by blast
    moreover have "json_skip_ws (rd (a @ t) b) = rd (a @ t @ b) []"
      using skip_ws_over [OF x(4), of "a @ t" "[]"] by (simp add: rd_skip_ws)
    ultimately show "json_parse n strtod_ok x = Some (Inr v)"
      using routines_ws(1) [OF x(2), of n strtod_ok "[]" "t @ b"] x(1)
      by (simp add: json_parse_def reader_start routines_skip_ws)
  qed
  ultimately show ?thesis
    unfolding n_def by blast
qed

text \<open>
  C2. The reader accepts exactly the JSON texts: with fuel from twice the length of the text on, a run ends,
  and it returns a value just when the text, with white space around it, is a JSON text for that value.
  Every other text is answered with an error.
\<close>

theorem json_parse_exact:
  "json_parse (2 * length x + 1 + k) strtod_ok x \<noteq> None \<and>
   (json_parse (2 * length x + 1 + k) strtod_ok x = Some (Inr v)) = json_document strtod_ok v x"
  by (rule json_parse_document)

end
