(* ===== verification/Json_Writer.thy ===== *)
theory Json_Writer
  imports Json_Complete Lexer_Roundtrip
begin

text \<open>
  The JSON text of the language server (\<open>include/analyze/json_util.hpp\<close>): quoting a string, and the class
  \<open>object_view\<close> that picks fields out of a request without parsing it. The first part is shown to produce
  JSON strings that read back; the second is compared with the reader.
\<close>

section \<open>Quoting\<close>

definition hex_lower :: "nat \<Rightarrow> char" where
  "hex_lower n = (if n < 10 then char_of (48 + n) else char_of (87 + n))"

text \<open>One character of \<open>append_escaped\<close>; \<open>%04x\<close> of a control character has two leading zeros.\<close>

definition escaped_char :: "char \<Rightarrow> string" where
  "escaped_char c =
     (if c = CHR 0x22 then [CHR 0x5C, CHR 0x22]
      else if c = CHR 0x5C then [CHR 0x5C, CHR 0x5C]
      else if c = CHR 0x08 then [CHR 0x5C, CHR ''b'']
      else if c = CHR 0x0C then [CHR 0x5C, CHR ''f'']
      else if c = CHR 0x0A then [CHR 0x5C, CHR ''n'']
      else if c = CHR 0x0D then [CHR 0x5C, CHR ''r'']
      else if c = CHR 0x09 then [CHR 0x5C, CHR ''t'']
      else if of_char c < (32 :: nat)
        then [CHR 0x5C, CHR ''u'', CHR ''0'', CHR ''0'', hex_lower (of_char c div 16), hex_lower (of_char c mod 16)]
      else [c])"

definition append_escaped :: "string \<Rightarrow> string \<Rightarrow> string" where
  "append_escaped out x = foldl (\<lambda>out c. out @ escaped_char c) (out @ [CHR 0x22]) x @ [CHR 0x22]"

definition quote :: "string \<Rightarrow> string" where
  "quote x = append_escaped [] x"

section \<open>Fields of a request\<close>

text \<open>\<open>std::isspace\<close> in the C locale.\<close>

definition c_isspace :: "char \<Rightarrow> bool" where
  "c_isspace c \<longleftrightarrow> c = CHR '' '' \<or> 9 \<le> (of_char c :: nat) \<and> (of_char c :: nat) \<le> 13"

text \<open>What follows the first occurrence of the needle (\<open>find\<close>, then the position behind it).\<close>

fun text_after :: "string \<Rightarrow> string \<Rightarrow> string option" where
  "text_after needle [] = (if needle = [] then Some [] else None)"
| "text_after needle (c # cs) =
     (if take (length needle) (c # cs) = needle then Some (drop (length needle) (c # cs)) else text_after needle cs)"

definition needle :: "string \<Rightarrow> string" where
  "needle key = CHR 0x22 # key @ [CHR 0x22]"

text \<open>The text of a string up to its closing quote, escapes left as they are.\<close>

fun quoted_raw :: "string \<Rightarrow> string option" where
  "quoted_raw [] = None"
| "quoted_raw [c] = (if c = CHR 0x22 then Some [] else None)"
| "quoted_raw (c # d # cs) =
     (if c = CHR 0x5C then map_option (\<lambda>x. c # d # x) (quoted_raw cs)
      else if c = CHR 0x22 then Some []
      else map_option ((#) c) (quoted_raw (d # cs)))"

definition ends_scalar :: "char \<Rightarrow> bool" where
  "ends_scalar c \<longleftrightarrow> c = CHR '','' \<or> c = CHR 0x7D \<or> c = CHR '']'' \<or> c_isspace c"

definition raw_value :: "string \<Rightarrow> string" where
  "raw_value x = (case x of
     [] \<Rightarrow> []
   | c # cs \<Rightarrow> if c = CHR 0x22 then (case quoted_raw cs of None \<Rightarrow> [] | Some r \<Rightarrow> r)
             else takeWhile (\<lambda>c. \<not> ends_scalar c) x)"

text \<open>The loop of \<open>find_value\<close> returns in its first turn on every path.\<close>

definition find_value :: "string \<Rightarrow> string \<Rightarrow> string" where
  "find_value key x = (case text_after (needle key) x of
     None \<Rightarrow> []
   | Some y \<Rightarrow> (case text_after '':'' y of
       None \<Rightarrow> []
     | Some z \<Rightarrow> raw_value (dropWhile c_isspace z)))"

definition has_field :: "string \<Rightarrow> string \<Rightarrow> bool" where
  "has_field key x \<longleftrightarrow> text_after (needle key) x \<noteq> None"

fun unescape :: "string \<Rightarrow> string" where
  "unescape [] = []"
| "unescape [c] = [c]"
| "unescape (c # n # cs) =
     (if c = CHR 0x5C
      then (if n = CHR ''n'' then CHR 0x0A else if n = CHR ''t'' then CHR 0x09 else if n = CHR ''r'' then CHR 0x0D else n)
           # unescape cs
      else c # unescape (n # cs))"

definition string_field :: "string \<Rightarrow> string \<Rightarrow> string \<Rightarrow> string" where
  "string_field key fallback x =
     (let raw = find_value key x in if raw = [] \<and> \<not> has_field key x then fallback else unescape raw)"

text \<open>
  \<open>strtoll\<close> in base 10: the saturated value, and the number of characters up to \<open>end\<close>, 0 when there is no
  digit.
\<close>

definition strtoll10 :: "string \<Rightarrow> int \<times> nat" where
  "strtoll10 x =
     (let y = dropWhile c_isspace x;
          sign = (case y of [] \<Rightarrow> [] | c # _ \<Rightarrow> if c = CHR ''+'' \<or> c = CHR ''-'' then [c] else []);
          ds = takeWhile is_digit (drop (length sign) y);
          v = (if sign = ''-'' then - decimal_value ds else decimal_value ds)
      in if ds = [] then (0, 0)
         else (max (- 9223372036854775808) (min 9223372036854775807 v), length x - length y + length sign + length ds))"

text \<open>
  \<open>int_field\<close> compares \<open>end\<close>, which points into a string that is gone, with the start of a second copy of
  the text: \<open>end_is_start raw n\<close> is what that comparison gives when \<open>end\<close> is \<open>n\<close> characters into the first.
\<close>

definition int_field :: "(string \<Rightarrow> nat \<Rightarrow> bool) \<Rightarrow> string \<Rightarrow> int \<Rightarrow> string \<Rightarrow> int" where
  "int_field end_is_start key fallback x =
     (let raw = find_value key x in
      if raw = [] then fallback
      else case strtoll10 raw of (v, n) \<Rightarrow> if end_is_start raw n then fallback else v)"

section \<open>Quoted strings are JSON strings\<close>

definition escaped :: "string \<Rightarrow> string" where
  "escaped x = concat (map escaped_char x)"

lemma quote_escaped: "quote x = CHR 0x22 # escaped x @ [CHR 0x22]"
proof -
  have "foldl (\<lambda>out c. out @ escaped_char c) out x = out @ escaped x" for out
    by (induction x arbitrary: out) (simp_all add: escaped_def)
  then show ?thesis by (simp add: quote_def append_escaped_def)
qed

lemma hex_lower_digit: "n < 16 \<Longrightarrow> hex_digit (hex_lower n) = Some n"
  by (simp add: hex_digit_def hex_lower_def Let_def)

lemma hex_digit_zero: "hex_digit (CHR ''0'') = Some 0"
  by (simp add: hex_digit_def)

lemma escaped_char_cases:
  obtains e where "escaped_char c = [CHR 0x5C, e]" "simple_escape e = Some c"
  | "escaped_char c = [CHR 0x5C, CHR ''u'', CHR ''0'', CHR ''0'', hex_lower (of_char c div 16), hex_lower (of_char c mod 16)]"
    "of_char c < (32 :: nat)"
  | "escaped_char c = [c]" "c \<noteq> CHR 0x22" "c \<noteq> CHR 0x5C" "32 \<le> (of_char c :: nat)"
proof (cases "c \<in> {CHR 0x22, CHR 0x5C, CHR 0x08, CHR 0x0C, CHR 0x0A, CHR 0x0D, CHR 0x09}")
  case True
  then have "\<exists>e. escaped_char c = [CHR 0x5C, e] \<and> simple_escape e = Some c"
    by (auto simp: escaped_char_def simple_escape_def)
  with that(1) show ?thesis by blast
next
  case False
  then show ?thesis using that(2,3) by (cases "of_char c < (32 :: nat)") (simp_all add: escaped_char_def)
qed

lemma escaped_char_chars:
  assumes t: "json_chars y t"
  shows "json_chars (c # y) (escaped_char c @ t)"
proof (cases c rule: escaped_char_cases)
  case (1 e)
  with jc_escape [OF 1(2) t] show ?thesis by simp
next
  case 2
  let ?n = "of_char c :: nat"
  have d: "hex_digit (CHR ''0'') = Some 0" "hex_digit (hex_lower (?n div 16)) = Some (?n div 16)"
    "hex_digit (hex_lower (?n mod 16)) = Some (?n mod 16)"
    using 2(2) by (simp_all add: hex_lower_digit hex_digit_zero)
  have "utf8_unit (4096 * 0 + 256 * 0 + 16 * (?n div 16) + ?n mod 16) = [c]"
    using 2(2) by (simp add: utf8_unit_def)
  with jc_unicode [OF d(1,1,2,3) t] 2(1) show ?thesis by simp
next
  case 3
  with jc_plain [OF 3(2-4) t] show ?thesis by simp
qed

lemma escaped_chars: "json_chars x (escaped x)"
  by (induction x) (simp_all add: escaped_def jc_nil escaped_char_chars)

lemma is_json_quote: "is_json strtod_ok (JString x) (quote x)"
  unfolding quote_escaped by (rule js_string) (rule escaped_chars)

section \<open>Integers\<close>

lemma char_of_zero: "char_of (48 :: nat) = CHR ''0''"
proof -
  have "(of_char (CHR ''0'') :: nat) = 48" by simp
  then show ?thesis by (metis char_of_char)
qed

lemma char_of_digit: "char_of (48 + n :: nat) = CHR ''0'' \<Longrightarrow> n < 10 \<Longrightarrow> n = 0"
proof -
  assume "char_of (48 + n :: nat) = CHR ''0''" "n < 10"
  then have "(of_char (char_of (48 + n :: nat)) :: nat) = of_char (CHR ''0'')" by simp
  with \<open>n < 10\<close> show ?thesis by simp
qed

lemma decimal_head: "0 < n \<Longrightarrow> hd (decimal n) \<noteq> CHR ''0''"
proof (induction n rule: decimal.induct)
  case (1 n)
  have "decimal k \<noteq> []" for k using decimal_digits by blast
  with 1 show ?case
    using char_of_digit [of n] by (cases "n < 10") (auto simp: decimal.simps [of n] digit_char_def)
qed

lemma decimal_text: "json_int_text (decimal n)"
proof (cases "n = 0")
  case True
  then show ?thesis by (simp add: json_int_text_def decimal.simps digit_char_def char_of_zero)
next
  case False
  then show ?thesis
    using decimal_digits [of n] decimal_head [of n] by (auto simp: json_int_text_def json_digits_def json_digit_def list_all_iff)
qed

lemma is_json_to_string:
  assumes "fits_int64 i"
  shows "is_json strtod_ok (JInt i) (to_string i)"
proof -
  obtain sg k where k: "to_string i = sg @ decimal k" "sg = [] \<or> sg = ''-''" "i = (if sg = [] then int k else - int k)"
    by (cases "i < 0") (auto simp: to_string_def intro: that [of "''-''" "nat (- i)"] that [of "[]" "nat i"])
  have t: "json_number_text False (to_string i)"
    unfolding json_number_text_def k(1)
    using k(2) decimal_text [of k] by (intro exI [of _ sg] exI [of _ "decimal k"] exI [of _ "[]"]) (simp add: json_frac_text_def json_exp_text_def)
  obtain c cs where c: "decimal k = c # cs" "c \<noteq> CHR ''-''"
    using decimal_digits [of k] digit_not by (cases "decimal k") (auto simp: json_digit_def)
  have "json_integer (to_string i) = i"
    using k c decimal_digits [of k] by (auto simp: json_integer_def)
  with assms have "number_value strtod_ok False (to_string i) = Some (JInt i)" by (simp add: number_value_def)
  with t show ?thesis by (rule js_number)
qed

section \<open>Arrays and objects\<close>

text \<open>Texts separated by commas, as the loops with \<open>if (i != 0) out += ','\<close> write them.\<close>

fun comma_join :: "string list \<Rightarrow> string" where
  "comma_join [] = []"
| "comma_join [x] = x"
| "comma_join (x # y # zs) = x @ '','' @ comma_join (y # zs)"

lemma elements_join:
  "list_all2 (is_json strtod_ok) vs ts \<Longrightarrow> ts \<noteq> [] \<Longrightarrow> json_elements strtod_ok vs (comma_join ts)"
proof (induction ts arbitrary: vs rule: comma_join.induct)
  case (2 x)
  then obtain v where "vs = [v]" "is_json strtod_ok v x" by (auto simp: list_all2_Cons2)
  then show ?case using js_element [of "[]" strtod_ok v x "[]"] by (simp add: json_ws_def)
next
  case (3 x y zs)
  then obtain v vs' where "vs = v # vs'" "is_json strtod_ok v x" "list_all2 (is_json strtod_ok) vs' (y # zs)"
    by (auto simp: list_all2_Cons2)
  with 3 show ?case
    using js_elements [of "[]" strtod_ok v x "[]" vs' "comma_join (y # zs)"] by (simp add: json_ws_def)
qed simp

lemma is_json_list:
  "list_all2 (is_json strtod_ok) vs ts \<Longrightarrow> is_json strtod_ok (JArray vs) (CHR ''['' # comma_join ts @ '']'')"
  using elements_join [of strtod_ok vs ts] js_array js_empty_array [of "[]" strtod_ok]
  by (cases "ts = []") (auto simp: json_ws_def)

definition member_text :: "string \<times> string \<Rightarrow> string" where
  "member_text m = CHR 0x22 # fst m @ CHR 0x22 # '':'' @ snd m"

definition plain_key :: "string \<Rightarrow> bool" where
  "plain_key k \<longleftrightarrow> list_all (\<lambda>c. c \<noteq> CHR 0x22 \<and> c \<noteq> CHR 0x5C \<and> 32 \<le> (of_char c :: nat)) k"

lemma plain_key_chars: "plain_key k \<Longrightarrow> json_chars k k"
  by (induction k) (auto simp: plain_key_def intro: jc_nil jc_plain)

definition member_of :: "(string \<Rightarrow> bool) \<Rightarrow> string \<times> json_value \<Rightarrow> string \<times> string \<Rightarrow> bool" where
  "member_of strtod_ok kv m \<longleftrightarrow> fst kv = fst m \<and> plain_key (fst m) \<and> is_json strtod_ok (snd kv) (snd m)"

lemma member_plain:
  assumes "member_of strtod_ok kv m"
  shows "json_members strtod_ok [kv] (member_text m)"
    and "json_members strtod_ok kvs u \<Longrightarrow> json_members strtod_ok (kv # kvs) (member_text m @ '','' @ u)"
proof -
  have m: "kv = (fst m, snd kv)" "json_chars (fst m) (fst m)" "is_json strtod_ok (snd kv) (snd m)" and w: "json_ws []"
    using assms plain_key_chars by (auto simp: member_of_def json_ws_def prod_eq_iff)
  show "json_members strtod_ok [kv] (member_text m)"
    using js_member [OF w m(2) w w m(3) w] m(1) by (simp add: member_text_def)
  show "json_members strtod_ok (kv # kvs) (member_text m @ '','' @ u)" if "json_members strtod_ok kvs u"
    using js_members [OF w m(2) w w m(3) w that] m(1) by (simp add: member_text_def)
qed

lemma members_join:
  "list_all2 (member_of strtod_ok) kvs ms \<Longrightarrow> ms \<noteq> [] \<Longrightarrow> json_members strtod_ok kvs (comma_join (map member_text ms))"
proof (induction rule: list_all2_induct)
  case (Cons kv kvs m ms)
  then show ?case
    using member_plain(1) [of strtod_ok kv m] member_plain(2) [of strtod_ok kv m kvs "comma_join (map member_text ms)"]
    by (cases ms) auto
qed simp

lemma store_new: "key \<notin> fst ` set es \<Longrightarrow> map_store key v es = es @ [(key, v)]"
  by (induction key v es rule: map_store.induct) auto

lemma store_all_distinct: "distinct (map fst (es @ kvs)) \<Longrightarrow> store_all kvs es = es @ kvs"
proof (induction kvs arbitrary: es)
  case (Cons kv kvs)
  then show ?case using store_new [of "fst kv" es "snd kv"] by (cases kv) (auto simp: store_all_def)
qed (simp add: store_all_def)

lemma is_json_object:
  assumes "list_all2 (member_of strtod_ok) kvs ms" "ms \<noteq> []" "distinct (map fst ms)"
  shows "is_json strtod_ok (JObject kvs) (CHR 0x7B # comma_join (map member_text ms) @ [CHR 0x7D])"
proof -
  have "map fst kvs = map fst ms"
    using assms(1) by (induction rule: list_all2_induct) (auto simp: member_of_def)
  then have "store_all kvs [] = kvs" using store_all_distinct [of "[]" kvs] assms(3) by simp
  with js_object [OF members_join [OF assms(1,2)]] show ?thesis by simp
qed

section \<open>What a request's field gives back\<close>

text \<open>What the reader of requests makes of a character that was quoted.\<close>

definition request_char :: "char \<Rightarrow> string" where
  "request_char c = (if of_char c < (32 :: nat) \<and> c \<notin> {CHR 0x0A, CHR 0x0D, CHR 0x09} then tl (escaped_char c) else [c])"

lemma hex_lower_plain: "n < 16 \<Longrightarrow> hex_lower n \<noteq> CHR 0x22 \<and> hex_lower n \<noteq> CHR 0x5C"
  using hex_lower_digit [of n] by (auto simp: hex_digit_def)

lemma quoted_raw_plain: "c \<noteq> CHR 0x22 \<Longrightarrow> c \<noteq> CHR 0x5C \<Longrightarrow> quoted_raw (c # x) = map_option ((#) c) (quoted_raw x)"
  by (cases x) simp_all

lemma unescape_plain: "c \<noteq> CHR 0x5C \<Longrightarrow> unescape (c # x) = c # unescape x"
  by (cases x) simp_all

lemma quoted_raw_escaped: "quoted_raw (escaped v @ CHR 0x22 # rest) = Some (escaped v)"
proof (induction v)
  case Nil
  then show ?case by (cases rest) (simp_all add: escaped_def)
next
  case (Cons c v)
  have "quoted_raw (escaped_char c @ x) = map_option ((@) (escaped_char c)) (quoted_raw x)" for x
  proof (cases c rule: escaped_char_cases)
    case 2
    moreover have "of_char c div 16 < (16 :: nat)" "of_char c mod 16 < (16 :: nat)" using 2(2) by simp_all
    ultimately show ?thesis
      using hex_lower_plain by (cases "quoted_raw x") (simp_all add: quoted_raw_plain)
  next
    case 3
    then show ?thesis by (cases "quoted_raw x") (simp_all add: quoted_raw_plain)
  qed (cases "quoted_raw x"; simp)
  with Cons show ?case by (simp add: escaped_def)
qed

lemma unescape_escaped: "unescape (escaped v) = concat (map request_char v)"
proof (induction v)
  case (Cons c v)
  have "unescape (escaped_char c @ x) = request_char c @ unescape x" for x
  proof (cases "c \<in> {CHR 0x22, CHR 0x5C, CHR 0x08, CHR 0x0C, CHR 0x0A, CHR 0x0D, CHR 0x09}")
    case True
    then show ?thesis by (elim insertE emptyE) (simp_all add: escaped_char_def request_char_def)
  next
    case False
    then have c: "escaped_char c = (if of_char c < (32 :: nat) then [CHR 0x5C, CHR ''u'', CHR ''0'', CHR ''0'',
        hex_lower (of_char c div 16), hex_lower (of_char c mod 16)] else [c])"
      "request_char c = (if of_char c < (32 :: nat) then tl (escaped_char c) else [c])" "c \<noteq> CHR 0x5C"
      by (simp_all add: escaped_char_def request_char_def)
    show ?thesis
    proof (cases "of_char c < (32 :: nat)")
      case True
      then have "of_char c div 16 < (16 :: nat)" "of_char c mod 16 < (16 :: nat)" by simp_all
      with hex_lower_plain c True show ?thesis by (simp add: unescape_plain)
    qed (simp add: c unescape_plain)
  qed
  with Cons show ?case by (simp add: escaped_def)
qed (simp add: escaped_def)

definition request_safe :: "char \<Rightarrow> bool" where
  "request_safe c \<longleftrightarrow> 32 \<le> (of_char c :: nat) \<or> c \<in> {CHR 0x0A, CHR 0x0D, CHR 0x09}"

lemma request_char_cases: "request_char c \<noteq> [] \<and> (request_char c = [c]) = request_safe c \<and> (length (request_char c) = 1 \<longrightarrow> request_char c = [c] \<or> \<not> request_safe c)"
proof (cases "c \<in> {CHR 0x22, CHR 0x5C, CHR 0x08, CHR 0x0C, CHR 0x0A, CHR 0x0D, CHR 0x09}")
  case True
  then show ?thesis by (elim insertE emptyE) (simp_all add: escaped_char_def request_char_def request_safe_def)
next
  case False
  then show ?thesis by (simp add: escaped_char_def request_char_def request_safe_def)
qed

lemma requests_longer: "length v \<le> length (concat (map request_char v))"
proof (induction v)
  case (Cons c v)
  then show ?case using request_char_cases [of c] by (cases "request_char c") auto
qed simp

lemma request_identity: "concat (map request_char v) = v \<longleftrightarrow> list_all request_safe v"
proof (induction v)
  case (Cons c v)
  obtain d ds where d: "request_char c = d # ds" using request_char_cases [of c] by (cases "request_char c") auto
  have "ds = []" if "ds @ concat (map request_char v) = v"
  proof -
    have "length ds + length (concat (map request_char v)) = length v" using arg_cong [OF that, of length] by simp
    then have "length ds = 0" using requests_longer [of v] by linarith
    then show ?thesis by simp
  qed
  then have "ds @ concat (map request_char v) = v \<longleftrightarrow> ds = [] \<and> concat (map request_char v) = v" by auto
  with Cons d request_char_cases [of c] show ?case by auto
qed simp

lemma raw_value_quote: "raw_value (quote v @ rest) = escaped v"
  by (simp add: quote_escaped raw_value_def quoted_raw_escaped)

text \<open>
  C35. A field of a request whose value was quoted gives back the string just when the string has no control
  character but newline, carriage return and tab. The escapes of the others are not undone: a backspace comes
  back as the letter b, a form feed as f, and \<open>\u0001\<close> as \<open>u0001\<close>.
\<close>

theorem string_field_reads_back_iff:
  assumes "text_after (needle key) x = Some ('':'' @ quote v @ rest)"
  shows "(string_field key fallback x = v) = list_all request_safe v"
proof -
  have "find_value key x = escaped v"
    using assms raw_value_quote [of v rest] by (simp add: find_value_def quote_escaped c_isspace_def)
  with assms have "string_field key fallback x = concat (map request_char v)"
    by (simp add: string_field_def has_field_def unescape_escaped)
  then show ?thesis by (simp add: request_identity)
qed

theorem string_field_reads_back_iff_witness:
  "string_field ''text'' [] (''{\"text\":'' @ quote [CHR ''a'', CHR 0x08] @ ''}'') \<noteq> [CHR ''a'', CHR 0x08]"
  using string_field_reads_back_iff [of "''text''" "''{\"text\":'' @ quote [CHR ''a'', CHR 0x08] @ ''}''" "[CHR ''a'', CHR 0x08]" "''}''" "[]"]
  by (simp add: needle_def request_safe_def)

end
