(* ===== verification/Semantic_Index.thy ===== *)
theory Semantic_Index
  imports Ast
begin

text \<open>
  The semantic index of the language server (\<open>include/semantic_index.hpp\<close>): occurrences of names, outline
  symbols, types and functions, and the lookups. The type checker fills the index; here it is data.
\<close>

section \<open>The data\<close>

datatype (plugins only: code) symbol_kind =
  KindVar | KindParam | KindFunc | KindType | KindField | KindEnumMember | KindBuiltin | KindPackage

record semantic_occurrence =
  occ_name :: string
  occ_kind :: symbol_kind
  occ_type :: string
  occ_span :: diag_span
  occ_def :: diag_span
  occ_is_def :: bool

datatype outline_symbol =
  OutlineSymbol (out_name: string) (out_kind: symbol_kind) (out_detail: string) (out_range: diag_span)
    (out_selection: diag_span) (out_children: "outline_symbol list")

record type_info_entry =
  ti_name :: string
  ti_kind :: string
  ti_fields :: "(string \<times> string) list"
  ti_members :: "string list"
  ti_def :: diag_span

record function_info_entry =
  fi_name :: string
  fi_params :: "(string \<times> string) list"
  fi_return_type :: string
  fi_signature :: string
  fi_def :: diag_span

record semantic_index =
  idx_occurrences :: "semantic_occurrence list"
  idx_symbols :: "outline_symbol list"
  idx_types :: "type_info_entry list"
  idx_functions :: "function_info_entry list"
  idx_package_name :: string
  idx_package_span :: diag_span

definition no_span :: diag_span where
  "no_span = \<lparr>span_file = [], span_line = 0, span_column = 0, span_end_line = 0, span_end_column = 0\<rparr>"

definition empty_index :: semantic_index where
  "empty_index = \<lparr>idx_occurrences = [], idx_symbols = [], idx_types = [], idx_functions = [], idx_package_name = [],
     idx_package_span = no_span\<rparr>"

definition add_occurrence :: "semantic_occurrence \<Rightarrow> semantic_index \<Rightarrow> semantic_index" where
  "add_occurrence occ idx = idx\<lparr>idx_occurrences := idx_occurrences idx @ [occ]\<rparr>"

definition make_span :: "source_loc \<Rightarrow> nat \<Rightarrow> diag_span" where
  "make_span l len =
     \<lparr>span_file = loc_file l, span_line = loc_line l, span_column = loc_column l, span_end_line = loc_line l,
      span_end_column = loc_column l + int len\<rparr>"

definition symbol_kind_name :: "symbol_kind \<Rightarrow> string" where
  "symbol_kind_name k = (case k of
     KindVar \<Rightarrow> ''var'' | KindParam \<Rightarrow> ''param'' | KindFunc \<Rightarrow> ''func'' | KindType \<Rightarrow> ''type''
   | KindField \<Rightarrow> ''field'' | KindEnumMember \<Rightarrow> ''enum_member'' | KindBuiltin \<Rightarrow> ''builtin''
   | KindPackage \<Rightarrow> ''package'')"

section \<open>Lookups\<close>

text \<open>The column after an occurrence, and whether a position is inside it.\<close>

definition occ_end :: "semantic_occurrence \<Rightarrow> int" where
  "occ_end occ =
     (if span_end_column (occ_span occ) \<noteq> 0 then span_end_column (occ_span occ)
      else span_column (occ_span occ) + int (length (occ_name occ)))"

definition covers :: "int \<Rightarrow> int \<Rightarrow> semantic_occurrence \<Rightarrow> bool" where
  "covers line column occ \<longleftrightarrow>
     span_line (occ_span occ) = line \<and> span_column (occ_span occ) \<le> column \<and> column < occ_end occ"

definition find_step ::
  "string \<Rightarrow> int \<Rightarrow> int \<Rightarrow> semantic_occurrence option \<Rightarrow> semantic_occurrence \<Rightarrow> semantic_occurrence option" where
  "find_step file line column best occ =
     (if span_file (occ_span occ) \<noteq> file \<or> \<not> covers line column occ then best
      else case best of
        None \<Rightarrow> Some occ
      | Some b \<Rightarrow> if span_column (occ_span b) < span_column (occ_span occ) then Some occ else best)"

definition find_at :: "string \<Rightarrow> int \<Rightarrow> int \<Rightarrow> semantic_index \<Rightarrow> semantic_occurrence option" where
  "find_at file line column idx = foldl (find_step file line column) None (idx_occurrences idx)"

fun find_type_in :: "string \<Rightarrow> type_info_entry list \<Rightarrow> type_info_entry option" where
  "find_type_in name [] = None"
| "find_type_in name (t # ts) = (if ti_name t = name then Some t else find_type_in name ts)"

definition find_type :: "string \<Rightarrow> semantic_index \<Rightarrow> type_info_entry option" where
  "find_type name idx = find_type_in name (idx_types idx)"

fun find_function_in :: "string \<Rightarrow> function_info_entry list \<Rightarrow> function_info_entry option" where
  "find_function_in name [] = None"
| "find_function_in name (f # fs) = (if fi_name f = name then Some f else find_function_in name fs)"

definition find_function :: "string \<Rightarrow> semantic_index \<Rightarrow> function_info_entry option" where
  "find_function name idx = find_function_in name (idx_functions idx)"

section \<open>The innermost occurrence\<close>

definition here_in :: "string \<Rightarrow> int \<Rightarrow> int \<Rightarrow> semantic_occurrence \<Rightarrow> bool" where
  "here_in file line column occ \<longleftrightarrow> span_file (occ_span occ) = file \<and> covers line column occ"

text \<open>The first of the candidates that begin furthest to the right.\<close>

definition innermost :: "string \<Rightarrow> int \<Rightarrow> int \<Rightarrow> semantic_occurrence list \<Rightarrow> semantic_occurrence \<Rightarrow> bool" where
  "innermost file line column occs occ \<longleftrightarrow>
     (\<exists>us vs. occs = us @ occ # vs \<and> here_in file line column occ \<and>
        (\<forall>u\<in>set us. here_in file line column u \<longrightarrow> span_column (occ_span u) < span_column (occ_span occ)) \<and>
        (\<forall>v\<in>set vs. here_in file line column v \<longrightarrow> span_column (occ_span v) \<le> span_column (occ_span occ)))"

lemma find_step_simps:
  "find_step path l c None occ = (if here_in path l c occ then Some occ else None)"
  "find_step path l c (Some b) occ =
     (if here_in path l c occ \<and> span_column (occ_span b) < span_column (occ_span occ) then Some occ else Some b)"
  by (auto simp: find_step_def here_in_def)

lemma find_at_loop:
  "(case foldl (find_step path l c) None occs of
      None \<Rightarrow> \<forall>u\<in>set occs. \<not> here_in path l c u
    | Some b \<Rightarrow> innermost path l c occs b)"
proof (induction occs rule: rev_induct)
  case (snoc x occs)
  show ?case
  proof (cases "foldl (find_step path l c) None occs")
    case None
    with snoc have none: "\<forall>u\<in>set occs. \<not> here_in path l c u" by simp
    then have "innermost path l c (occs @ [x]) x" if "here_in path l c x"
      using that unfolding innermost_def by (intro exI [of _ occs] exI [of _ "[]"]) simp
    with None none show ?thesis by (simp add: find_step_simps)
  next
    case (Some b)
    with snoc obtain us vs where b: "occs = us @ b # vs" "here_in path l c b"
      "\<forall>u\<in>set us. here_in path l c u \<longrightarrow> span_column (occ_span u) < span_column (occ_span b)"
      "\<forall>v\<in>set vs. here_in path l c v \<longrightarrow> span_column (occ_span v) \<le> span_column (occ_span b)"
      by (auto simp: innermost_def)
    show ?thesis
    proof (cases "here_in path l c x \<and> span_column (occ_span b) < span_column (occ_span x)")
      case True
      then have "innermost path l c (occs @ [x]) x"
        unfolding innermost_def using b by (intro exI [of _ occs] exI [of _ "[]"]) force
      with True Some show ?thesis by (simp add: find_step_simps)
    next
      case False
      then have "innermost path l c (occs @ [x]) b"
        unfolding innermost_def using b by (intro exI [of _ us] exI [of _ "vs @ [x]"]) auto
      with False Some show ?thesis by (auto simp: find_step_simps)
    qed
  qed
qed simp

lemma innermost_unique:
  assumes "innermost path l c occs a" "innermost path l c occs b"
  shows "a = b"
proof -
  obtain us vs where a: "occs = us @ a # vs" "here_in path l c a"
      "\<forall>u\<in>set us. here_in path l c u \<longrightarrow> span_column (occ_span u) < span_column (occ_span a)"
      "\<forall>v\<in>set vs. here_in path l c v \<longrightarrow> span_column (occ_span v) \<le> span_column (occ_span a)"
    using assms(1) by (auto simp: innermost_def)
  obtain us' vs' where b: "us @ a # vs = us' @ b # vs'" "here_in path l c b"
      "\<forall>u\<in>set us'. here_in path l c u \<longrightarrow> span_column (occ_span u) < span_column (occ_span b)"
      "\<forall>v\<in>set vs'. here_in path l c v \<longrightarrow> span_column (occ_span v) \<le> span_column (occ_span b)"
    using assms(2) a(1) by (auto simp: innermost_def)
  from b(1) consider (same) "a = b" | (left) "a \<in> set us'" "b \<in> set vs" | (right) "b \<in> set us" "a \<in> set vs'"
    by (auto simp: append_eq_append_conv2 append_eq_Cons_conv Cons_eq_append_conv)
  then show ?thesis
  proof cases
    case left
    then show ?thesis using a b by force
  next
    case right
    then show ?thesis using a b by force
  qed
qed

text \<open>
  C36. The occurrence at a position is the innermost one: of the occurrences of the file that cover the
  position, the first of those that start furthest to the right; and there is none only when none covers it.
\<close>

theorem find_at_innermost:
  "(find_at path l c idx = Some occ) = innermost path l c (idx_occurrences idx) occ"
proof (cases "find_at path l c idx")
  case None
  then show ?thesis
    using find_at_loop [where occs = "idx_occurrences idx" and path = path and l = l and c = c] by (auto simp: find_at_def innermost_def)
next
  case (Some b)
  then have "innermost path l c (idx_occurrences idx) b"
    using find_at_loop [where occs = "idx_occurrences idx" and path = path and l = l and c = c] by (simp add: find_at_def)
  with Some innermost_unique show ?thesis by auto
qed

end
