(* ===== verification/Analyze_Json.thy ===== *)
theory Analyze_Json
  imports Json_Writer Semantic_Index
begin

text \<open>
  The answers of the language server (\<open>include/analyze.hpp\<close>, with the snapshot of
  \<open>include/analyze/snapshot.hpp\<close>): the JSON text of a snapshot and the responses to hover, definition,
  symbols and completion. A function that appends to a buffer is modelled by what it appends. Every answer is
  shown to be a JSON text, of the value the schema describes.
\<close>

section \<open>The snapshot and its text\<close>

record analysis_snapshot =
  snap_revision :: u64
  snap_cancelled :: bool
  snap_file :: string
  snap_package :: string
  snap_ok :: bool
  snap_diagnostics :: "diagnostic list"
  snap_index :: semantic_index

definition span_json :: "diag_span \<Rightarrow> string" where
  "span_json sp =
     ''{\"file\":'' @ quote (span_file sp) @
     '',\"start\":{\"line\":'' @ to_string (span_line sp) @
     '',\"column\":'' @ to_string (span_column sp) @
     ''},\"end\":{\"line\":'' @ to_string (if span_end_line sp \<noteq> 0 then span_end_line sp else span_line sp) @
     '',\"column\":'' @ to_string (if span_end_column sp \<noteq> 0 then span_end_column sp
                                 else if span_column sp \<noteq> 0 then span_column sp + 1 else 0) @
     ''}}''"

definition bool_json :: "bool \<Rightarrow> string" where
  "bool_json b = (if b then ''true'' else ''false'')"

definition occurrence_json :: "semantic_occurrence \<Rightarrow> string" where
  "occurrence_json occ =
     ''{\"name\":'' @ quote (occ_name occ) @
     '',\"kind\":'' @ quote (symbol_kind_name (occ_kind occ)) @
     '',\"type\":'' @ quote (occ_type occ) @
     '',\"is_def\":'' @ bool_json (occ_is_def occ) @
     '',\"span\":'' @ span_json (occ_span occ) @
     (if span_line (occ_def occ) \<noteq> 0 then '',\"def\":'' @ span_json (occ_def occ) else []) @
     ''}''"

primrec outline_json :: "outline_symbol \<Rightarrow> string" where
  "outline_json (OutlineSymbol name kind detail whole selection children) =
     ''{\"name\":'' @ quote name @
     '',\"kind\":'' @ quote (symbol_kind_name kind) @
     '',\"detail\":'' @ quote detail @
     '',\"range\":'' @ span_json whole @
     '',\"selection\":'' @ span_json selection @
     '',\"children\":['' @ comma_join (map outline_json children) @
     '']}''"

definition diagnostic_json :: "diagnostic \<Rightarrow> string" where
  "diagnostic_json d =
     ''{\"severity\":'' @ quote (if diag_severity d = SeverityWarning then ''warning'' else ''error'') @
     '',\"message\":'' @ quote (diag_message d) @
     '',\"span\":'' @ span_json (diag_at d) @
     ''}''"

definition pair_json :: "string \<times> string \<Rightarrow> string" where
  "pair_json p = ''{\"name\":'' @ quote (fst p) @ '',\"type\":'' @ quote (snd p) @ ''}''"

definition type_json :: "type_info_entry \<Rightarrow> string" where
  "type_json t =
     ''{\"name\":'' @ quote (ti_name t) @
     '',\"kind\":'' @ quote (ti_kind t) @
     '',\"fields\":['' @ comma_join (map pair_json (ti_fields t)) @
     ''],\"members\":['' @ comma_join (map quote (ti_members t)) @
     '']}''"

definition function_json :: "function_info_entry \<Rightarrow> string" where
  "function_json f =
     ''{\"name\":'' @ quote (fi_name f) @
     '',\"return_type\":'' @ quote (fi_return_type f) @
     (if fi_signature f \<noteq> [] then '',\"signature\":'' @ quote (fi_signature f) else []) @
     '',\"params\":['' @ comma_join (map pair_json (fi_params f)) @
     '']}''"

definition snapshot_to_analyze_json :: "analysis_snapshot \<Rightarrow> string" where
  "snapshot_to_analyze_json snap =
     ''{\"schema\":\"munx.analyze.v1\",\"file\":'' @ quote (snap_file snap) @
     '',\"package\":'' @ quote (snap_package snap) @
     '',\"ok\":'' @ bool_json (snap_ok snap) @
     '',\"revision\":'' @ decimal (unat (snap_revision snap)) @
     '',\"diagnostics\":['' @ comma_join (map diagnostic_json (snap_diagnostics snap)) @
     ''],\"symbols\":['' @ comma_join (map outline_json (idx_symbols (snap_index snap))) @
     ''],\"idents\":['' @ comma_join (map occurrence_json (idx_occurrences (snap_index snap))) @
     ''],\"types\":['' @ comma_join (map type_json (idx_types (snap_index snap))) @
     ''],\"functions\":['' @ comma_join (map function_json (idx_functions (snap_index snap))) @
     '']}''"

section \<open>Responses\<close>

text \<open>The parameters of a function without a stored signature; the flag is \<open>first\<close>.\<close>

fun params_display :: "bool \<Rightarrow> (string \<times> string) list \<Rightarrow> string" where
  "params_display first [] = []"
| "params_display first ((name, ty) # ps) =
     (if first then [] else '', '') @
     (if name = ''...'' \<and> ty = [] then ''...'' else (if name \<noteq> [] then name @ '': '' else []) @ ty) @
     params_display False ps"

definition function_display :: "function_info_entry \<Rightarrow> string" where
  "function_display f =
     (if fi_signature f \<noteq> [] then fi_signature f
      else fi_name f @ ''('' @ params_display True (fi_params f) @ ''): '' @ fi_return_type f)"

definition is_callable :: "symbol_kind \<Rightarrow> bool" where
  "is_callable k \<longleftrightarrow> k = KindFunc \<or> k = KindBuiltin"

definition hover_display :: "semantic_index \<Rightarrow> semantic_occurrence \<Rightarrow> string" where
  "hover_display idx occ =
     (if is_callable (occ_kind occ) \<and> CHR ''('' \<notin> set (occ_type occ)
      then (case find_function (occ_name occ) idx of None \<Rightarrow> occ_type occ | Some f \<Rightarrow> function_display f)
      else occ_type occ)"

definition hover_markdown :: "semantic_occurrence \<Rightarrow> string \<Rightarrow> string" where
  "hover_markdown occ display =
     (if is_callable (occ_kind occ)
      then ''```munx'' @ [CHR 0x0A] @ ''func '' @ display @ [CHR 0x0A] @ ''```'' @ [CHR 0x0A, CHR 0x0A] @
           (if occ_kind occ = KindBuiltin then ''builtin'' else ''function'')
      else ''**'' @ occ_name occ @ ''**'' @
           (if display \<noteq> [] \<and> display \<noteq> ''any'' \<and> display \<noteq> ''<unknown>'' then '': `'' @ display @ ''`'' else []) @
           [CHR 0x0A, CHR 0x0A] @ symbol_kind_name (occ_kind occ))"

text \<open>The last occurrence that covers the position, in whatever file.\<close>

definition last_covering :: "int \<Rightarrow> int \<Rightarrow> semantic_index \<Rightarrow> semantic_occurrence option" where
  "last_covering line column idx =
     foldl (\<lambda>found occ. if covers line column occ then Some occ else found) None (idx_occurrences idx)"

definition hover_occurrence :: "analysis_snapshot \<Rightarrow> int \<Rightarrow> int \<Rightarrow> semantic_occurrence option" where
  "hover_occurrence snap line column =
     (case find_at (snap_file snap) line column (snap_index snap) of
        Some occ \<Rightarrow> Some occ | None \<Rightarrow> last_covering line column (snap_index snap))"

definition hover_response :: "analysis_snapshot \<Rightarrow> int \<Rightarrow> int \<Rightarrow> string" where
  "hover_response snap line column =
     (if snap_cancelled snap then []
      else case hover_occurrence snap line column of
        None \<Rightarrow> ''{\"contents\":null}''
      | Some occ \<Rightarrow>
          ''{\"contents\":'' @ quote (hover_markdown occ (hover_display (snap_index snap) occ)) @
          '',\"range\":'' @ span_json (occ_span occ) @ ''}'')"

definition definition_response :: "analysis_snapshot \<Rightarrow> int \<Rightarrow> int \<Rightarrow> string" where
  "definition_response snap line column =
     (if snap_cancelled snap then []
      else case last_covering line column (snap_index snap) of
        None \<Rightarrow> ''{\"location\":null}''
      | Some occ \<Rightarrow>
          if span_line (occ_def occ) = 0 then ''{\"location\":null}''
          else ''{\"location\":'' @ span_json (occ_def occ) @ ''}'')"

definition symbols_response :: "analysis_snapshot \<Rightarrow> string" where
  "symbols_response snap = ''{\"symbols\":['' @ comma_join (map outline_json (idx_symbols (snap_index snap))) @ '']}''"

text \<open>The calls of \<open>push\<close> in \<open>completion_response\<close>: label, detail and kind of each item.\<close>

definition compiler_directives :: "string list" where
  "compiler_directives = [''reflexpr'', ''members'', ''function_members'', ''params'', ''meta_params'', ''reflect_for'',
     ''construct'', ''match'', ''typeid'']"

definition completion_items :: "semantic_index \<Rightarrow> string \<Rightarrow> (string \<times> string \<times> string) list" where
  "completion_items idx trigger =
     (if trigger = ''.'' then
        concat (map (\<lambda>t. map (\<lambda>(name, ty). (name, ty, ''field'')) (ti_fields t)) (idx_types idx)) @
        [(''len'', ''int'', ''field'')]
      else if trigger = ''::'' then
        concat (map (\<lambda>t. if ti_kind t \<noteq> ''enum'' then []
                         else map (\<lambda>member. (member, ti_name t, ''enum_member'')) (ti_members t)) (idx_types idx)) @
        map (\<lambda>dir. (dir, ''compiler'', ''keyword'')) compiler_directives
      else
        map (\<lambda>t. (ti_name t, ti_kind t, ''type'')) (idx_types idx) @
        map (\<lambda>f. (fi_name f, if fi_signature f \<noteq> [] then fi_signature f else fi_return_type f, ''func''))
          (idx_functions idx) @
        map (\<lambda>occ. (occ_name occ, occ_type occ, symbol_kind_name (occ_kind occ)))
          (filter (\<lambda>occ. occ_is_def occ \<and> (occ_kind occ = KindVar \<or> occ_kind occ = KindParam)) (idx_occurrences idx)))"

definition item_json :: "string \<times> string \<times> string \<Rightarrow> string" where
  "item_json it = (case it of (label, detail, kind) \<Rightarrow>
     ''{\"label\":'' @ quote label @ '',\"detail\":'' @ quote detail @ '',\"kind\":'' @ quote kind @ ''}'')"

definition completion_response :: "analysis_snapshot \<Rightarrow> string \<Rightarrow> string" where
  "completion_response snap trigger =
     ''{\"items\":['' @ comma_join (map item_json (completion_items (snap_index snap) trigger)) @ '']}''"

definition diagnostics_notification :: "analysis_snapshot \<Rightarrow> string" where
  "diagnostics_notification snap =
     ''{\"jsonrpc\":\"2.0\",\"method\":\"textDocument/publishDiagnostics\",\"params\":{\"path\":'' @
     quote (snap_file snap) @
     '',\"diagnostics\":['' @ comma_join (map diagnostic_json (snap_diagnostics snap)) @
     '']}}''"

section \<open>The values of the texts\<close>

definition obj_text :: "(string \<times> string) list \<Rightarrow> string" where
  "obj_text ms = CHR 0x7B # comma_join (map member_text ms) @ [CHR 0x7D]"

definition arr_text :: "string list \<Rightarrow> string" where
  "arr_text ts = CHR ''['' # comma_join ts @ '']''"

lemmas text_defs = obj_text_def arr_text_def member_text_def

lemma is_json_obj:
  "list_all2 (member_of strtod_ok) kvs ms \<Longrightarrow> ms \<noteq> [] \<Longrightarrow> distinct (map fst ms) \<Longrightarrow> is_json strtod_ok (JObject kvs) (obj_text ms)"
  unfolding obj_text_def by (rule is_json_object)

lemma is_json_arr: "list_all (\<lambda>x. is_json strtod_ok (f x) (g x)) xs \<Longrightarrow> is_json strtod_ok (JArray (map f xs)) (arr_text (map g xs))"
  unfolding arr_text_def
  by (rule is_json_list) (simp add: list_all2_map1 list_all2_map2 list_all2_same list_all_iff)

lemma member_ofI: "plain_key k \<Longrightarrow> is_json strtod_ok v t \<Longrightarrow> member_of strtod_ok (k, v) (k, t)"
  by (simp add: member_of_def)

lemma is_json_bool: "is_json strtod_ok (JBool b) (bool_json b)"
  by (simp add: bool_json_def js_true js_false)

named_theorems writes "texts that are JSON texts for a value"

lemmas [writes] = is_json_quote is_json_bool is_json_to_string js_null member_ofI

text \<open>The values the schema describes.\<close>

definition span_value :: "diag_span \<Rightarrow> json_value" where
  "span_value sp = JObject
     [(''file'', JString (span_file sp)),
      (''start'', JObject [(''line'', JInt (span_line sp)), (''column'', JInt (span_column sp))]),
      (''end'', JObject
        [(''line'', JInt (if span_end_line sp \<noteq> 0 then span_end_line sp else span_line sp)),
         (''column'', JInt (if span_end_column sp \<noteq> 0 then span_end_column sp
                           else if span_column sp \<noteq> 0 then span_column sp + 1 else 0))])]"

definition span_in_range :: "diag_span \<Rightarrow> bool" where
  "span_in_range sp \<longleftrightarrow> fits_int64 (span_line sp) \<and> fits_int64 (span_column sp) \<and> fits_int64 (span_end_line sp) \<and>
     fits_int64 (span_end_column sp) \<and> span_column sp \<noteq> 9223372036854775807"

lemma span_json_obj:
  "span_json sp = obj_text
     [(''file'', quote (span_file sp)),
      (''start'', obj_text [(''line'', to_string (span_line sp)), (''column'', to_string (span_column sp))]),
      (''end'', obj_text
        [(''line'', to_string (if span_end_line sp \<noteq> 0 then span_end_line sp else span_line sp)),
         (''column'', to_string (if span_end_column sp \<noteq> 0 then span_end_column sp
                                else if span_column sp \<noteq> 0 then span_column sp + 1 else 0))])]"
  by (simp add: span_json_def text_defs)

lemma is_json_position:
  "fits_int64 l \<Longrightarrow> fits_int64 c \<Longrightarrow>
   is_json strtod_ok (JObject [(''line'', JInt l), (''column'', JInt c)])
     (obj_text [(''line'', to_string l), (''column'', to_string c)])"
  by (rule is_json_obj) (simp_all add: writes plain_key_def)

lemma is_json_span [writes]: 
  assumes "span_in_range sp"
  shows "is_json strtod_ok (span_value sp) (span_json sp)"
proof -
  have fits: "fits_int64 (span_line sp)" "fits_int64 (span_column sp)"
    "fits_int64 (if span_end_line sp \<noteq> 0 then span_end_line sp else span_line sp)"
    "fits_int64 (if span_end_column sp \<noteq> 0 then span_end_column sp else if span_column sp \<noteq> 0 then span_column sp + 1 else 0)"
    using assms by (auto simp: span_in_range_def fits_int64_def)
  show ?thesis
    unfolding span_json_obj span_value_def
    by (rule is_json_obj) (simp_all add: writes plain_key_def is_json_position fits del: if_split)
qed

section \<open>Occurrences, symbols, types and functions\<close>

definition occurrence_value :: "semantic_occurrence \<Rightarrow> json_value" where
  "occurrence_value occ = JObject (
     [(''name'', JString (occ_name occ)), (''kind'', JString (symbol_kind_name (occ_kind occ))),
      (''type'', JString (occ_type occ)), (''is_def'', JBool (occ_is_def occ)), (''span'', span_value (occ_span occ))] @
     (if span_line (occ_def occ) \<noteq> 0 then [(''def'', span_value (occ_def occ))] else []))"

lemma occurrence_json_obj:
  "occurrence_json occ = obj_text (
     [(''name'', quote (occ_name occ)), (''kind'', quote (symbol_kind_name (occ_kind occ))),
      (''type'', quote (occ_type occ)), (''is_def'', bool_json (occ_is_def occ)), (''span'', span_json (occ_span occ))] @
     (if span_line (occ_def occ) \<noteq> 0 then [(''def'', span_json (occ_def occ))] else []))"
  by (simp add: occurrence_json_def text_defs)

definition occurrence_in_range :: "semantic_occurrence \<Rightarrow> bool" where
  "occurrence_in_range occ \<longleftrightarrow> span_in_range (occ_span occ) \<and> span_in_range (occ_def occ)"

lemma is_json_occurrence [writes]:
  "occurrence_in_range occ \<Longrightarrow> is_json strtod_ok (occurrence_value occ) (occurrence_json occ)"
  unfolding occurrence_json_obj occurrence_value_def occurrence_in_range_def
  by (rule is_json_obj) (simp_all add: writes plain_key_def)

primrec outline_value :: "outline_symbol \<Rightarrow> json_value" where
  "outline_value (OutlineSymbol name kind detail whole selection children) = JObject
     [(''name'', JString name), (''kind'', JString (symbol_kind_name kind)), (''detail'', JString detail),
      (''range'', span_value whole), (''selection'', span_value selection),
      (''children'', JArray (map outline_value children))]"

primrec outline_in_range :: "outline_symbol \<Rightarrow> bool" where
  "outline_in_range (OutlineSymbol name kind detail whole selection children) \<longleftrightarrow>
     span_in_range whole \<and> span_in_range selection \<and> list_all id (map outline_in_range children)"

lemma outline_json_obj:
  "outline_json (OutlineSymbol name kind detail whole selection children) = obj_text
     [(''name'', quote name), (''kind'', quote (symbol_kind_name kind)), (''detail'', quote detail),
      (''range'', span_json whole), (''selection'', span_json selection),
      (''children'', arr_text (map outline_json children))]"
  by (simp add: text_defs)

lemma is_json_outline [writes]: "outline_in_range sy \<Longrightarrow> is_json strtod_ok (outline_value sy) (outline_json sy)"
proof (induction sy)
  case (OutlineSymbol name kind detail whole selection children)
  have "is_json strtod_ok (JArray (map outline_value children)) (arr_text (map outline_json children))"
    using OutlineSymbol by (intro is_json_arr) (auto simp: list_all_iff)
  with OutlineSymbol.prems show ?case
    unfolding outline_json_obj outline_value.simps
    by (intro is_json_obj) (simp_all add: writes plain_key_def)
qed

definition diagnostic_value :: "diagnostic \<Rightarrow> json_value" where
  "diagnostic_value d = JObject
     [(''severity'', JString (if diag_severity d = SeverityWarning then ''warning'' else ''error'')),
      (''message'', JString (diag_message d)), (''span'', span_value (diag_at d))]"

lemma diagnostic_json_obj:
  "diagnostic_json d = obj_text
     [(''severity'', quote (if diag_severity d = SeverityWarning then ''warning'' else ''error'')),
      (''message'', quote (diag_message d)), (''span'', span_json (diag_at d))]"
  by (simp add: diagnostic_json_def text_defs)

lemma is_json_diagnostic [writes]:
  "span_in_range (diag_at d) \<Longrightarrow> is_json strtod_ok (diagnostic_value d) (diagnostic_json d)"
  unfolding diagnostic_json_obj diagnostic_value_def
  by (rule is_json_obj) (simp_all add: writes plain_key_def)

definition pair_value :: "string \<times> string \<Rightarrow> json_value" where
  "pair_value p = JObject [(''name'', JString (fst p)), (''type'', JString (snd p))]"

lemma is_json_pair [writes]: "is_json strtod_ok (pair_value p) (pair_json p)"
proof -
  have "pair_json p = obj_text [(''name'', quote (fst p)), (''type'', quote (snd p))]"
    by (simp add: pair_json_def text_defs)
  then show ?thesis unfolding pair_value_def by simp (rule is_json_obj; simp add: writes plain_key_def)
qed

lemma is_json_texts [writes]:
  "is_json strtod_ok (JArray (map pair_value ps)) (arr_text (map pair_json ps))"
  "is_json strtod_ok (JArray (map JString xs)) (arr_text (map quote xs))"
  by (rule is_json_arr, simp add: list_all_iff writes)+

definition type_value :: "type_info_entry \<Rightarrow> json_value" where
  "type_value t = JObject
     [(''name'', JString (ti_name t)), (''kind'', JString (ti_kind t)), (''fields'', JArray (map pair_value (ti_fields t))),
      (''members'', JArray (map JString (ti_members t)))]"

lemma is_json_type [writes]: "is_json strtod_ok (type_value t) (type_json t)"
proof -
  have "type_json t = obj_text [(''name'', quote (ti_name t)), (''kind'', quote (ti_kind t)),
      (''fields'', arr_text (map pair_json (ti_fields t))), (''members'', arr_text (map quote (ti_members t)))]"
    by (simp add: type_json_def text_defs)
  then show ?thesis unfolding type_value_def by simp (rule is_json_obj; simp add: writes plain_key_def)
qed

definition function_value :: "function_info_entry \<Rightarrow> json_value" where
  "function_value f = JObject (
     [(''name'', JString (fi_name f)), (''return_type'', JString (fi_return_type f))] @
     (if fi_signature f \<noteq> [] then [(''signature'', JString (fi_signature f))] else []) @
     [(''params'', JArray (map pair_value (fi_params f)))])"

lemma is_json_function [writes]: "is_json strtod_ok (function_value f) (function_json f)"
proof -
  have shape: "function_json f = obj_text (
      [(''name'', quote (fi_name f)), (''return_type'', quote (fi_return_type f))] @
      (if fi_signature f \<noteq> [] then [(''signature'', quote (fi_signature f))] else []) @
      [(''params'', arr_text (map pair_json (fi_params f)))])"
    by (simp add: function_json_def text_defs)
  show ?thesis unfolding function_value_def shape by (rule is_json_obj) (simp_all add: writes plain_key_def)
qed

section \<open>Snapshots and responses\<close>

definition index_in_range :: "semantic_index \<Rightarrow> bool" where
  "index_in_range idx \<longleftrightarrow> list_all outline_in_range (idx_symbols idx) \<and> list_all occurrence_in_range (idx_occurrences idx)"

definition snapshot_in_range :: "analysis_snapshot \<Rightarrow> bool" where
  "snapshot_in_range snap \<longleftrightarrow> index_in_range (snap_index snap) \<and>
     list_all (\<lambda>d. span_in_range (diag_at d)) (snap_diagnostics snap)"

definition snapshot_value :: "analysis_snapshot \<Rightarrow> json_value" where
  "snapshot_value snap = JObject
     [(''schema'', JString ''munx.analyze.v1''), (''file'', JString (snap_file snap)),
      (''package'', JString (snap_package snap)), (''ok'', JBool (snap_ok snap)),
      (''revision'', JInt (uint (snap_revision snap))),
      (''diagnostics'', JArray (map diagnostic_value (snap_diagnostics snap))),
      (''symbols'', JArray (map outline_value (idx_symbols (snap_index snap)))),
      (''idents'', JArray (map occurrence_value (idx_occurrences (snap_index snap)))),
      (''types'', JArray (map type_value (idx_types (snap_index snap)))),
      (''functions'', JArray (map function_value (idx_functions (snap_index snap))))]"

lemma is_json_arrays:
  "snapshot_in_range snap \<Longrightarrow>
   is_json strtod_ok (JArray (map diagnostic_value (snap_diagnostics snap))) (arr_text (map diagnostic_json (snap_diagnostics snap)))"
  "snapshot_in_range snap \<Longrightarrow>
   is_json strtod_ok (JArray (map outline_value (idx_symbols (snap_index snap)))) (arr_text (map outline_json (idx_symbols (snap_index snap))))"
  "snapshot_in_range snap \<Longrightarrow>
   is_json strtod_ok (JArray (map occurrence_value (idx_occurrences (snap_index snap))))
     (arr_text (map occurrence_json (idx_occurrences (snap_index snap))))"
  by (rule is_json_arr, simp add: list_all_iff snapshot_in_range_def index_in_range_def writes)+

lemma is_json_tables:
  "is_json strtod_ok (JArray (map type_value ts)) (arr_text (map type_json ts))"
  "is_json strtod_ok (JArray (map function_value fs)) (arr_text (map function_json fs))"
  by (rule is_json_arr, simp add: list_all_iff writes)+

lemma is_json_revision: "uint (r :: u64) < 9223372036854775808 \<Longrightarrow> is_json strtod_ok (JInt (uint r)) (decimal (unat r))"
  using is_json_to_string [of "uint r" strtod_ok] order_trans [OF _ uint_nonnegative, of "- 9223372036854775808" r]
  by (simp add: fits_int64_def to_string_def)

lemma plain_text: "plain_key x \<Longrightarrow> quote x = CHR 0x22 # x @ [CHR 0x22]"
proof -
  have "escaped x = x" if "plain_key x"
    using that by (induction x) (auto simp: escaped_def plain_key_def escaped_char_def)
  then show "plain_key x \<Longrightarrow> quote x = CHR 0x22 # x @ [CHR 0x22]" by (simp add: quote_escaped)
qed

lemma is_json_snapshot:
  assumes "snapshot_in_range snap" "uint (snap_revision snap) < 9223372036854775808"
  shows "is_json strtod_ok (snapshot_value snap) (snapshot_to_analyze_json snap)"
proof -
  have shape: "snapshot_to_analyze_json snap = obj_text
     [(''schema'', quote ''munx.analyze.v1''), (''file'', quote (snap_file snap)),
      (''package'', quote (snap_package snap)), (''ok'', bool_json (snap_ok snap)),
      (''revision'', decimal (unat (snap_revision snap))),
      (''diagnostics'', arr_text (map diagnostic_json (snap_diagnostics snap))),
      (''symbols'', arr_text (map outline_json (idx_symbols (snap_index snap)))),
      (''idents'', arr_text (map occurrence_json (idx_occurrences (snap_index snap)))),
      (''types'', arr_text (map type_json (idx_types (snap_index snap)))),
      (''functions'', arr_text (map function_json (idx_functions (snap_index snap))))]"
    by (simp add: snapshot_to_analyze_json_def text_defs plain_text plain_key_def)
  show ?thesis
    unfolding snapshot_value_def shape
    by (rule is_json_obj) (simp_all add: writes plain_key_def is_json_arrays [OF assms(1)] is_json_tables is_json_revision [OF assms(2)])
qed

definition hover_value :: "analysis_snapshot \<Rightarrow> int \<Rightarrow> int \<Rightarrow> json_value" where
  "hover_value snap line column = (case hover_occurrence snap line column of
     None \<Rightarrow> JObject [(''contents'', JNull)]
   | Some occ \<Rightarrow> JObject [(''contents'', JString (hover_markdown occ (hover_display (snap_index snap) occ))),
                         (''range'', span_value (occ_span occ))])"

lemma last_covering_in: "last_covering l c idx = Some occ \<Longrightarrow> occ \<in> set (idx_occurrences idx) \<and> covers l c occ"
proof -
  have "foldl (\<lambda>found occ. if covers l c occ then Some occ else found) None occs = Some occ \<Longrightarrow>
      occ \<in> set occs \<and> covers l c occ" for occs
    by (induction occs rule: rev_induct) (auto split: if_splits)
  then show "last_covering l c idx = Some occ \<Longrightarrow> occ \<in> set (idx_occurrences idx) \<and> covers l c occ"
    unfolding last_covering_def by blast
qed

lemma find_at_in: "find_at path l c idx = Some occ \<Longrightarrow> occ \<in> set (idx_occurrences idx) \<and> covers l c occ"
  using find_at_loop [where occs = "idx_occurrences idx" and path = path and l = l and c = c]
  by (auto simp: find_at_def innermost_def here_in_def)

lemma is_json_hover:
  assumes "snapshot_in_range snap" "\<not> snap_cancelled snap"
  shows "is_json strtod_ok (hover_value snap l c) (hover_response snap l c)"
proof (cases "hover_occurrence snap l c")
  case None
  have "''{\"contents\":null}'' = obj_text [(''contents'', ''null'')]" by (simp add: text_defs)
  with None assms show ?thesis
    unfolding hover_response_def hover_value_def by simp (rule is_json_obj; simp add: writes plain_key_def)
next
  case (Some occ)
  have "occ \<in> set (idx_occurrences (snap_index snap))"
    using Some find_at_in last_covering_in by (auto simp: hover_occurrence_def split: option.splits)
  with assms(1) have r: "span_in_range (occ_span occ)"
    by (auto simp: snapshot_in_range_def index_in_range_def list_all_iff occurrence_in_range_def)
  have "hover_response snap l c = obj_text
      [(''contents'', quote (hover_markdown occ (hover_display (snap_index snap) occ))), (''range'', span_json (occ_span occ))]"
    using Some assms(2) by (simp add: hover_response_def text_defs)
  with Some show ?thesis
    unfolding hover_value_def by simp (rule is_json_obj; simp add: writes plain_key_def r)
qed

definition definition_value :: "analysis_snapshot \<Rightarrow> int \<Rightarrow> int \<Rightarrow> json_value" where
  "definition_value snap line column = JObject [(''location'',
     case last_covering line column (snap_index snap) of
       None \<Rightarrow> JNull
     | Some occ \<Rightarrow> if span_line (occ_def occ) = 0 then JNull else span_value (occ_def occ))]"

lemma is_json_definition:
  assumes "snapshot_in_range snap" "\<not> snap_cancelled snap"
  shows "is_json strtod_ok (definition_value snap l c) (definition_response snap l c)"
proof -
  let ?t = "case last_covering l c (snap_index snap) of None \<Rightarrow> ''null''
     | Some occ \<Rightarrow> if span_line (occ_def occ) = 0 then ''null'' else span_json (occ_def occ)"
  have shape: "definition_response snap l c = obj_text [(''location'', ?t)]"
    using assms(2) by (auto simp: definition_response_def text_defs split: option.splits)
  have "occurrence_in_range occ" if "last_covering l c (snap_index snap) = Some occ" for occ
    using last_covering_in [OF that] assms(1) by (simp add: snapshot_in_range_def index_in_range_def list_all_iff)
  then show ?thesis
    unfolding shape definition_value_def
    by (intro is_json_obj) (auto simp: writes plain_key_def occurrence_in_range_def split: option.splits)
qed

lemma is_json_symbols:
  assumes "snapshot_in_range snap"
  shows "is_json strtod_ok (JObject [(''symbols'', JArray (map outline_value (idx_symbols (snap_index snap))))]) (symbols_response snap)"
proof -
  have shape: "symbols_response snap = obj_text [(''symbols'', arr_text (map outline_json (idx_symbols (snap_index snap))))]"
    by (simp add: symbols_response_def text_defs)
  show ?thesis unfolding shape by (rule is_json_obj) (simp_all add: writes plain_key_def is_json_arrays [OF assms])
qed

definition item_value :: "string \<times> string \<times> string \<Rightarrow> json_value" where
  "item_value it = (case it of (label, detail, kind) \<Rightarrow>
     JObject [(''label'', JString label), (''detail'', JString detail), (''kind'', JString kind)])"

lemma is_json_item: "is_json strtod_ok (item_value it) (item_json it)"
proof -
  obtain a b c where it: "it = (a, b, c)" by (cases it)
  have shape: "item_json (a, b, c) = obj_text [(''label'', quote a), (''detail'', quote b), (''kind'', quote c)]"
    by (simp add: item_json_def text_defs)
  show ?thesis
    unfolding it item_value_def prod.case shape by (rule is_json_obj) (simp_all add: writes plain_key_def)
qed

lemma is_json_completion:
  "is_json strtod_ok (JObject [(''items'', JArray (map item_value (completion_items (snap_index snap) trigger)))])
     (completion_response snap trigger)"
proof -
  have shape: "completion_response snap trigger =
      obj_text [(''items'', arr_text (map item_json (completion_items (snap_index snap) trigger)))]"
    by (simp add: completion_response_def text_defs)
  show ?thesis
    unfolding shape by (rule is_json_obj) (simp_all add: member_ofI plain_key_def is_json_arr is_json_item list_all_iff)
qed

lemma is_json_notification:
  assumes "snapshot_in_range snap"
  shows "is_json strtod_ok
    (JObject [(''jsonrpc'', JString ''2.0''), (''method'', JString ''textDocument/publishDiagnostics''),
      (''params'', JObject [(''path'', JString (snap_file snap)),
         (''diagnostics'', JArray (map diagnostic_value (snap_diagnostics snap)))])])
    (diagnostics_notification snap)"
proof -
  have shape: "diagnostics_notification snap = obj_text
      [(''jsonrpc'', quote ''2.0''), (''method'', quote ''textDocument/publishDiagnostics''),
       (''params'', obj_text [(''path'', quote (snap_file snap)),
          (''diagnostics'', arr_text (map diagnostic_json (snap_diagnostics snap)))])]"
    by (simp add: diagnostics_notification_def text_defs plain_text plain_key_def)
  have "is_json strtod_ok (JObject [(''path'', JString (snap_file snap)),
         (''diagnostics'', JArray (map diagnostic_value (snap_diagnostics snap)))])
      (obj_text [(''path'', quote (snap_file snap)), (''diagnostics'', arr_text (map diagnostic_json (snap_diagnostics snap)))])"
    by (rule is_json_obj) (simp_all add: writes plain_key_def is_json_arrays [OF assms])
  then show ?thesis unfolding shape by (intro is_json_obj) (simp_all add: writes plain_key_def)
qed

end
