(* ===== verification/Analysis_Host.thy ===== *)
theory Analysis_Host
  imports Analyze_Json "HOL-Library.Countable"
begin

text \<open>
  The state of the language server (\<open>include/analyze/host.hpp\<close>, \<open>include/analyze/vfs.hpp\<close>): editor
  buffers over the disk, a revision counter, the current snapshot and the cache of parsed imports. The file
  system, \<open>std::hash\<close>, the front end behind \<open>parse_source\<close> and the type checker enter as a record of
  functions; both of the last two report into the compile context. The mutex makes every operation one step.
\<close>

section \<open>The environment and the virtual file system\<close>

record host_env =
  env_key :: "string \<Rightarrow> string"
  env_disk :: "string \<Rightarrow> string option"
  env_cwd :: string
  env_packages :: "string \<Rightarrow> string list"
  env_join :: "string \<Rightarrow> string \<Rightarrow> string"
  env_parent :: "string \<Rightarrow> string"
  env_filename :: "string \<Rightarrow> string"
  env_exists :: "string \<Rightarrow> bool"
  env_hash :: "string \<Rightarrow> nat"
  env_parse :: "string \<Rightarrow> string \<Rightarrow> bool \<Rightarrow> compile_context \<Rightarrow> program \<times> compile_context"
  env_check :: "string \<Rightarrow> program \<Rightarrow> program list \<Rightarrow> compile_context \<Rightarrow> semantic_index \<times> compile_context"

type_synonym overlay_vfs = "string \<rightharpoonup> string"

definition vfs_open :: "host_env \<Rightarrow> string \<Rightarrow> string \<Rightarrow> overlay_vfs \<Rightarrow> overlay_vfs" where
  "vfs_open env path content fs = fs(env_key env path \<mapsto> content)"

definition vfs_change :: "host_env \<Rightarrow> string \<Rightarrow> string \<Rightarrow> overlay_vfs \<Rightarrow> overlay_vfs" where
  "vfs_change env path content fs = fs(env_key env path \<mapsto> content)"

definition vfs_close :: "host_env \<Rightarrow> string \<Rightarrow> overlay_vfs \<Rightarrow> overlay_vfs" where
  "vfs_close env path fs = fs(env_key env path := None)"

definition has_overlay :: "host_env \<Rightarrow> string \<Rightarrow> overlay_vfs \<Rightarrow> bool" where
  "has_overlay env path fs \<longleftrightarrow> fs (env_key env path) \<noteq> None"

definition vfs_read :: "host_env \<Rightarrow> overlay_vfs \<Rightarrow> string \<Rightarrow> string option" where
  "vfs_read env fs path = (case fs (env_key env path) of Some content \<Rightarrow> Some content | None \<Rightarrow> env_disk env path)"

definition content_hash :: "host_env \<Rightarrow> overlay_vfs \<Rightarrow> string \<Rightarrow> nat" where
  "content_hash env fs path = (case vfs_read env fs path of None \<Rightarrow> 0 | Some content \<Rightarrow> env_hash env content)"

section \<open>The host\<close>

record preamble_entry =
  pre_path :: string
  pre_hash :: nat
  pre_program :: program

record analysis_host =
  host_vfs :: overlay_vfs
  host_root :: string
  host_revision :: u64
  host_current :: "analysis_snapshot option"
  host_preamble :: "string \<rightharpoonup> preamble_entry"
  host_hits :: u64
  host_misses :: u64

definition new_host :: analysis_host where
  "new_host = \<lparr>host_vfs = (\<lambda>_. None), host_root = [], host_revision = 0, host_current = None, host_preamble = (\<lambda>_. None),
     host_hits = 0, host_misses = 0\<rparr>"

definition set_workspace_root :: "string \<Rightarrow> analysis_host \<Rightarrow> analysis_host" where
  "set_workspace_root root h = h\<lparr>host_root := root\<rparr>"

definition vfs_update :: "host_env \<Rightarrow> string \<Rightarrow> string \<Rightarrow> string option \<Rightarrow> analysis_host \<Rightarrow> analysis_host" where
  "vfs_update env path kind content h =
     (let fs = host_vfs h;
          fs' = (if kind = ''open'' \<or> kind = ''change''
                 then (case content of None \<Rightarrow> fs | Some x \<Rightarrow> if kind = ''open'' then vfs_open env path x fs else vfs_change env path x fs)
                 else if kind = ''close'' then vfs_close env path fs
                 else fs)
      in h\<lparr>host_vfs := fs', host_current := map_option (\<lambda>s. s\<lparr>snap_cancelled := True\<rparr>) (host_current h),
           host_revision := host_revision h + 1\<rparr>)"

section \<open>Resolving imports\<close>

text \<open>What \<open>resolve_imports_vfs\<close> changes: the host's cache and counters, \<open>loaded\<close>, \<open>imports\<close>, the context.\<close>

record resolving =
  res_host :: analysis_host
  res_loaded :: "string list"
  res_imports :: "program list"
  res_context :: compile_context

definition package_file :: "string \<Rightarrow> string" where
  "package_file package = package @ ''.mx''"

definition import_error :: "string \<Rightarrow> load_package_stmt \<Rightarrow> resolving \<Rightarrow> resolving" where
  "import_error what p st = st\<lparr>res_context :=
     ctx_report (span_report SeverityError (loc_file (import_loc p)) (loc_line (import_loc p)) (loc_column (import_loc p))
       (''failed to '' @ what @ '' package `'' @ import_package p @ ''`'') 0) (res_context st)\<rparr>"

definition cache_hit :: "host_env \<Rightarrow> string \<Rightarrow> analysis_host \<Rightarrow> program option" where
  "cache_hit env path h = (case host_preamble h (env_key env path) of
     None \<Rightarrow> None
   | Some e \<Rightarrow> if pre_hash e = content_hash env (host_vfs h) path then Some (pre_program e) else None)"

definition count_hit :: "analysis_host \<Rightarrow> analysis_host" where
  "count_hit h = h\<lparr>host_hits := host_hits h + 1\<rparr>"

definition count_miss :: "analysis_host \<Rightarrow> analysis_host" where
  "count_miss h = h\<lparr>host_misses := host_misses h + 1\<rparr>"

definition remember :: "host_env \<Rightarrow> string \<Rightarrow> nat \<Rightarrow> program \<Rightarrow> analysis_host \<Rightarrow> analysis_host" where
  "remember env path hash prog h = h\<lparr>host_preamble := (host_preamble h)(env_key env path \<mapsto>
     \<lparr>pre_path = path, pre_hash = hash, pre_program = prog\<rparr>)\<rparr>"

text \<open>
  A package of the directory that is not loaded yet, up to the recursive call: the program from the cache, or
  parsed from the file, then with the hash it is cached under; \<open>None\<close> when the file cannot be read.
\<close>

definition open_import :: "host_env \<Rightarrow> string \<Rightarrow> load_package_stmt \<Rightarrow> resolving \<Rightarrow> (program \<times> nat option) option \<times> resolving" where
  "open_import env dir p st =
     (let path = env_join env dir (package_file (import_package p));
          hash = content_hash env (host_vfs (res_host st)) path;
          st1 = st\<lparr>res_loaded := import_package p # res_loaded st\<rparr>
      in case cache_hit env path (res_host st) of
           Some prog \<Rightarrow> (Some (prog, None), st1\<lparr>res_host := count_hit (res_host st)\<rparr>)
         | None \<Rightarrow>
             (let st2 = st1\<lparr>res_host := count_miss (res_host st)\<rparr>
              in case vfs_read env (host_vfs (res_host st)) path of
                   None \<Rightarrow> (None, import_error ''resolve'' p st2)
                 | Some content \<Rightarrow>
                     (case env_parse env content path False (res_context st2) of (prog, ctx) \<Rightarrow>
                        (Some (prog, Some hash), st2\<lparr>res_context := ctx\<rparr>))))"

text \<open>After the recursive call: a program that was parsed enters the cache, and the import is recorded.\<close>

definition close_import :: "host_env \<Rightarrow> string \<Rightarrow> load_package_stmt \<Rightarrow> program \<times> nat option \<Rightarrow> resolving \<Rightarrow> resolving" where
  "close_import env dir p opened st =
     (case opened of (prog, cached_under) \<Rightarrow>
        (case cached_under of
           None \<Rightarrow> st
         | Some hash \<Rightarrow> st\<lparr>res_host := remember env (env_join env dir (package_file (import_package p))) hash prog (res_host st)\<rparr>)
        \<lparr>res_imports := res_imports st @ [prog]\<rparr>)"

text \<open>
  The recursive lambda \<open>resolve\<close> on a list of imports. It recurses only after \<open>loaded\<close> has grown by a package
  of the directory; the first argument bounds the depth.
\<close>

fun resolve_packages :: "nat \<Rightarrow> host_env \<Rightarrow> string \<Rightarrow> load_package_stmt list \<Rightarrow> resolving \<Rightarrow> resolving option" where
  "resolve_packages n env dir [] st = Some st"
| "resolve_packages n env dir (p # ps) st =
     (if import_package p \<in> set (res_loaded st) then resolve_packages n env dir ps st
      else if package_file (import_package p) \<notin> set (env_packages env dir)
        then resolve_packages n env dir ps (import_error ''find'' p st)
      else case open_import env dir p st of
        (None, st1) \<Rightarrow> resolve_packages n env dir ps st1
      | (Some opened, st1) \<Rightarrow>
          (case n of 0 \<Rightarrow> None | Suc m \<Rightarrow>
             (case resolve_packages m env dir (program_imports (fst opened)) st1 of
                None \<Rightarrow> None
              | Some st2 \<Rightarrow> resolve_packages n env dir ps (close_import env dir p opened st2))))"

definition resolve_imports_vfs ::
  "host_env \<Rightarrow> program \<Rightarrow> analysis_host \<Rightarrow> compile_context \<Rightarrow> resolving option" where
  "resolve_imports_vfs env main h ctx =
     (let dir = (if host_root h = [] then env_cwd env else host_root h)
      in resolve_packages (length (env_packages env dir)) env dir (program_imports main)
           \<lparr>res_host = h, res_loaded = [package_name main], res_imports = [], res_context = ctx\<rparr>)"

section \<open>Snapshots\<close>

definition new_snapshot :: "host_env \<Rightarrow> string \<Rightarrow> analysis_host \<Rightarrow> analysis_snapshot" where
  "new_snapshot env path h =
     \<lparr>snap_revision = host_revision h, snap_cancelled = False, snap_file = env_key env path, snap_package = [],
      snap_ok = True, snap_diagnostics = [], snap_index = empty_index\<rparr>"

definition collecting_context :: compile_context where
  "collecting_context = enter_scope \<lparr>ctx_err = error_success, ctx_diagnostics = [], ctx_collect_all = True\<rparr>"

definition install :: "analysis_snapshot \<Rightarrow> analysis_host \<Rightarrow> analysis_snapshot \<times> analysis_host" where
  "install snap h = (snap, h\<lparr>host_current := Some snap\<rparr>)"

definition rebuild :: "host_env \<Rightarrow> string \<Rightarrow> analysis_host \<Rightarrow> (analysis_snapshot \<times> analysis_host) option" where
  "rebuild env path h =
     (let snap = new_snapshot env path h
      in case vfs_read env (host_vfs h) path of
           None \<Rightarrow> Some (install
             (snap\<lparr>snap_ok := False,
                   snap_diagnostics := ctx_diagnostics
                     (ctx_fail_compile (''could not open source file: '' @ path) collecting_context)\<rparr>) h)
         | Some content \<Rightarrow>
             (case env_parse env content path True collecting_context of (prog, ctx) \<Rightarrow>
                (case resolve_imports_vfs env prog h ctx of
                   None \<Rightarrow> None
                 | Some st \<Rightarrow>
                     (case env_check env (if env_parent env path = [] then host_root h else env_parent env path) prog
                             (res_imports st) (res_context st) of (idx, ctx') \<Rightarrow>
                        Some (install
                          (snap\<lparr>snap_package := package_name prog, snap_index := idx,
                                snap_diagnostics := ctx_diagnostics ctx', snap_ok := \<not> ctx_failed ctx'\<rparr>)
                          (res_host st))))))"

text \<open>\<open>analyze_buffer\<close>: a host of its own.\<close>

definition analyze_buffer :: "host_env \<Rightarrow> string \<Rightarrow> string \<Rightarrow> string \<Rightarrow> analysis_snapshot option" where
  "analyze_buffer env path source root =
     (let h0 = (if root \<noteq> [] then set_workspace_root root new_host
                else if path \<noteq> [] then set_workspace_root (env_parent env path) new_host
                else new_host)
      in map_option fst (rebuild env path (vfs_update env path ''open'' (Some source) h0)))"

section \<open>Imports are resolved\<close>

lemma package_file_inj: "package_file a = package_file b \<longleftrightarrow> a = b"
  by (simp add: package_file_def)

text \<open>The packages of the directory that are not loaded yet.\<close>

definition unloaded :: "host_env \<Rightarrow> string \<Rightarrow> string list \<Rightarrow> string set" where
  "unloaded env dir loaded = set (env_packages env dir) - package_file ` set loaded"

lemma unloaded_grow:
  "p \<notin> set loaded \<Longrightarrow> package_file p \<in> set (env_packages env dir) \<Longrightarrow>
   card (unloaded env dir loaded) = Suc (card (unloaded env dir (p # loaded)))"
proof -
  assume "p \<notin> set loaded" "package_file p \<in> set (env_packages env dir)"
  then have "package_file p \<in> unloaded env dir loaded"
    by (auto simp: unloaded_def package_file_inj)
  moreover have "unloaded env dir (p # loaded) = unloaded env dir loaded - {package_file p}" by (auto simp: unloaded_def)
  moreover have "finite (unloaded env dir loaded)" by (simp add: unloaded_def)
  ultimately show ?thesis by (metis card_Suc_Diff1)
qed

lemma unloaded_mono: "set loaded \<subseteq> set loaded' \<Longrightarrow> card (unloaded env dir loaded') \<le> card (unloaded env dir loaded)"
  by (rule card_mono) (auto simp: unloaded_def)

text \<open>What one import keeps, \<open>resolve\<close> keeps; \<open>J\<close> is about an import between its two halves.\<close>

locale resolve_invariant =
  fixes env :: host_env and dir :: string and I :: "resolving \<Rightarrow> bool"
    and J :: "load_package_stmt \<Rightarrow> program \<times> nat option \<Rightarrow> bool"
  assumes keep_error: "I st \<Longrightarrow> I (import_error w p st)"
    and keep_open: "I st \<Longrightarrow> open_import env dir p st = (r, st1) \<Longrightarrow> I st1"
    and opened: "I st \<Longrightarrow> open_import env dir p st = (Some q, st1) \<Longrightarrow> J p q"
    and keep_close: "I st \<Longrightarrow> J p q \<Longrightarrow> I (close_import env dir p q st)"
begin

lemma resolve_keeps: "I st \<Longrightarrow> resolve_packages n env dir ps st = Some st' \<Longrightarrow> I st'"
proof (induction n arbitrary: ps st st' rule: less_induct)
  case (less n)
  show ?case
    using less.prems
  proof (induction ps arbitrary: st)
    case (Cons p ps)
    consider (loaded) "import_package p \<in> set (res_loaded st)"
      | (unknown) "import_package p \<notin> set (res_loaded st)" "package_file (import_package p) \<notin> set (env_packages env dir)"
      | (fresh) "import_package p \<notin> set (res_loaded st)" "package_file (import_package p) \<in> set (env_packages env dir)" by blast
    then show ?case
    proof cases
      case loaded
      then show ?thesis using Cons by simp
    next
      case unknown
      then have "resolve_packages n env dir ps (import_error ''find'' p st) = Some st'" using Cons.prems(2) by simp
      with Cons.IH keep_error [OF Cons.prems(1)] show ?thesis by blast
    next
      case fresh
      obtain r st1 where r: "open_import env dir p st = (r, st1)" by fastforce
      then have st1: "I st1" using keep_open Cons.prems(1) by blast
      show ?thesis
      proof (cases r)
        case None
        then show ?thesis using fresh r st1 Cons by simp
      next
        case (Some q)
        with Cons.prems(2) fresh r obtain m st2 where m: "n = Suc m" "resolve_packages m env dir (program_imports (fst q)) st1 = Some st2"
          "resolve_packages n env dir ps (close_import env dir p q st2) = Some st'"
          by (auto split: nat.splits option.splits)
        have "I st2" using less.IH [of m] m(1,2) st1 by simp
        moreover have "J p q" using opened [OF Cons.prems(1)] r Some by blast
        ultimately show ?thesis using Cons.IH keep_close m(3) by blast
      qed
    qed
  qed simp
qed

end

lemma open_import_loaded:
  "open_import env dir p st = (r, st1) \<Longrightarrow> res_loaded st1 = import_package p # res_loaded st"
  by (auto simp: open_import_def import_error_def Let_def split: option.splits prod.splits)

lemma close_import_loaded [simp]: "res_loaded (close_import env dir p q st) = res_loaded st"
  by (simp add: close_import_def split: prod.split option.split)

lemma import_error_loaded [simp]: "res_loaded (import_error w p st) = res_loaded st"
  by (simp add: import_error_def)

interpretation loaded_grows: resolve_invariant env dir "\<lambda>st. L \<subseteq> set (res_loaded st)" "\<lambda>_ _. True" for env dir L
proof unfold_locales
  show "L \<subseteq> set (res_loaded st1)" if "L \<subseteq> set (res_loaded st)" "open_import env dir p st = (r, st1)" for p st r st1
    using that(1) open_import_loaded [OF that(2)] by auto
qed simp_all

text \<open>What resolving leaves alone: everything of the host but the cache and its counters.\<close>

definition same_host :: "analysis_host \<Rightarrow> analysis_host \<Rightarrow> bool" where
  "same_host h h' \<longleftrightarrow> host_vfs h' = host_vfs h \<and> host_root h' = host_root h \<and> host_revision h' = host_revision h \<and>
     host_current h' = host_current h"

lemma same_host_open: "open_import env dir p st = (r, st1) \<Longrightarrow> same_host (res_host st) (res_host st1)"
  by (auto simp: open_import_def import_error_def Let_def same_host_def count_hit_def count_miss_def
      split: option.splits prod.splits)

lemma same_host_close: "same_host (res_host st) (res_host (close_import env dir p q st))"
  by (simp add: close_import_def same_host_def remember_def split: prod.split option.split)

interpretation host_framed: resolve_invariant env dir "\<lambda>st. same_host h (res_host st)" "\<lambda>_ _. True" for env dir h
proof unfold_locales
  show "same_host h (res_host (import_error w p st))" if "same_host h (res_host st)" for w p st
    using that by (simp add: import_error_def)
  show "same_host h (res_host st1)" if "same_host h (res_host st)" "open_import env dir p st = (r, st1)" for p st r st1
    using that(1) same_host_open [OF that(2)] by (simp add: same_host_def)
  show "same_host h (res_host (close_import env dir p q st))" if "same_host h (res_host st)" for p q st
    using that same_host_close [of st env dir p q] by (simp add: same_host_def)
qed simp

lemma resolve_ends: "card (unloaded env dir (res_loaded st)) \<le> n \<Longrightarrow> resolve_packages n env dir ps st \<noteq> None"
proof (induction n env dir ps st rule: resolve_packages.induct)
  case (2 n env dir p ps st)
  show ?case
  proof (cases "import_package p \<in> set (res_loaded st) \<or> package_file (import_package p) \<notin> set (env_packages env dir)")
    case True
    then show ?thesis
      using 2(1) [OF _ "2.prems"] 2(2) "2.prems" by (cases "import_package p \<in> set (res_loaded st)") simp_all
  next
    case new: False
    obtain r st1 where r: "open_import env dir p st = (r, st1)" by fastforce
    note l = open_import_loaded [OF r]
    have less: "card (unloaded env dir (res_loaded st)) = Suc (card (unloaded env dir (res_loaded st1)))"
      using unloaded_grow new l by simp
    show ?thesis
    proof (cases r)
      case None
      have "card (unloaded env dir (res_loaded st1)) \<le> n" using less "2.prems" by simp
      then have "resolve_packages n env dir ps st1 \<noteq> None" using 2(3) [OF _ _ r [symmetric] None] new by simp
      with new r None show ?thesis by simp
    next
      case (Some opened)
      obtain m where m: "n = Suc m" using less "2.prems" by (cases n) auto
      have "card (unloaded env dir (res_loaded st1)) \<le> m" using less "2.prems" m by simp
      then have "resolve_packages m env dir (program_imports (fst opened)) st1 \<noteq> None"
        using 2(4) [OF _ _ r [symmetric] Some m] new by simp
      then obtain st2 where st2: "resolve_packages m env dir (program_imports (fst opened)) st1 = Some st2" by blast
      have "card (unloaded env dir (res_loaded st2)) \<le> n"
        using unloaded_mono [OF loaded_grows.resolve_keeps [OF subset_refl st2], of env dir] less "2.prems" by linarith
      then have "resolve_packages n env dir ps (close_import env dir p opened st2) \<noteq> None"
        using 2(5) [OF _ _ r [symmetric] Some m st2] new by simp
      then show ?thesis using new r Some m st2 by simp
    qed
  qed
qed simp

lemma resolve_imports_ends: "resolve_imports_vfs env main h ctx \<noteq> None"
proof -
  have "card (unloaded env dir loaded) \<le> length (env_packages env dir)" for dir loaded
    by (rule order_trans [OF card_mono card_length]) (auto simp: unloaded_def)
  then show ?thesis by (simp add: resolve_imports_vfs_def Let_def resolve_ends)
qed

lemma rebuild_total: "\<exists>snap h'. rebuild env path h = Some (snap, h')"
proof (cases "vfs_read env (host_vfs h) path")
  case (Some content)
  obtain prog ctx where p: "env_parse env content path True collecting_context = (prog, ctx)" by fastforce
  obtain st where "resolve_imports_vfs env prog h ctx = Some st" using resolve_imports_ends by fast
  with Some p show ?thesis by (simp add: rebuild_def install_def Let_def split: prod.split)
qed (simp add: rebuild_def install_def Let_def)


section \<open>An example\<close>

text \<open>A directory with a program and a package it imports; the package has an error.\<close>

definition sample_main :: program where
  "sample_main = \<lparr>package_loc = no_loc, package_name = ''main'',
     program_imports = [\<lparr>import_loc = no_loc, import_package = ''lib''\<rparr>], program_statements = []\<rparr>"

definition sample_lib :: program where
  "sample_lib = \<lparr>package_loc = no_loc, package_name = ''lib'', program_imports = [], program_statements = []\<rparr>"

definition sample_error :: report_args where
  "sample_error = span_report SeverityError ''lib.mx'' 1 1 ''unexpected character'' 0"

definition sample_env :: host_env where
  "sample_env = \<lparr>env_key = id, env_disk = map_of [(''main.mx'', ''m''), (''lib.mx'', ''l'')], env_cwd = ''.'',
     env_packages = (\<lambda>_. [''main.mx'', ''lib.mx'']), env_join = (\<lambda>_ file. file), env_parent = (\<lambda>_. []),
     env_filename = id, env_exists = (\<lambda>_. True), env_hash = (\<lambda>x. Suc (to_nat x)),
     env_parse = (\<lambda>content path rec ctx. if content = ''m'' then (sample_main, ctx) else (sample_lib, ctx_report sample_error ctx)),
     env_check = (\<lambda>dir main imports ctx. (empty_index, ctx))\<rparr>"

lemma sample_faithful_hash: "inj (\<lambda>x. Suc (to_nat (x :: string)))"
  by (auto simp: inj_def)

section \<open>The current snapshot\<close>

inductive host_reachable :: "host_env \<Rightarrow> analysis_host \<Rightarrow> bool" for env where
  reach_new: "host_reachable env new_host"
| reach_root: "host_reachable env h \<Longrightarrow> host_reachable env (set_workspace_root root h)"
| reach_update: "host_reachable env h \<Longrightarrow> host_reachable env (vfs_update env path kind content h)"
| reach_rebuild: "host_reachable env h \<Longrightarrow> rebuild env path h = Some (snap, h') \<Longrightarrow> host_reachable env h'"

lemma resolve_same_host: "resolve_imports_vfs env main h ctx = Some st \<Longrightarrow> same_host h (res_host st)"
  by (auto simp: resolve_imports_vfs_def same_host_def Let_def
      dest!: host_framed.resolve_keeps [where h = h, rotated])

lemma rebuild_host:
  assumes "rebuild env path h = Some (snap, h')"
  shows "host_vfs h' = host_vfs h \<and> host_root h' = host_root h \<and> host_revision h' = host_revision h \<and>
    host_current h' = Some snap \<and> snap_revision snap = host_revision h \<and> \<not> snap_cancelled snap \<and>
    snap_file snap = env_key env path"
proof (cases "vfs_read env (host_vfs h) path")
  case None
  with assms show ?thesis by (auto simp: rebuild_def install_def new_snapshot_def Let_def)
next
  case (Some content)
  obtain prog ctx where p: "env_parse env content path True collecting_context = (prog, ctx)" by fastforce
  with assms Some obtain st where st: "resolve_imports_vfs env prog h ctx = Some st"
    by (auto simp: rebuild_def Let_def split: option.splits)
  with assms Some p resolve_same_host [OF st] show ?thesis
    by (auto simp: rebuild_def install_def new_snapshot_def Let_def same_host_def split: prod.splits)
qed

text \<open>
  C38. A snapshot that is current and not cancelled is one of the current revision: no buffer has been opened,
  changed or closed since it was computed.
\<close>

theorem current_snapshot_fresh:
  assumes "host_reachable env h" "host_current h = Some snap" "\<not> snap_cancelled snap"
  shows "snap_revision snap = host_revision h"
  using assms
proof (induction arbitrary: snap rule: host_reachable.induct)
  case reach_new
  then show ?case by (simp add: new_host_def)
next
  case (reach_root h root)
  then show ?case by (simp add: set_workspace_root_def)
next
  case (reach_update h path kind content)
  then show ?case by (auto simp: vfs_update_def Let_def)
next
  case (reach_rebuild h path snap' h')
  then show ?case using rebuild_host [OF reach_rebuild.hyps(2)] by simp
qed

theorem current_snapshot_fresh_witness:
  "\<exists>snap h. rebuild sample_env ''main.mx'' new_host = Some (snap, h) \<and> snap_revision snap = host_revision h"
proof -
  obtain snap h where r: "rebuild sample_env ''main.mx'' new_host = Some (snap, h)" using rebuild_total by blast
  have "host_reachable sample_env h" by (rule reach_rebuild [OF reach_new r])
  with current_snapshot_fresh [of sample_env h snap] rebuild_host [OF r] r show ?thesis by blast
qed

section \<open>The cache of imports\<close>

text \<open>
  What the cache relies on: a hash tells texts apart and is not the 0 of a file that cannot be read, a file is
  named by one path, and the program a text parses to does not depend on what has been reported before.
\<close>

definition faithful_env :: "host_env \<Rightarrow> bool" where
  "faithful_env env \<longleftrightarrow> inj (env_hash env) \<and> (\<forall>x. env_hash env x \<noteq> 0) \<and> inj (env_key env) \<and>
     (\<forall>content path r ctx ctx'. fst (env_parse env content path r ctx) = fst (env_parse env content path r ctx'))"

definition parsed :: "host_env \<Rightarrow> string \<Rightarrow> string \<Rightarrow> program" where
  "parsed env path content = fst (env_parse env content path False collecting_context)"

lemma parsed_any: "faithful_env env \<Longrightarrow> env_parse env content path False ctx = (prog, ctx') \<Longrightarrow> prog = parsed env path content"
  by (metis faithful_env_def fst_conv parsed_def)

definition cache_ok :: "host_env \<Rightarrow> analysis_host \<Rightarrow> bool" where
  "cache_ok env h \<longleftrightarrow> (\<forall>path e. host_preamble h (env_key env path) = Some e \<longrightarrow>
     (\<exists>content. pre_hash e = env_hash env content \<and> pre_program e = parsed env path content))"

lemma cache_hit_parsed:
  assumes "faithful_env env" "cache_ok env h" "cache_hit env path h = Some prog"
  shows "\<exists>content. vfs_read env (host_vfs h) path = Some content \<and> prog = parsed env path content"
proof -
  obtain e where e: "host_preamble h (env_key env path) = Some e" "pre_hash e = content_hash env (host_vfs h) path"
    "prog = pre_program e"
    using assms(3) by (auto simp: cache_hit_def split: option.splits if_splits)
  from assms(2) e(1) obtain content where c: "pre_hash e = env_hash env content" "pre_program e = parsed env path content"
    unfolding cache_ok_def by blast
  have "vfs_read env (host_vfs h) path = Some content"
  proof (cases "vfs_read env (host_vfs h) path")
    case None
    moreover have "0 < env_hash env content" using assms(1) by (simp add: faithful_env_def)
    ultimately show ?thesis using e(2) c(1) by (simp add: content_hash_def)
  next
    case (Some x)
    with e(2) c(1) have "env_hash env x = env_hash env content" by (simp add: content_hash_def)
    with Some assms(1) show ?thesis by (simp add: faithful_env_def inj_eq)
  qed
  with c(2) e(3) show ?thesis by simp
qed

text \<open>Two runs of \<open>resolve\<close> that agree on everything but the cache and the context.\<close>

definition cache_sim :: "host_env \<Rightarrow> resolving \<Rightarrow> resolving \<Rightarrow> bool" where
  "cache_sim env s t \<longleftrightarrow> res_loaded s = res_loaded t \<and> res_imports s = res_imports t \<and>
     host_vfs (res_host s) = host_vfs (res_host t) \<and> cache_ok env (res_host s) \<and> cache_ok env (res_host t)"

definition opened_ok :: "host_env \<Rightarrow> string \<Rightarrow> load_package_stmt \<Rightarrow> program \<times> nat option \<Rightarrow> bool" where
  "opened_ok env dir p q \<longleftrightarrow> (\<forall>hash. snd q = Some hash \<longrightarrow> (\<exists>content. hash = env_hash env content \<and>
     fst q = parsed env (env_join env dir (package_file (import_package p))) content))"

lemma cache_ok_counts [simp]: "cache_ok env (count_hit h) = cache_ok env h" "cache_ok env (count_miss h) = cache_ok env h"
  by (simp_all add: cache_ok_def count_hit_def count_miss_def)

lemma open_import_result:
  assumes env: "faithful_env env" and ok: "cache_ok env (res_host st)" and r: "open_import env dir p st = (r, st1)"
  shows "map_option fst r = map_option (parsed env (env_join env dir (package_file (import_package p))))
      (vfs_read env (host_vfs (res_host st)) (env_join env dir (package_file (import_package p))))"
    and "cache_ok env (res_host st1)" and "\<forall>q. r = Some q \<longrightarrow> opened_ok env dir p q"
    and "res_imports st1 = res_imports st"
proof -
  let ?path = "env_join env dir (package_file (import_package p))"
  have "map_option fst r = map_option (parsed env ?path) (vfs_read env (host_vfs (res_host st)) ?path) \<and>
      cache_ok env (res_host st1) \<and> (\<forall>q. r = Some q \<longrightarrow> opened_ok env dir p q) \<and> res_imports st1 = res_imports st"
  proof (cases "cache_hit env ?path (res_host st)")
    case (Some prog)
    with cache_hit_parsed [OF env ok Some] r ok show ?thesis
      by (auto simp: open_import_def Let_def opened_ok_def)
  next
    case None
    show ?thesis
    proof (cases "vfs_read env (host_vfs (res_host st)) ?path")
      case none: None
      with None r ok show ?thesis by (auto simp: open_import_def Let_def import_error_def)
    next
      case (Some content)
      obtain prog ctx where p: "env_parse env content ?path False (res_context st) = (prog, ctx)" by fastforce
      from None Some p r ok parsed_any [OF env p] show ?thesis
        by (auto simp: open_import_def Let_def opened_ok_def content_hash_def)
    qed
  qed
  then show "map_option fst r = map_option (parsed env ?path) (vfs_read env (host_vfs (res_host st)) ?path)"
    "cache_ok env (res_host st1)" "\<forall>q. r = Some q \<longrightarrow> opened_ok env dir p q" "res_imports st1 = res_imports st"
    by blast+
qed

lemma cache_ok_close:
  assumes "faithful_env env" "cache_ok env (res_host st)" "opened_ok env dir p q"
  shows "cache_ok env (res_host (close_import env dir p q st))"
proof (cases "snd q")
  case None
  then show ?thesis using assms(2) by (cases q) (simp add: close_import_def)
next
  case (Some hash)
  then show ?thesis
    using assms by (cases q) (auto simp: close_import_def cache_ok_def opened_ok_def remember_def faithful_env_def inj_eq)
qed

lemma cache_sim_error: "cache_sim env s t \<Longrightarrow> cache_sim env (import_error w p s) (import_error w p t)"
  by (simp add: cache_sim_def import_error_def)

lemma cache_sim_open:
  assumes env: "faithful_env env" and sim: "cache_sim env s t"
    and s: "open_import env dir p s = (r, s1)" and t: "open_import env dir p t = (r', t1)"
  shows "cache_sim env s1 t1 \<and> map_option fst r = map_option fst r'"
proof -
  note rs = open_import_result [OF env _ s] and rt = open_import_result [OF env _ t]
  have "cache_ok env (res_host s)" "cache_ok env (res_host t)" using sim by (simp_all add: cache_sim_def)
  with rs rt same_host_open [OF s] same_host_open [OF t] open_import_loaded [OF s] open_import_loaded [OF t] sim
  show ?thesis by (simp add: cache_sim_def same_host_def)
qed

lemma cache_sim_close:
  assumes env: "faithful_env env" and sim: "cache_sim env s t" and "opened_ok env dir p q" "opened_ok env dir p q'"
    and "fst q = fst q'"
  shows "cache_sim env (close_import env dir p q s) (close_import env dir p q' t)"
proof -
  have "cache_ok env (res_host (close_import env dir p q s))" "cache_ok env (res_host (close_import env dir p q' t))"
    using assms by (auto simp: cache_sim_def intro: cache_ok_close)
  moreover have "res_imports (close_import env dir p q s) = res_imports (close_import env dir p q' t)"
    using sim assms(5) by (cases q; cases q') (simp add: close_import_def cache_sim_def split: option.split)
  ultimately show ?thesis
    using sim same_host_close [of s env dir p q] same_host_close [of t env dir p q'] by (simp add: cache_sim_def same_host_def)
qed

lemma resolve_sim:
  assumes env: "faithful_env env"
  shows "cache_sim env s t \<Longrightarrow> rel_option (cache_sim env) (resolve_packages n env dir ps s) (resolve_packages n env dir ps t)"
proof (induction n arbitrary: ps s t rule: less_induct)
  case (less n)
  show ?case
    using less.prems
  proof (induction ps arbitrary: s t)
    case (Cons p ps)
    have l: "res_loaded s = res_loaded t" using Cons.prems by (simp add: cache_sim_def)
    consider (loaded) "import_package p \<in> set (res_loaded t)"
      | (unknown) "import_package p \<notin> set (res_loaded t)" "package_file (import_package p) \<notin> set (env_packages env dir)"
      | (fresh) "import_package p \<notin> set (res_loaded t)" "package_file (import_package p) \<in> set (env_packages env dir)" by blast
    then show ?case
    proof cases
      case loaded
      with Cons l show ?thesis by simp
    next
      case unknown
      with Cons.IH [OF cache_sim_error [OF Cons.prems]] l show ?thesis by simp
    next
      case fresh
      obtain r s1 r' t1 where o: "open_import env dir p s = (r, s1)" "open_import env dir p t = (r', t1)" by fastforce
      note sim1 = cache_sim_open [OF env Cons.prems o]
      show ?thesis
      proof (cases r)
        case None
        with fresh o sim1 l Cons.IH show ?thesis by simp
      next
        case (Some q)
        with sim1 obtain q' where q': "r' = Some q'" "fst q = fst q'" by (cases r') auto
        have ok: "opened_ok env dir p q" "opened_ok env dir p q'"
          using open_import_result(3) [OF env _ o(1)] open_import_result(3) [OF env _ o(2)] Cons.prems Some q'(1)
          by (auto simp: cache_sim_def)
        show ?thesis
        proof (cases n)
          case 0
          with fresh o Some q' l show ?thesis by simp
        next
          case (Suc m)
          let ?ps = "program_imports (fst q')"
          have "rel_option (cache_sim env) (resolve_packages m env dir ?ps s1) (resolve_packages m env dir ?ps t1)"
            using less.IH [of m] Suc sim1 by simp
          then show ?thesis
          proof (cases rule: option.rel_cases)
            case None
            with fresh o Some q' l Suc show ?thesis by simp
          next
            case (Some s2 t2)
            with Cons.IH [OF cache_sim_close [OF env Some(3) ok q'(2)]] fresh o \<open>r = Some q\<close> q' l Suc show ?thesis by simp
          qed
        qed
      qed
    qed
  qed simp
qed

interpretation cache_kept: resolve_invariant env dir "\<lambda>st. faithful_env env \<and> cache_ok env (res_host st)" "opened_ok env dir" for env dir
proof unfold_locales
  show "faithful_env env \<and> cache_ok env (res_host (import_error w p st))" if "faithful_env env \<and> cache_ok env (res_host st)" for w p st
    using that by (simp add: import_error_def)
qed (auto dest: open_import_result(2,3) cache_ok_close)

lemma rebuild_cache_ok:
  assumes env: "faithful_env env" and ok: "cache_ok env h" and run: "rebuild env path h = Some (snap, h')"
  shows "cache_ok env h'"
proof (cases "vfs_read env (host_vfs h) path")
  case None
  with run ok show ?thesis by (auto simp: rebuild_def install_def cache_ok_def Let_def)
next
  case (Some content)
  obtain prog ctx where p: "env_parse env content path True collecting_context = (prog, ctx)" by fastforce
  with run Some obtain st where st: "resolve_imports_vfs env prog h ctx = Some st"
    by (auto simp: rebuild_def Let_def split: option.splits)
  have "faithful_env env \<and> cache_ok env (res_host st)"
    by (rule cache_kept.resolve_keeps [OF _ st [unfolded resolve_imports_vfs_def Let_def]]) (simp add: env ok)
  with run Some p st show ?thesis by (auto simp: rebuild_def install_def cache_ok_def Let_def split: prod.splits)
qed

lemma reachable_cache_ok:
  assumes "faithful_env env" "host_reachable env h"
  shows "cache_ok env h"
  using assms(2)
proof (induction rule: host_reachable.induct)
  case (reach_rebuild h path snap h')
  then show ?case using rebuild_cache_ok [OF assms(1)] by blast
qed (auto simp: cache_ok_def new_host_def set_workspace_root_def vfs_update_def Let_def)


lemma sample_faithful: "faithful_env sample_env"
  using sample_faithful_hash by (simp add: faithful_env_def sample_env_def)


text \<open>The two analyses of the claim below: with the import not in the cache, and with it.\<close>

lemma resolve_missing_import:
  assumes "program_imports main = [p]" "import_package p \<noteq> package_name main"
    "dir = (if host_root h = [] then env_cwd env else host_root h)"
    "package_file (import_package p) \<in> set (env_packages env dir)"
    "ipath = env_join env dir (package_file (import_package p))"
    "vfs_read env (host_vfs h) ipath = Some icontent"
    "env_parse env icontent ipath False ctx = (imported, ctx')" "program_imports imported = []"
    "host_preamble h (env_key env ipath) = None"
  shows "resolve_imports_vfs env main h ctx = Some
      \<lparr>res_host = remember env ipath (env_hash env icontent) imported (count_miss h),
       res_loaded = [import_package p, package_name main], res_imports = [imported], res_context = ctx'\<rparr>"
proof -
  obtain m where "length (env_packages env dir) = Suc m" using assms(4) by (cases "env_packages env dir") auto
  then show ?thesis
    using assms(1,2,4,6-9)
    by (simp add: resolve_imports_vfs_def assms(3) [symmetric] Let_def open_import_def cache_hit_def close_import_def
        assms(5) [symmetric] remember_def count_miss_def content_hash_def)
qed

lemma resolve_cached_import:
  assumes "program_imports main = [p]" "import_package p \<noteq> package_name main"
    "dir = (if host_root h = [] then env_cwd env else host_root h)"
    "package_file (import_package p) \<in> set (env_packages env dir)"
    "ipath = env_join env dir (package_file (import_package p))"
    "cache_hit env ipath h = Some imported" "program_imports imported = []"
  shows "resolve_imports_vfs env main h ctx = Some
      \<lparr>res_host = count_hit h, res_loaded = [import_package p, package_name main], res_imports = [imported], res_context = ctx\<rparr>"
proof -
  obtain m where "length (env_packages env dir) = Suc m" using assms(4) by (cases "env_packages env dir") auto
  then show ?thesis
    using assms(1,2,4,6,7)
    by (simp add: resolve_imports_vfs_def assms(3) [symmetric] Let_def open_import_def close_import_def assms(5) [symmetric])
qed

lemma rebuild_resolved:
  assumes "vfs_read env (host_vfs h) path = Some content"
    "env_parse env content path True collecting_context = (main, ctx)" "resolve_imports_vfs env main h ctx = Some st"
    "\<And>d ctx. snd (env_check env d main (res_imports st) ctx) = ctx"
  shows "\<exists>snap. rebuild env path h = Some (snap, (res_host st)\<lparr>host_current := Some snap\<rparr>) \<and>
    snap_ok snap = (\<not> ctx_failed (res_context st)) \<and> snap_diagnostics snap = ctx_diagnostics (res_context st)"
proof -
  let ?d = "if env_parent env path = [] then host_root h else env_parent env path"
  obtain idx where "env_check env ?d main (res_imports st) (res_context st) = (idx, res_context st)"
    using assms(4) [of ?d "res_context st"] by (cases "env_check env ?d main (res_imports st) (res_context st)") auto
  with assms(1-3) show ?thesis
    by (cases "env_parent env path = []") (simp_all add: rebuild_def Let_def install_def)
qed

text \<open>
  C39. The errors of an imported package are reported once only. When a file imports a package whose text has
  an error, the first analysis reports it; the next one, with nothing changed, takes the package from the
  cache, does not parse it again, and is without errors.
\<close>

theorem cached_import_errors_lost:
  assumes "vfs_read env (host_vfs h) path = Some content"
    and "env_parse env content path True collecting_context = (main, collecting_context)"
    and "program_imports main = [p]" "import_package p \<noteq> package_name main"
    and "dir = (if host_root h = [] then env_cwd env else host_root h)"
    and "package_file (import_package p) \<in> set (env_packages env dir)"
    and "ipath = env_join env dir (package_file (import_package p))"
    and "vfs_read env (host_vfs h) ipath = Some icontent"
    and "env_parse env icontent ipath False collecting_context = (imported, ctx_report r collecting_context)"
    and "rep_severity r = SeverityError" "rep_code r \<noteq> CodeOk"
    and "program_imports imported = []"
    and "\<And>d ctx. snd (env_check env d main [imported] ctx) = ctx"
    and "host_preamble h (env_key env ipath) = None"
  shows "\<exists>snap h' snap' h''. rebuild env path h = Some (snap, h') \<and> \<not> snap_ok snap \<and>
    rebuild env path h' = Some (snap', h'') \<and> snap_ok snap' \<and> snap_diagnostics snap' = []"
proof -
  have failed: "ctx_failed (ctx_report r collecting_context)" "\<not> ctx_failed collecting_context" "ctx_diagnostics collecting_context = []"
    using ctx_report_failed [OF assms(11), of collecting_context] assms(10)
    by (simp_all add: collecting_context_def enter_scope_def) (simp_all add: ctx_failed_def error_ok_def error_success_def)
  note res = resolve_missing_import [OF assms(3-9,12,14)]
  obtain snap where first: "rebuild env path h = Some (snap,
      (remember env ipath (env_hash env icontent) imported (count_miss h))\<lparr>host_current := Some snap\<rparr>)" "\<not> snap_ok snap"
    using rebuild_resolved [OF assms(1,2) res] assms(13) failed by auto
  let ?h = "(remember env ipath (env_hash env icontent) imported (count_miss h))\<lparr>host_current := Some snap\<rparr>"
  have h: "host_vfs ?h = host_vfs h" "host_root ?h = host_root h" by (simp_all add: remember_def count_miss_def)
  have hit: "cache_hit env ipath ?h = Some imported"
    using assms(8) by (simp add: cache_hit_def remember_def count_miss_def content_hash_def)
  have dir: "dir = (if host_root ?h = [] then env_cwd env else host_root ?h)" using assms(5) h(2) by simp
  note res2 = resolve_cached_import [OF assms(3,4) dir assms(6,7) hit assms(12)]
  obtain snap' h'' where "rebuild env path ?h = Some (snap', h'')" "snap_ok snap'" "snap_diagnostics snap' = []"
    using rebuild_resolved [OF _ assms(2) res2] assms(1,13) failed h(1) by auto
  with first show ?thesis by blast
qed

theorem cached_import_errors_lost_witness:
  "\<exists>snap h' snap' h''. rebuild sample_env ''main.mx'' new_host = Some (snap, h') \<and> \<not> snap_ok snap \<and>
    rebuild sample_env ''main.mx'' h' = Some (snap', h'') \<and> snap_ok snap' \<and> snap_diagnostics snap' = []"
  by (rule cached_import_errors_lost [where content = "''m''" and main = sample_main and dir = "''.''" and ipath = "''lib.mx''"
        and icontent = "''l''" and imported = sample_lib and r = sample_error and p = "\<lparr>import_loc = no_loc, import_package = ''lib''\<rparr>"])
    (simp_all add: sample_env_def sample_main_def sample_lib_def sample_error_def vfs_read_def new_host_def package_file_def span_report_def)

end
