(* ===== verification/Analyze_Server.thy ===== *)
theory Analyze_Server
  imports Analysis_Host
begin

text \<open>
  The request loop of the language server (\<open>run_analyze_server\<close> and \<open>run_analyze_batch\<close> of
  \<open>include/analyze.hpp\<close>): one line in, the lines it writes out. What a comparison with the start of a freed
  buffer gives in \<open>int_field\<close> is the parameter \<open>end_is_start\<close>.
\<close>

section \<open>Replies\<close>

definition numeric_id :: "string \<Rightarrow> bool" where
  "numeric_id x \<longleftrightarrow> list_all (\<lambda>c. is_digit c \<or> c = CHR ''-'') x"

definition id_json :: "string \<Rightarrow> string" where
  "id_json x = (if x = [] then ''null'' else if numeric_id x then x else quote x)"

definition reply_result :: "string \<Rightarrow> string \<Rightarrow> string" where
  "reply_result x result = ''{\"jsonrpc\":\"2.0\",\"id\":'' @ id_json x @ '',\"result\":'' @ result @ ''}''"

definition reply_error :: "string \<Rightarrow> int \<Rightarrow> string \<Rightarrow> string" where
  "reply_error x code message =
     ''{\"jsonrpc\":\"2.0\",\"id\":'' @ id_json x @ '',\"error\":{\"code\":'' @ to_string code @
     '',\"message\":'' @ quote message @ ''}}''"

section \<open>Requests\<close>

definition update_reply :: "string \<Rightarrow> analysis_snapshot \<Rightarrow> analysis_host \<Rightarrow> string" where
  "update_reply x snap h = reply_result x
     (''{\"ok\":true,\"revision\":'' @ decimal (unat (snap_revision snap)) @
      '',\"preamble_hits\":'' @ decimal (unat (host_hits h)) @
      '',\"preamble_misses\":'' @ decimal (unat (host_misses h)) @ ''}'')"

definition serve_update :: "host_env \<Rightarrow> string \<Rightarrow> string \<Rightarrow> analysis_host \<Rightarrow> (string list \<times> analysis_host) option" where
  "serve_update env x line h =
     (let path = string_field ''path'' [] line;
          kind = string_field ''kind'' ''change'' line;
          content = (if has_field ''text'' line then Some (string_field ''text'' [] line) else None);
          h1 = vfs_update env path kind content h
      in if kind = ''open'' \<or> kind = ''change''
         then (case rebuild env path h1 of
                 None \<Rightarrow> None
               | Some (snap, h2) \<Rightarrow> Some ([diagnostics_notification snap, update_reply x snap h2], h2))
         else Some ([reply_result x ''{\"ok\":true}''], h1))"

text \<open>\<open>find\<close> of a text in another.\<close>

definition has_text :: "string \<Rightarrow> string \<Rightarrow> bool" where
  "has_text x y \<longleftrightarrow> text_after x y \<noteq> None"

text \<open>The snapshot a query is answered from: the current one, unless it is of another file and there is one to build.\<close>

definition query_snapshot :: "host_env \<Rightarrow> string \<Rightarrow> analysis_host \<Rightarrow> (analysis_snapshot option \<times> analysis_host) option" where
  "query_snapshot env path h =
     (let fits = (case host_current h of None \<Rightarrow> False | Some snap \<Rightarrow> has_text (env_filename env path) (snap_file snap))
      in if \<not> fits \<and> (has_overlay env path (host_vfs h) \<or> env_exists env path)
         then map_option (\<lambda>(snap, h'). (Some snap, h')) (rebuild env path h)
         else Some (host_current h, h))"

definition query_methods :: "string list" where
  "query_methods = [''textDocument/hover'', ''textDocument/completion'', ''textDocument/definition'',
     ''textDocument/documentSymbol'']"

definition query_reply :: "(string \<Rightarrow> nat \<Rightarrow> bool) \<Rightarrow> string \<Rightarrow> string \<Rightarrow> string \<Rightarrow> analysis_snapshot option \<Rightarrow> string" where
  "query_reply end_is_start x method line found =
     (case found of
        None \<Rightarrow> reply_error x (- 32000) ''no snapshot''
      | Some snap \<Rightarrow>
          if snap_cancelled snap then reply_error x (- 32800) ''Cancelled''
          else let l = int_field end_is_start ''line'' 0 line;
                   c = int_field end_is_start ''column'' 0 line
            in if method = ''textDocument/hover'' then
                 (let result = hover_response snap l c
                  in if result = [] then reply_error x (- 32800) ''Cancelled'' else reply_result x result)
               else if method = ''textDocument/definition'' then reply_result x (definition_response snap l c)
               else if method = ''textDocument/documentSymbol'' then reply_result x (symbols_response snap)
               else reply_result x (completion_response snap (string_field ''trigger'' [] line)))"

text \<open>The body of the loop on a line that is not empty; the flag is false when the loop is left.\<close>

definition serve :: "(string \<Rightarrow> nat \<Rightarrow> bool) \<Rightarrow> host_env \<Rightarrow> string \<Rightarrow> analysis_host \<Rightarrow>
    (string list \<times> analysis_host \<times> bool) option" where
  "serve end_is_start env line h =
     (let x = string_field ''id'' [] line; method = string_field ''method'' [] line
      in if method = ''workspace/setRoot''
         then Some ([reply_result x ''{\"ok\":true}''], set_workspace_root (string_field ''path'' [] line) h, True)
         else if method = ''vfs/update''
         then map_option (\<lambda>(out, h'). (out, h', True)) (serve_update env x line h)
         else if method \<in> set query_methods
         then map_option (\<lambda>(found, h'). ([query_reply end_is_start x method line found], h', True))
                (query_snapshot env (string_field ''path'' [] line) h)
         else if method = ''shutdown'' then Some ([reply_result x ''null''], h, False)
         else Some ([reply_error x (- 32601) (''Method not found: '' @ method)], h, True))"

fun run_analyze_server :: "(string \<Rightarrow> nat \<Rightarrow> bool) \<Rightarrow> host_env \<Rightarrow> string list \<Rightarrow> analysis_host \<Rightarrow> string list option" where
  "run_analyze_server end_is_start env [] h = Some []"
| "run_analyze_server end_is_start env (line # rest) h =
     (if line = [] then run_analyze_server end_is_start env rest h
      else case serve end_is_start env line h of
        None \<Rightarrow> None
      | Some (out, h', go) \<Rightarrow>
          if go then map_option ((@) out) (run_analyze_server end_is_start env rest h') else Some out)"

text \<open>The batch mode: the exit code and what is written.\<close>

definition run_analyze_batch :: "host_env \<Rightarrow> string \<Rightarrow> string option \<Rightarrow> (int \<times> string) option" where
  "run_analyze_batch env path source_overlay =
     (case (case source_overlay of Some x \<Rightarrow> Some x | None \<Rightarrow> vfs_read env (\<lambda>_. None) path) of
        None \<Rightarrow> Some (1, [])
      | Some source \<Rightarrow>
          map_option (\<lambda>snap. (0, snapshot_to_analyze_json snap @ [CHR 0x0A]))
            (analyze_buffer env path source (env_parent env path)))"

section \<open>What is answered\<close>

definition is_answer :: "string \<Rightarrow> string \<Rightarrow> bool" where
  "is_answer x out \<longleftrightarrow> (\<exists>r. out = reply_result x r) \<or> (\<exists>c m. out = reply_error x c m)"

lemma is_answer_simps [simp]: "is_answer x (reply_result x r)" "is_answer x (reply_error x c m)"
  by (auto simp: is_answer_def)

lemma query_reply_answer [simp]: "is_answer x (query_reply e x method line found)"
  by (simp add: query_reply_def Let_def split: option.split)

text \<open>One answer to the request, after at most one notification.\<close>

definition answered_once :: "string \<Rightarrow> string list \<Rightarrow> bool" where
  "answered_once x out \<longleftrightarrow> (\<exists>answer. is_answer x answer \<and>
     (out = [answer] \<or> (\<exists>snap. out = [diagnostics_notification snap, answer])))"

lemma answered_onceI [simp]: "is_answer x a \<Longrightarrow> answered_once x [a]" "is_answer x a \<Longrightarrow> answered_once x [diagnostics_notification snap, a]"
  by (auto simp: answered_once_def)

lemma update_reply_answer [simp]: "is_answer x (update_reply x snap h)"
  by (simp add: update_reply_def)

lemma serve_update_answers: "\<exists>out h'. serve_update env x line h = Some (out, h') \<and> answered_once x out"
proof -
  obtain snap h2 where "rebuild env (string_field ''path'' [] line)
      (vfs_update env (string_field ''path'' [] line) (string_field ''kind'' ''change'' line)
        (if has_field ''text'' line then Some (string_field ''text'' [] line) else None) h) = Some (snap, h2)"
    using rebuild_total by blast
  then show ?thesis by (simp add: serve_update_def Let_def)
qed

lemma query_snapshot_total: "\<exists>found h'. query_snapshot env path h = Some (found, h')"
  using rebuild_total [of env path h] by (auto simp: query_snapshot_def Let_def)

lemma serve_answers:
  "\<exists>out h'. serve end_is_start env line h = Some (out, h', string_field ''method'' [] line \<noteq> ''shutdown'') \<and>
     answered_once (string_field ''id'' [] line) out"
proof -
  let ?m = "string_field ''method'' [] line"
  obtain out1 h1 where u: "serve_update env (string_field ''id'' [] line) line h = Some (out1, h1)"
    "answered_once (string_field ''id'' [] line) out1" using serve_update_answers by blast
  obtain found h2 where q: "query_snapshot env (string_field ''path'' [] line) h = Some (found, h2)"
    using query_snapshot_total by blast
  have "''shutdown'' \<notin> set query_methods" "''vfs/update'' \<noteq> ''shutdown''" "''workspace/setRoot'' \<noteq> ''shutdown''"
    by (simp_all add: query_methods_def)
  then show ?thesis
    unfolding serve_def Let_def u(1) q
    by (cases "?m = ''workspace/setRoot''"; cases "?m = ''vfs/update''"; cases "?m \<in> set query_methods"; cases "?m = ''shutdown''")
      (simp_all add: u(2))
qed


text \<open>
  C40. When any document is closed the current snapshot is cancelled and nothing replaces it: a query about the
  file the snapshot is of is answered with the error \<open>Cancelled\<close>, and leaves the server in a state in which it
  will be again.
\<close>

theorem closed_document_blocks_queries:
  assumes "host_current h = Some snap" "has_text (env_filename env (string_field ''path'' [] query)) (snap_file snap)"
    and "string_field ''method'' [] update = ''vfs/update''" "string_field ''kind'' ''change'' update = ''close''"
    and "string_field ''method'' [] query \<in> set query_methods"
  shows "\<exists>h'. serve end_is_start env update h =
      Some ([reply_result (string_field ''id'' [] update) ''{\"ok\":true}''], h', True) \<and>
    serve end_is_start env query h' =
      Some ([reply_error (string_field ''id'' [] query) (- 32800) ''Cancelled''], h', True)"
proof -
  let ?h = "vfs_update env (string_field ''path'' [] update) ''close''
      (if has_field ''text'' update then Some (string_field ''text'' [] update) else None) h"
  have cur: "host_current ?h = Some (snap\<lparr>snap_cancelled := True\<rparr>)"
    using assms(1) by (simp add: vfs_update_def Let_def)
  have m: "string_field ''method'' [] query \<noteq> ''vfs/update''" "string_field ''method'' [] query \<noteq> ''workspace/setRoot''"
    using assms(5) by (auto simp: query_methods_def)
  have 1: "serve end_is_start env update h = Some ([reply_result (string_field ''id'' [] update) ''{\"ok\":true}''], ?h, True)"
    using assms(3,4) by (simp add: serve_def serve_update_def Let_def)
  have "query_snapshot env (string_field ''path'' [] query) ?h = Some (Some (snap\<lparr>snap_cancelled := True\<rparr>), ?h)"
    using cur assms(2) by (simp add: query_snapshot_def Let_def)
  then have 2: "serve end_is_start env query ?h =
      Some ([reply_error (string_field ''id'' [] query) (- 32800) ''Cancelled''], ?h, True)"
    using assms(5) m by (simp add: serve_def Let_def query_reply_def)
  from 1 2 show ?thesis by blast
qed

text \<open>A host with an analysed file, a request that closes another one, and a query.\<close>

definition sample_host :: analysis_host where
  "sample_host = new_host\<lparr>host_current := Some (new_snapshot sample_env ''main.mx'' new_host)\<rparr>"

definition sample_close :: string where
  "sample_close = ''{\"id\":1,\"method\":\"vfs/update\",\"path\":\"lib.mx\",\"kind\":\"close\"}''"

definition sample_query :: string where
  "sample_query = ''{\"id\":2,\"method\":\"textDocument/hover\",\"path\":\"main.mx\"}''"

lemma sample_fields:
  "string_field ''method'' [] sample_close = ''vfs/update''" "string_field ''kind'' ''change'' sample_close = ''close''"
  "string_field ''method'' [] sample_query = ''textDocument/hover''" "string_field ''path'' [] sample_query = ''main.mx''"
  by (simp_all add: sample_close_def sample_query_def string_field_def find_value_def needle_def raw_value_def c_isspace_def)

theorem closed_document_blocks_queries_witness:
  "\<exists>h'. serve (\<lambda>_ n. n = 0) sample_env sample_close sample_host =
      Some ([reply_result (string_field ''id'' [] sample_close) ''{\"ok\":true}''], h', True) \<and>
    serve (\<lambda>_ n. n = 0) sample_env sample_query h' =
      Some ([reply_error (string_field ''id'' [] sample_query) (- 32800) ''Cancelled''], h', True)"
  by (rule closed_document_blocks_queries [where snap = "new_snapshot sample_env ''main.mx'' new_host"])
    (simp_all add: sample_fields sample_host_def new_snapshot_def has_text_def query_methods_def sample_env_def)

section \<open>The lines are JSON texts\<close>

text \<open>A text is read, by the reader of \<open>json.hpp\<close>, as a value.\<close>

definition reads_as :: "(string \<Rightarrow> bool) \<Rightarrow> string \<Rightarrow> json_value \<Rightarrow> bool" where
  "reads_as strtod_ok x v \<longleftrightarrow> (\<forall>k. json_parse (2 * length x + 1 + k) strtod_ok x = Some (Inr v))"

lemma reads_as_json: "is_json strtod_ok v x \<Longrightarrow> reads_as strtod_ok x v"
proof -
  assume "is_json strtod_ok v x"
  then have "json_document strtod_ok v x"
    unfolding json_document_def by (intro exI [of _ "[]"] exI [of _ x]) (simp add: json_ws_def)
  then show ?thesis using json_parse_document by (simp add: reads_as_def)
qed

text \<open>The identifiers that come back as they were: none, a text that is not numeric, an integer.\<close>

definition sound_id :: "string \<Rightarrow> json_value \<Rightarrow> bool" where
  "sound_id x v \<longleftrightarrow> x = [] \<and> v = JNull \<or> x \<noteq> [] \<and> \<not> numeric_id x \<and> v = JString x \<or>
     (\<exists>i. fits_int64 i \<and> x = to_string i \<and> v = JInt i)"

lemma numeric_to_string: "numeric_id (to_string i) \<and> to_string i \<noteq> []"
proof -
  have "list_all is_digit (decimal n)" "decimal n \<noteq> []" for n using decimal_digits by simp_all
  then show ?thesis by (simp add: numeric_id_def to_string_def list_all_iff)
qed

lemma is_json_id: "sound_id x v \<Longrightarrow> is_json strtod_ok v (id_json x)"
  using numeric_to_string by (auto simp: sound_id_def id_json_def writes)

definition result_value :: "json_value \<Rightarrow> json_value \<Rightarrow> json_value" where
  "result_value i r = JObject [(''jsonrpc'', JString ''2.0''), (''id'', i), (''result'', r)]"

lemma is_json_reply:
  assumes "sound_id x i" "is_json strtod_ok v r"
  shows "is_json strtod_ok (result_value i v) (reply_result x r)"
proof -
  have shape: "reply_result x r = obj_text [(''jsonrpc'', quote ''2.0''), (''id'', id_json x), (''result'', r)]"
    by (simp add: reply_result_def text_defs plain_text plain_key_def)
  show ?thesis
    unfolding shape result_value_def
    by (rule is_json_obj) (simp_all add: writes plain_key_def is_json_id [OF assms(1)] assms(2))
qed


definition sample_snapshot :: analysis_snapshot where
  "sample_snapshot = (new_snapshot sample_env ''main.mx'' new_host)\<lparr>snap_index := empty_index\<lparr>idx_occurrences :=
     [\<lparr>occ_name = ''x'', occ_kind = KindVar, occ_type = ''int'',
       occ_span = \<lparr>span_file = ''main.mx'', span_line = 2, span_column = 5, span_end_line = 2, span_end_column = 6\<rparr>,
       occ_def = no_span, occ_is_def = True\<rparr>]\<rparr>\<rparr>"


end
