(* ===== verification/Spec2Isabelle.thy ===== *)
theory Spec2Isabelle
  imports Hub_Safety Optimizer_Blocks Pgo_Optimizer Lexer_Positions Lexer_Roundtrip Mir_Optimizer X64_Decode
    Parse_Faults Parse_Front Analyze_Server
begin

text \<open>
  A verification development for munx, a language with a compiler to bytecode, a virtual machine with a
  profiling JIT in front of it, a native back end and a message hub that connects running programs.

  \<^bold>\<open>The program.\<close> A source text is cut into tokens (\<open>include/lexer.hpp\<close>) and parsed
  (\<open>include/parser.hpp\<close>) into a tree (\<open>include/ast.hpp\<close>); both report into the compile context of
  \<open>include/errors.hpp\<close>. The tree is checked and compiled to bytecode (\<open>include/Opcode.hpp\<close>), which the
  virtual machine of \<open>include/vm.hpp\<close> runs; in front of it \<open>include/jit/\<close> profiles branches, warms a branch
  predictor from the profile, specializes biased branches and optimizes the bytes. The native path lowers
  the tree to MIR (\<open>include/native/mir.hpp\<close>), optimizes it and assembles x86-64 code against the C runtime
  of \<open>src/native/runtime/\<close>. Pipes and channels between processes go through the hub daemon
  (\<open>include/pipe_hub_daemon.hpp\<close>) over the protocol of \<open>include/pipe_hub_protocol.hpp\<close>. An editor talks to the
  language server of \<open>include/analyze.hpp\<close> in lines of JSON; its host (\<open>include/analyze/host.hpp\<close>) runs the front end
  on every edit and answers queries from the index (\<open>include/semantic_index.hpp\<close>) the type checker leaves.

  \<^bold>\<open>The prelude.\<close> \<open>Munx_Prelude\<close> has bytes, machine words, little-endian scalars and the collections of
  rewrite rules; \<open>Int64\<close> the signed 64-bit integers, with the operations of which C++ leaves the overflow
  undefined.

  \<^bold>\<open>The hub.\<close>
    \<^item> \<open>Wire\<close>: the appenders and the class \<open>reader\<close> of the protocol. The locale \<open>wire_field\<close> states what an
      encoder and its decoder promise each other and is interpreted on all five kinds of field.
    \<^item> \<open>Hub_Protocol\<close>: frames, \<open>decode_message\<close>, the settings and the loops \<open>write_all\<close> and \<open>read_all\<close>.
      The lemmas show the round trip of every message, and that short writes are resumed.
    \<^item> \<open>Hub_Daemon\<close>: \<open>daemon_state\<close> as a record of clients and channels, one definition per handler. A write
      to a socket asks a \<open>network\<close>, a function of the number of the write; \<open>None\<close> is undefined behaviour
      (an iterator or a reference into something erased).
    \<^item> \<open>Hub_Steps\<close>: accepting a client, the input loop and a round of the poll loop, as a step relation.
    \<^item> \<open>Hub_Safety\<close>: the invariant of every reachable state, what a publish delivers, and the three ways a
      failing write or a truncated frame makes the behaviour undefined.

  \<^bold>\<open>The front end.\<close>
    \<^item> \<open>Compile_Errors\<close>: diagnostics and the context they are recorded in.
    \<^item> \<open>Lexer\<close>, \<open>Lexer_Props\<close>, \<open>Lexer_Steps\<close>, \<open>Lexer_Tokens\<close>, \<open>Lexer_Positions\<close>, \<open>Lexer_Roundtrip\<close>: the class
      \<open>lexer\<close> method by method. A loop that only moves forward is a total function; the token loop may run
      forever and takes fuel. The lemmas show where it does not return, the payload and the position of each
      token, and that spelled tokens are read back.
    \<^item> \<open>Ast\<close>, \<open>Parse_Core\<close>, \<open>Parser\<close>: the tree, the state of the parser and one definition per method. A run
      ends in \<open>Done\<close>, \<open>Crash\<close> or \<open>OutOfFuel\<close>.
    \<^item> \<open>Grammar\<close>: the grammar as inductive relations between trees and token lists, independent of the parser.
    \<^item> \<open>Parse_Logic\<close>, \<open>Parse_Wp\<close>: weakest preconditions for runs that have reported nothing. \<open>Parse_Sound\<close>,
      \<open>Parse_Forms\<close>, \<open>Parse_Statements\<close>, \<open>Parse_Control\<close>, \<open>Parse_Program\<close>: each routine yields phrases of the
      grammar, inside locales that state what the recursive parsers promise (\<open>parse_parts\<close>, \<open>statement_parts\<close>),
      interpreted on the two parsers themselves. \<open>Parse_Front\<close> has the theorems for token lists and sources.
    \<^item> \<open>Parse_Run\<close>, \<open>Parse_Faults\<close>: running the parser on concrete tokens, and the inputs it crashes or hangs on.

  \<^bold>\<open>Bytecode.\<close>
    \<^item> \<open>Bytecode\<close>: opcodes, operand readers and the cursor \<open>skip_instruction\<close>. \<open>Vm_Arith\<close>: the scalar operations
      of the virtual machine on its stack, with the fault a thread keeps pending.
    \<^item> \<open>Bytecode_Optimizer\<close>, \<open>Optimizer_Blocks\<close>: \<open>optimize_bytecode\<close> over bytes; on a block it equals a pass
      over instructions, and that pass refines the block on the machine but for the situations shown wrong.
    \<^item> \<open>Predictor\<close>: the execution profile and the branch predictor with their counters at width.
      \<open>Pgo_Optimizer\<close>: seeding, specialization and the pipeline.

  \<^bold>\<open>Native code.\<close>
    \<^item> \<open>Native_Runtime\<close>: the tagged values and the operations of the C runtime.
    \<^item> \<open>Mir\<close>, \<open>Mir_Semantics\<close>, \<open>Mir_Optimizer\<close>: the MIR and its three passes, a step semantics over the runtime,
      and the refinement of a module by its optimized form.
    \<^item> \<open>X64\<close>, \<open>X64_Decode\<close>: the assembler and the object image, and a decoder that reads the bytes back.

  \<^bold>\<open>JSON and the language server.\<close>
    \<^item> \<open>Json\<close>: the class \<open>parser\<close> of \<open>include/json.hpp\<close> with its cursor, its error flag and its mutual recursion, and
      the typed access functions. \<open>Json_Grammar\<close> has the grammar of JSON as relations between values and texts;
      \<open>Json_Sound\<close> and \<open>Json_Complete\<close> show that the reader accepts the texts of the grammar and nothing else.
    \<^item> \<open>Json_Writer\<close>: quoting and \<open>object_view\<close> of \<open>include/analyze/json_util.hpp\<close>, and which strings survive both.
    \<^item> \<open>Semantic_Index\<close>: the index and its lookups. \<open>Analyze_Json\<close>: snapshots, the texts of
      \<open>include/analyze.hpp\<close>, and the JSON value each of them is a text of.
    \<^item> \<open>Analysis_Host\<close>: the virtual file system and the host. Its state is a record; the recursive lambda that
      resolves imports is a function over the host, the packages loaded and the compile context. The locale
      \<open>resolve_invariant\<close> states what one import has to keep for the recursion to keep it, and is interpreted on the
      packages loaded, on the fields no import touches and on the soundness of the cache. The lemmas show that a
      rebuild ends, which snapshots are current, that the cache is transparent for programs and not for errors.
    \<^item> \<open>Analyze_Server\<close>: the request loop and the batch mode, and what is answered to whom.

  \<^bold>\<open>Fuel and bounds.\<close> Only loops that may run forever and mutually recursive routines take fuel. The token
  loop returns within as many turns as there are characters left, and the theorem on its termination says
  exactly when. The recursive parsers spend a unit per call and per turn of a loop; twice the number of
  tokens and three is enough for every run that reports nothing (\<open>parse_program_sound\<close>), since a statement
  and an expression each consume a token. The hub's loops are bounded by the input buffer and the backlog
  and are total. The JSON reader takes a unit per value and per turn of a loop, and twice the length of the text
  and one is always enough. The import recursion takes the number of packages of the directory: a package is
  loaded once, so the nesting cannot be deeper.

  \<^bold>\<open>Parameters.\<close> What the code takes from outside is an argument: the results of system calls (\<open>network\<close>,
  the short writes and reads), \<open>double\<close> arithmetic of the C library (a record of operations), whether
  \<open>strtod\<close> accepts a token, and for the language server the disk, paths, \<open>std::hash\<close>, \<open>parse_source\<close> and the type
  checker (the record \<open>host_env\<close>). Where a theorem
  needs something of a parameter it is a hypothesis with a name, and a witness has a concrete one.

  \<^bold>\<open>Not modelled.\<close> The type checker with the expansion of generics, the bytecode compiler, the MIR builder and the
  decompiler: passes over the tree or the bytes modelled here, left for lack of space. Containers, handles,
  calls, threads and builtins of the virtual machine: only the scalar core is modelled. The hub client and its
  C twin \<open>munx_pipe.c\<close>: threads and condition variables over sockets around the protocol. The object file
  writers and the code generators other than the assembler. The JIT dispatch, SIMD kernels, regular
  expressions and the platform layer: closures, intrinsics, \<open>std::regex\<close> and system calls.
\<close>

end
